theory Spec2Isabelle
  imports Complex_Main "HOL-Library.AList" "HOL-Library.Sublist" "HOL-Library.Multiset"
begin

section \<open>Strings as Python uses them\<close>

text \<open>
  The simulator (\<^verbatim>\<open>mtg_draft_analysis.py\<close>, class \<^verbatim>\<open>DraftSimulator\<close>) tests card text with
  Python's substring operator, counts colour symbols with \<^verbatim>\<open>str.count\<close> and lowers rules
  text with \<^verbatim>\<open>str.lower\<close>. Strings are byte lists here; every literal the program searches
  for is ASCII.
\<close>

text \<open>\<^verbatim>\<open>sub in s\<close> on strings: \<open>sub\<close> occurs as a contiguous block of \<open>s\<close>.\<close>

fun str_in :: "string \<Rightarrow> string \<Rightarrow> bool" where
  "str_in sub [] = (sub = [])"
| "str_in sub (c # s) = (prefix sub (c # s) \<or> str_in sub s)"

text \<open>\<^verbatim>\<open>s.count(sub)\<close>: the number of non-overlapping occurrences, scanning from the left.\<close>

function str_count :: "string \<Rightarrow> string \<Rightarrow> nat" where
  "str_count s sub =
     (if sub = [] then length s + 1
      else if s = [] then 0
      else if prefix sub s then 1 + str_count (drop (length sub) s) sub
      else str_count (tl s) sub)"
  by pat_completeness auto
termination
  by (relation "measure (\<lambda>(s, sub). length s)") auto

declare str_count.simps [simp del]

definition lower_char :: "char \<Rightarrow> char" where
  "lower_char c =
     (let n = (of_char c :: nat) in if 65 \<le> n \<and> n \<le> 90 then char_of (n + 32) else c)"

text \<open>\<^verbatim>\<open>s.lower()\<close> on ASCII letters; every other byte is kept.\<close>

definition lower :: "string \<Rightarrow> string" where
  "lower s = map lower_char s"

text \<open>\<^verbatim>\<open>s.startswith(p)\<close>.\<close>

definition startswith :: "string \<Rightarrow> string \<Rightarrow> bool" where
  "startswith s p = prefix p s"

section \<open>Data model\<close>

datatype error = KeyError | ValueError | ZeroDivisionError

text \<open>
  A card of the sealed pool, with the seven keys \<^verbatim>\<open>build_deck\<close> copies into
  \<^verbatim>\<open>pool_data\<close>. A key that is absent in the source dictionary has the default that
  \<^verbatim>\<open>card.get\<close> supplies there: the empty list, 0 or the empty string.
\<close>

record card =
  name :: string
  colors :: "string list"
  cmc :: rat
  type_line :: string
  rarity :: string
  oracle_text :: string
  mana_cost :: string

text \<open>An entry of \<^verbatim>\<open>pool_data\<close> once the scoring loop has written its \<^verbatim>\<open>"score"\<close> key.\<close>

record scored_card = card +
  score :: rat

text \<open>
  A deck holds two shapes of dictionary: the selected entries of \<^verbatim>\<open>pool_data\<close>, and the
  basic lands \<^verbatim>\<open>{"name": n, "type_line": "Basic Land"}\<close> that \<^verbatim>\<open>build_deck\<close> appends.
\<close>

datatype deck_entry = Spell scored_card | Basic_Land string

fun entry_name :: "deck_entry \<Rightarrow> string" where
  "entry_name (Spell c) = name c"
| "entry_name (Basic_Land n) = n"


fun is_basic_land :: "deck_entry \<Rightarrow> bool" where
  "is_basic_land (Spell c) = False"
| "is_basic_land (Basic_Land n) = True"

section \<open>Archetype table\<close>

record profile =
  keywords_of :: "string list"
  creature_weight :: rat
  noncreature_weight :: rat
  min_creatures :: nat

definition mk_profile :: "string list \<Rightarrow> rat \<Rightarrow> rat \<Rightarrow> nat \<Rightarrow> profile" where
  "mk_profile ks cw nw mc =
     \<lparr>keywords_of = ks, creature_weight = cw, noncreature_weight = nw, min_creatures = mc\<rparr>"

text \<open>
  \<^verbatim>\<open>self.archetype_weights\<close>, the entries that are not commented out in the source, in
  source order. The weights are decimal literals, read as exact rationals.
\<close>

definition archetype_weights :: "(string \<times> profile) list" where
  "archetype_weights =
   [(''WB'', mk_profile [''drain'', ''lifegain'', ''sacrifice'', ''afterlife'', ''cleric'',
        ''vampire'', ''knight'', ''extort'', ''token''] 1 1 15),
    (''UR'', mk_profile [''instant'', ''sorcery'', ''prowess'', ''draw'', ''wizard'',
        ''phoenix'', ''elemental'', ''flash'', ''copy''] (6/10) (14/10) 12),
    (''BG'', mk_profile [''graveyard'', ''deathtouch'', ''dredge'', ''scavenge'', ''insect'',
        ''fungus'', ''elf'', ''sacrifice'', ''undergrowth''] (11/10) (9/10) 16),
    (''RW'', mk_profile [''mentor'', ''attack'', ''equipment'', ''first strike'',
        ''double strike'', ''soldier'', ''warrior'', ''samurai'', ''haste''] (13/10) (7/10) 18),
    (''GU'', mk_profile [''adapt'', ''evolve'', ''counter'', ''flash'', ''mutate'', ''crab'',
        ''merfolk'', ''draw'', ''clone''] (11/10) (9/10) 16),
    (''WBG'', mk_profile [''outlast'', ''abzan'', ''lifelink'', ''deathtouch'', ''vigilance'',
        ''counter'', ''toughness'', ''spirit'', ''value''] (11/10) (9/10) 16),
    (''URW'', mk_profile [''prowess'', ''jeskai'', ''monk'', ''flying'', ''first strike'',
        ''noncreature'', ''instant'', ''sorcery'', ''trigger''] (8/10) (12/10) 13),
    (''BGU'', mk_profile [''delve'', ''sultai'', ''zombie'', ''snake'', ''naga'', ''self-mill'',
        ''graveyard'', ''deathtouch'', ''value''] (9/10) (11/10) 14),
    (''RWB'', mk_profile [''dash'', ''mardu'', ''warrior'', ''knight'', ''goblin'', ''haste'',
        ''first strike'', ''lifelink'', ''raid''] (12/10) (8/10) 17),
    (''GUR'', mk_profile [''ferocious'', ''temur'', ''flash'', ''elemental'', ''shaman'',
        ''draw'', ''power'', ''trample'', ''instants''] 1 1 15),
    (''MONO_W'', mk_profile [''vigilance'', ''lifelink'', ''enchantment'', ''soldier'',
        ''knight'', ''cleric'', ''human'', ''angel'', ''equipment''] (12/10) (8/10) 18),
    (''MONO_U'', mk_profile [''counter'', ''draw'', ''flash'', ''flying'', ''bounce'',
        ''wizard'', ''merfolk'', ''illusion'', ''artifact''] (7/10) (13/10) 12),
    (''MONO_B'', mk_profile [''destroy'', ''sacrifice'', ''discard'', ''zombie'', ''vampire'',
        ''demon'', ''deathtouch'', ''drain'', ''removal''] 1 1 15),
    (''MONO_R'', mk_profile [''damage'', ''haste'', ''goblin'', ''elemental'', ''dragon'',
        ''devil'', ''burn'', ''sacrifice'', ''attack''] (13/10) (7/10) 19),
    (''MONO_G'', mk_profile [''trample'', ''reach'', ''elf'', ''beast'', ''hydra'', ''wolf'',
        ''mana'', ''ramp'', ''+1/+1''] (14/10) (6/10) 20),
    (''5C'', mk_profile [''domain'', ''converge'', ''gate'', ''fixng'', ''ramp'',
        ''multicolor'', ''draw'', ''removal'', ''value''] 1 1 14)]"

section \<open>Primary colours\<close>

text \<open>
  \<^verbatim>\<open>color_counts\<close> is a dictionary with seven keys; an association list keeps their
  insertion order, which decides ties when the colours are ranked.
\<close>

type_synonym counts = "(string \<times> nat) list"

definition color_counts_init :: counts where
  "color_counts_init =
     [(''W'', 0), (''U'', 0), (''B'', 0), (''R'', 0), (''G'', 0),
      (''colorless'', 0), (''multicolor'', 0)]"

text \<open>\<^verbatim>\<open>d[k] += n\<close>: a missing key raises \<^verbatim>\<open>KeyError\<close>.\<close>

definition add_count :: "string \<Rightarrow> nat \<Rightarrow> counts \<Rightarrow> error + counts" where
  "add_count k n d =
     (case map_of d k of None \<Rightarrow> Inl KeyError | Some v \<Rightarrow> Inr (AList.update k (v + n) d))"

fun add_counts :: "string list \<Rightarrow> counts \<Rightarrow> error + counts" where
  "add_counts [] d = Inr d"
| "add_counts (k # ks) d =
     (case add_count k 1 d of Inl e \<Rightarrow> Inl e | Inr d' \<Rightarrow> add_counts ks d')"

definition count_card :: "card \<Rightarrow> counts \<Rightarrow> error + counts" where
  "count_card c d =
     (if length (colors c) = 0 then add_count ''colorless'' 1 d
      else if length (colors c) > 1 then
        (case add_count ''multicolor'' 1 d of Inl e \<Rightarrow> Inl e
         | Inr d' \<Rightarrow> add_counts (colors c) d')
      else add_count (colors c ! 0) 1 d)"

fun count_colors :: "card list \<Rightarrow> counts \<Rightarrow> error + counts" where
  "count_colors [] d = Inr d"
| "count_colors (c # cs) d =
     (case count_card c d of Inl e \<Rightarrow> Inl e | Inr d' \<Rightarrow> count_colors cs d')"

text \<open>The five colour letters, the keys of \<^verbatim>\<open>mana_symbols\<close>.\<close>

definition five_colors :: "string list" where
  "five_colors = [''W'', ''U'', ''B'', ''R'', ''G'']"

text \<open>
  The \<^verbatim>\<open>"auto"\<close> branch: the five colour keys sorted by count, highest first
  (\<^verbatim>\<open>sorted(..., reverse=True)\<close> is stable), and the first two taken.
\<close>

definition auto_colors :: "counts \<Rightarrow> string list" where
  "auto_colors d =
     take 2 (map fst (sort_key (\<lambda>(k, v). - int v)
       (filter (\<lambda>(k, v). k \<notin> set [''colorless'', ''multicolor'']) d)))"

definition two_color_codes :: "string list" where
  "two_color_codes =
     [''WU'', ''UB'', ''BR'', ''RG'', ''GW'', ''WB'', ''UR'', ''BG'', ''RW'', ''GU'']"

definition three_color_codes :: "string list" where
  "three_color_codes =
     [''WUB'', ''UBR'', ''BRG'', ''RGW'', ''GWU'', ''WBG'', ''URW'', ''BGU'', ''RWB'', ''GUR'']"

text \<open>The \<^verbatim>\<open>if/elif\<close> chain of \<^verbatim>\<open>build_deck\<close> that sets \<^verbatim>\<open>primary_colors\<close>.\<close>

definition primary_colors :: "string \<Rightarrow> counts \<Rightarrow> string list" where
  "primary_colors archetype d =
     (if archetype = ''auto'' then auto_colors d
      else if archetype \<in> set two_color_codes then map (\<lambda>ch. [ch]) archetype
      else if archetype \<in> set three_color_codes then map (\<lambda>ch. [ch]) archetype
      else if startswith archetype ''MONO_'' then [[last archetype]]
      else if archetype = ''5C'' then [''W'', ''U'', ''B'', ''R'', ''G'']
      else auto_colors d)"

section \<open>Scoring\<close>

definition rarity_bonus :: "string \<Rightarrow> rat" where
  "rarity_bonus r =
     (case map_of [(''common'', 0), (''uncommon'', 1), (''rare'', 2), (''mythic'', 3)] r of
        None \<Rightarrow> 0 | Some b \<Rightarrow> b)"

definition removal_terms :: "string list" where
  "removal_terms = [''destroy'', ''exile'', ''damage'', ''-'', ''fight'']"

text \<open>
  The body of the scoring loop, one \<open>let\<close> per statement that updates \<^verbatim>\<open>card["score"]\<close>.
\<close>

definition score_card :: "string \<Rightarrow> string list \<Rightarrow> card \<Rightarrow> rat" where
  "score_card archetype primary c =
     (let s0 = 0;
          s1 = (if \<exists>color \<in> set (colors c). color \<in> set primary then s0 + 5 else s0);
          s2 = (if set (colors c) = set primary then s1 + 3 else s1);
          s3 = (if length (colors c) = 0 \<and> \<not> str_in ''Land'' (type_line c)
                then s2 + 3 else s2);
          s4 = s3 + rarity_bonus (rarity c);
          s5 = (if cmc c \<le> 3 then s4 + 2 else if cmc c \<le> 5 then s4 + 1 else s4);
          s6 = (if str_in ''Creature'' (type_line c) then s5 + 1 else s5);
          s7 = (if str_in ''Removal'' (type_line c)
                   \<or> (\<exists>term \<in> set removal_terms. str_in term (lower (oracle_text c)))
                then s6 + 2 else s6)
      in case map_of archetype_weights archetype of
           None \<Rightarrow> s7
         | Some w \<Rightarrow>
             (let oracle = lower (oracle_text c);
                  s8 = foldl (\<lambda>s keyword. if str_in keyword oracle then s + 1 else s)
                         s7 (keywords_of w)
              in if str_in ''Creature'' (type_line c) then s8 * creature_weight w
                 else s8 * noncreature_weight w))"

definition score_entry :: "string \<Rightarrow> string list \<Rightarrow> card \<Rightarrow> scored_card" where
  "score_entry archetype primary c = card.extend c \<lparr>score = score_card archetype primary c\<rparr>"

section \<open>Selecting the spells\<close>

definition is_creature :: "scored_card \<Rightarrow> bool" where
  "is_creature c = str_in ''Creature'' (type_line c)"

text \<open>The filter that fills \<^verbatim>\<open>playable_cards\<close>: every land, and the cards in our colours.\<close>

definition playable :: "string list \<Rightarrow> scored_card \<Rightarrow> bool" where
  "playable primary c =
     (if str_in ''Land'' (type_line c) then True
      else length (colors c) = 0
           \<or> (\<exists>color \<in> set (colors c). color \<in> set primary)
           \<or> (\<forall>color \<in> set (colors c). color \<in> set primary))"

text \<open>
  \<^verbatim>\<open>playable_cards.sort(key=lambda c: c["score"], reverse=True)\<close>: highest score first,
  equal scores in their original order.
\<close>

definition playable_cards :: "string list \<Rightarrow> scored_card list \<Rightarrow> scored_card list" where
  "playable_cards primary pool_data =
     sort_key (\<lambda>c. - score c) (filter (playable primary) pool_data)"

definition min_creatures_for :: "string \<Rightarrow> nat" where
  "min_creatures_for archetype =
     (case map_of archetype_weights archetype of None \<Rightarrow> 14 | Some w \<Rightarrow> min_creatures w)"

text \<open>
  \<^verbatim>\<open>for _ in range(n): potential_cards.remove(non_creatures.pop(0))\<close>. The source calls it
  with \<open>n\<close> at most the length of \<^verbatim>\<open>non_creatures\<close>, whose elements all come from
  \<^verbatim>\<open>potential_cards\<close>, so neither \<^verbatim>\<open>pop\<close> nor \<^verbatim>\<open>remove\<close> can raise.
\<close>

fun remove_lowest :: "nat \<Rightarrow> scored_card list \<Rightarrow> scored_card list \<Rightarrow> scored_card list" where
  "remove_lowest 0 non_creatures potential = potential"
| "remove_lowest (Suc n) [] potential = potential"
| "remove_lowest (Suc n) (x # non_creatures) potential =
     remove_lowest n non_creatures (remove1 x potential)"

definition select_cards :: "nat \<Rightarrow> scored_card list \<Rightarrow> scored_card list" where
  "select_cards min_cr playable_cs =
     (let potential_cards =
            (if length playable_cs > 23 then take 23 playable_cs else playable_cs);
          creature_count = length (filter is_creature potential_cards);
          potential_cards =
            (if creature_count < min_cr then
               (let needed_creatures = min_cr - creature_count;
                    additional_creatures =
                      take needed_creatures (filter is_creature (drop 23 playable_cs));
                    non_creatures =
                      sort_key score (filter (\<lambda>c. \<not> is_creature c) potential_cards);
                    potential_cards =
                      remove_lowest
                        (min (length additional_creatures) (length non_creatures))
                        non_creatures potential_cards
                in potential_cards @ additional_creatures)
             else potential_cards)
      in if length potential_cards > 23 then take 23 potential_cards else potential_cards)"

section \<open>The mana base\<close>

definition basic_land_name :: "string \<Rightarrow> string" where
  "basic_land_name color =
     (if color = ''W'' then ''Plains''
      else if color = ''U'' then ''Island''
      else if color = ''B'' then ''Swamp''
      else if color = ''R'' then ''Mountain''
      else if color = ''G'' then ''Forest''
      else ''Wastes'')"

definition land :: "string \<Rightarrow> deck_entry" where
  "land color = Basic_Land (basic_land_name color)"

definition mana_symbols_init :: counts where
  "mana_symbols_init = [(''W'', 0), (''U'', 0), (''B'', 0), (''R'', 0), (''G'', 0)]"

text \<open>The inner loop \<^verbatim>\<open>for color in primary_colors: mana_symbols[color] += ...\<close>.\<close>

fun count_card_symbols :: "string \<Rightarrow> string list \<Rightarrow> counts \<Rightarrow> error + counts" where
  "count_card_symbols cost [] d = Inr d"
| "count_card_symbols cost (color # rest) d =
     (case add_count color (str_count cost color) d of
        Inl e \<Rightarrow> Inl e
      | Inr d' \<Rightarrow> count_card_symbols cost rest d')"

fun count_symbols :: "scored_card list \<Rightarrow> string list \<Rightarrow> counts \<Rightarrow> error + counts" where
  "count_symbols [] primary d = Inr d"
| "count_symbols (c # cs) primary d =
     (case count_card_symbols (mana_cost c) primary d of
        Inl e \<Rightarrow> Inl e
      | Inr d' \<Rightarrow> count_symbols cs primary d')"

text \<open>\<^verbatim>\<open>sum(mana_symbols[color] for color in primary_colors)\<close>.\<close>

fun sum_symbols :: "counts \<Rightarrow> string list \<Rightarrow> error + nat" where
  "sum_symbols d [] = Inr 0"
| "sum_symbols d (color # rest) =
     (case map_of d color of
        None \<Rightarrow> Inl KeyError
      | Some v \<Rightarrow> (case sum_symbols d rest of Inl e \<Rightarrow> Inl e | Inr t \<Rightarrow> Inr (v + t)))"

text \<open>
  \<^verbatim>\<open>mana_symbols[c]\<close> after the sum above has read every primary colour, so the key is
  present wherever the source evaluates it.
\<close>

definition symbols_of :: "counts \<Rightarrow> string \<Rightarrow> nat" where
  "symbols_of d color = (case map_of d color of None \<Rightarrow> 0 | Some v \<Rightarrow> v)"

text \<open>\<^verbatim>\<open>max(xs, key=f)\<close> and \<^verbatim>\<open>min(xs, key=f)\<close>: the first extremal element.\<close>

fun max_by :: "('a \<Rightarrow> nat) \<Rightarrow> 'a list \<Rightarrow> error + 'a" where
  "max_by f [] = Inl ValueError"
| "max_by f (x # xs) = Inr (foldl (\<lambda>best y. if f y > f best then y else best) x xs)"

fun min_by :: "('a \<Rightarrow> nat) \<Rightarrow> 'a list \<Rightarrow> error + 'a" where
  "min_by f [] = Inl ValueError"
| "min_by f (x # xs) = Inr (foldl (\<lambda>best y. if f y < f best then y else best) x xs)"

text \<open>The \<^verbatim>\<open>if total_colored_symbols == 0: ... else: ...\<close> block that first fills \<^verbatim>\<open>lands\<close>.\<close>

definition distribute_lands ::
  "string list \<Rightarrow> counts \<Rightarrow> nat \<Rightarrow> nat \<Rightarrow> error + deck_entry list" where
  "distribute_lands primary d total_symbols lands_needed =
     (if total_symbols = 0 then
        (if length primary = 1 then Inr (replicate lands_needed (land (primary ! 0)))
         else if length primary = 0 then Inl ZeroDivisionError
         else Inr (concat (map (\<lambda>color.
                 replicate (lands_needed div length primary) (land color)) primary)))
      else
        Inr (concat (map (\<lambda>color.
          (let color_ratio =
                 (if total_symbols > 0 then (of_nat (symbols_of d color) / of_nat total_symbols :: rat)
                  else 1 / of_nat (length primary));
               land_count = nat \<lfloor>of_nat lands_needed * color_ratio\<rfloor>
           in replicate land_count (land color))) primary)))"

text \<open>\<^verbatim>\<open>while len(lands) < lands_needed\<close>: one more land of the most demanding colour.\<close>

function add_lands ::
  "nat \<Rightarrow> counts \<Rightarrow> string list \<Rightarrow> deck_entry list \<Rightarrow> error + deck_entry list" where
  "add_lands lands_needed d primary lands =
     (if length lands < lands_needed then
        (case max_by (symbols_of d) primary of
           Inl e \<Rightarrow> Inl e
         | Inr most_demanding_color \<Rightarrow>
             add_lands lands_needed d primary (lands @ [land most_demanding_color]))
      else Inr lands)"
  by pat_completeness auto
termination
  by (relation "measure (\<lambda>(lands_needed, d, primary, lands). lands_needed - length lands)")
     auto

declare add_lands.simps [simp del]

text \<open>
  The \<^verbatim>\<open>for i, land in enumerate(lands)\<close> loop: the first land with the given name is
  popped; the list is unchanged when there is none.
\<close>

fun pop_first_named :: "string \<Rightarrow> deck_entry list \<Rightarrow> deck_entry list" where
  "pop_first_named n [] = []"
| "pop_first_named n (l # ls) =
     (if entry_name l = n then ls else l # pop_first_named n ls)"

text \<open>
  \<^verbatim>\<open>while len(lands) > lands_needed\<close>. An iteration that finds no land of the least
  demanding colour changes nothing, and the loop then never ends: the result is \<open>None\<close>.
\<close>

partial_function (option) remove_lands ::
  "nat \<Rightarrow> counts \<Rightarrow> string list \<Rightarrow> deck_entry list \<Rightarrow> (error + deck_entry list) option" where
  "remove_lands lands_needed d primary lands =
     (if length lands > lands_needed then
        (case min_by (symbols_of d) primary of
           Inl e \<Rightarrow> Some (Inl e)
         | Inr least_demanding_color \<Rightarrow>
             remove_lands lands_needed d primary
               (pop_first_named (basic_land_name least_demanding_color) lands))
      else Some (Inr lands))"

declare remove_lands.simps [code]

text \<open>
  The mana base: everything \<^verbatim>\<open>build_deck\<close> does from \<^verbatim>\<open>lands_needed = 40 - len(selected_cards)\<close>
  up to the final concatenation. The outer \<open>option\<close> is \<open>None\<close> when the second
  \<^verbatim>\<open>while\<close> loop does not end; \<open>Inl\<close> is the exception raised.
\<close>

definition mana_base ::
  "scored_card list \<Rightarrow> string list \<Rightarrow> (error + deck_entry list) option" where
  "mana_base selected_cards primary =
     (let lands_needed = 40 - length selected_cards
      in case count_symbols selected_cards primary mana_symbols_init of
           Inl e \<Rightarrow> Some (Inl e)
         | Inr mana_symbols \<Rightarrow>
            (case sum_symbols mana_symbols primary of
               Inl e \<Rightarrow> Some (Inl e)
             | Inr total_colored_symbols \<Rightarrow>
                (case distribute_lands primary mana_symbols total_colored_symbols
                        lands_needed of
                   Inl e \<Rightarrow> Some (Inl e)
                 | Inr lands \<Rightarrow>
                    (case add_lands lands_needed mana_symbols primary lands of
                       Inl e \<Rightarrow> Some (Inl e)
                     | Inr lands \<Rightarrow>
                         remove_lands lands_needed mana_symbols primary lands))))"

section \<open>Building a deck\<close>

text \<open>
  \<^verbatim>\<open>build_deck(sealed_pool, archetype)\<close>: count the colours of the pool, fix the primary
  colours, score a copy of every card, select the spells, add the lands.
\<close>

definition build_deck :: "card list \<Rightarrow> string \<Rightarrow> (error + deck_entry list) option" where
  "build_deck sealed_pool archetype =
     (case count_colors sealed_pool color_counts_init of
        Inl e \<Rightarrow> Some (Inl e)
      | Inr color_counts \<Rightarrow>
         (let primary = primary_colors archetype color_counts;
              pool_data = map (score_entry archetype primary) sealed_pool;
              selected_cards =
                select_cards (min_creatures_for archetype) (playable_cards primary pool_data)
          in case mana_base selected_cards primary of
               None \<Rightarrow> None
             | Some (Inl e) \<Rightarrow> Some (Inl e)
             | Some (Inr lands) \<Rightarrow> Some (Inr (map Spell selected_cards @ lands))))"

text \<open>The spells \<^verbatim>\<open>build_deck\<close> selects, given the colour counts of the pool.\<close>

definition selection :: "card list \<Rightarrow> string \<Rightarrow> counts \<Rightarrow> scored_card list" where
  "selection sealed_pool archetype color_counts =
     (let primary = primary_colors archetype color_counts
      in select_cards (min_creatures_for archetype)
           (playable_cards primary (map (score_entry archetype primary) sealed_pool)))"

section \<open>The scoring rule as the specification words it\<close>

text \<open>
  The reference the score is compared with, written from the specification's sentence and
  not from the code: a sum of independent bonuses, then, when the archetype has a profile,
  one point per matched keyword and the weight of the card's kind. A rarity outside the
  four named ones earns nothing.
\<close>

definition matched_keywords :: "profile \<Rightarrow> card \<Rightarrow> nat" where
  "matched_keywords w c =
     length (filter (\<lambda>keyword. str_in keyword (lower (oracle_text c))) (keywords_of w))"

definition reference_score :: "card \<Rightarrow> string list \<Rightarrow> profile option \<Rightarrow> rat" where
  "reference_score c primary prof =
     (let creature = str_in ''Creature'' (type_line c);
          base =
            (if set (colors c) \<inter> set primary \<noteq> {} then 5 else 0)
          + (if set (colors c) = set primary then 3 else 0)
          + (if colors c = [] \<and> \<not> str_in ''Land'' (type_line c) then 3 else 0)
          + (if rarity c = ''common'' then 0
             else if rarity c = ''uncommon'' then 1
             else if rarity c = ''rare'' then 2
             else if rarity c = ''mythic'' then 3 else 0)
          + (if cmc c \<le> 3 then 2 else if cmc c \<le> 5 then 1 else 0)
          + (if creature then 1 else 0)
          + (if str_in ''Removal'' (type_line c)
                \<or> (\<exists>t \<in> {''destroy'', ''exile'', ''damage'', ''-'', ''fight''}.
                      str_in t (lower (oracle_text c)))
             then 2 else 0)
      in case prof of
           None \<Rightarrow> base
         | Some w \<Rightarrow>
             (base + of_nat (matched_keywords w c))
             * (if creature then creature_weight w else noncreature_weight w))"


fun entry_type_line :: "deck_entry \<Rightarrow> string" where
  "entry_type_line (Spell c) = type_line c"
| "entry_type_line (Basic_Land n) = ''Basic Land''"


text \<open>The colour symbols a list of selected cards shows for one colour.\<close>

definition symbol_count :: "scored_card list \<Rightarrow> string \<Rightarrow> nat" where
  "symbol_count selected_cards color =
     sum_list (map (\<lambda>c. str_count (mana_cost c) color) selected_cards)"

section \<open>The random stream\<close>

text \<open>
  The module-level generator of \<^verbatim>\<open>random\<close> is a stream of raw draws that every call
  advances. \<^verbatim>\<open>random.random()\<close> is a 53-bit fraction in \<open>[0, 1)\<close>; \<^verbatim>\<open>random.choice\<close>
  picks a position; \<^verbatim>\<open>random.sample(population, k)\<close> picks \<open>k\<close> positions one after the
  other, each among the elements not picked yet, and raises \<^verbatim>\<open>ValueError\<close> when \<open>k\<close> exceeds
  the population.
\<close>

type_synonym rng = "nat \<Rightarrow> nat"

definition draw :: "rng \<Rightarrow> nat \<times> rng" where
  "draw g = (g 0, \<lambda>i. g (Suc i))"

definition random_random :: "rng \<Rightarrow> rat \<times> rng" where
  "random_random g = (case draw g of (n, g') \<Rightarrow> (of_nat (n mod 2 ^ 53) / 2 ^ 53, g'))"

definition random_choice :: "'a list \<Rightarrow> rng \<Rightarrow> error + 'a \<times> rng" where
  "random_choice xs g =
     (if xs = [] then Inl ValueError
      else case draw g of (n, g') \<Rightarrow> Inr (xs ! (n mod length xs), g'))"

fun sample_from :: "'a list \<Rightarrow> nat \<Rightarrow> rng \<Rightarrow> 'a list \<times> rng" where
  "sample_from population 0 g = ([], g)"
| "sample_from population (Suc k) g =
     (case draw g of (n, g') \<Rightarrow>
        (let i = n mod length population
         in case sample_from (take i population @ drop (Suc i) population) k g' of
              (rest, g'') \<Rightarrow> (population ! i # rest, g'')))"

definition random_sample :: "'a list \<Rightarrow> nat \<Rightarrow> rng \<Rightarrow> error + 'a list \<times> rng" where
  "random_sample population k g =
     (if k > length population then Inl ValueError else Inr (sample_from population k g))"

section \<open>Sealed pools\<close>

text \<open>One pass of the loop body of \<^verbatim>\<open>generate_sealed_pool\<close>: a booster of fifteen cards.\<close>

definition booster :: "card list \<Rightarrow> rng \<Rightarrow> error + card list \<times> rng" where
  "booster cards_in_set g =
     (let commons = filter (\<lambda>c. rarity c = ''common'') cards_in_set;
          uncommons = filter (\<lambda>c. rarity c = ''uncommon'') cards_in_set;
          rares = filter (\<lambda>c. rarity c \<in> set [''rare'', ''mythic'']) cards_in_set
      in case random_sample commons 10 g of
           Inl e \<Rightarrow> Inl e
         | Inr (cs, g1) \<Rightarrow>
            (case random_sample uncommons 3 g1 of
               Inl e \<Rightarrow> Inl e
             | Inr (us, g2) \<Rightarrow>
                (case random_sample rares 1 g2 of
                   Inl e \<Rightarrow> Inl e
                 | Inr (rs, g3) \<Rightarrow>
                    (case random_choice cards_in_set g3 of
                       Inl e \<Rightarrow> Inl e
                     | Inr (l, g4) \<Rightarrow> Inr (cs @ us @ rs @ [l], g4)))))"

text \<open>\<^verbatim>\<open>for _ in range(n): ... sealed_pool.extend(pack)\<close>.\<close>

fun boosters :: "nat \<Rightarrow> card list \<Rightarrow> card list \<Rightarrow> rng \<Rightarrow> error + card list \<times> rng" where
  "boosters 0 cards_in_set sealed_pool g = Inr (sealed_pool, g)"
| "boosters (Suc n) cards_in_set sealed_pool g =
     (case booster cards_in_set g of
        Inl e \<Rightarrow> Inl e
      | Inr (pack, g') \<Rightarrow> boosters n cards_in_set (sealed_pool @ pack) g')"

definition generate_sealed_pool :: "card list \<Rightarrow> rng \<Rightarrow> error + card list \<times> rng" where
  "generate_sealed_pool cards_in_set g =
     (if cards_in_set = [] then Inl ValueError else boosters 6 cards_in_set [] g)"

section \<open>Simulating drafts\<close>

text \<open>
  \<^verbatim>\<open>archetype_distribution\<close> is a dictionary from archetype code to weight, iterated in
  insertion order; \<open>None\<close> is the default argument. The weights are read as rationals.
\<close>

type_synonym distribution = "(string \<times> rat) list"

text \<open>The validation at the head of \<^verbatim>\<open>simulate_drafts\<close>.\<close>

definition normalize_distribution :: "distribution option \<Rightarrow> error + distribution option" where
  "normalize_distribution archetype_distribution =
     (case archetype_distribution of
        None \<Rightarrow> Inr None
      | Some weights \<Rightarrow>
          if weights = [] then Inr (Some weights)
          else (let total_weight = sum_list (map snd weights)
                in if \<not> (99 / 100 \<le> total_weight \<and> total_weight \<le> 101 / 100) then
                     (if total_weight = 0 then Inl ZeroDivisionError
                      else Inr (Some (map (\<lambda>(k, v). (k, v / total_weight)) weights)))
                   else Inr (Some weights)))"

text \<open>
  The \<^verbatim>\<open>for arch, prob in archetype_distribution.items()\<close> loop: \<open>Some\<close> the archetype at
  which the loop breaks, \<open>None\<close> when it runs to its end.
\<close>

fun pick_archetype :: "rat \<Rightarrow> rat \<Rightarrow> distribution \<Rightarrow> string option" where
  "pick_archetype r cumulative [] = None"
| "pick_archetype r cumulative ((arch, prob) # rest) =
     (let cumulative = cumulative + prob
      in if r \<le> cumulative then Some arch else pick_archetype r cumulative rest)"

text \<open>The archetype of one run, and the generator after the run has drawn from it.\<close>

definition current_archetype :: "string \<Rightarrow> distribution option \<Rightarrow> rng \<Rightarrow> string \<times> rng" where
  "current_archetype archetype archetype_distribution g =
     (case archetype_distribution of
        None \<Rightarrow> (archetype, g)
      | Some weights \<Rightarrow>
          if weights = [] then (archetype, g)
          else (case random_random g of (r, g') \<Rightarrow>
                  (case pick_archetype r 0 weights of
                     None \<Rightarrow> (archetype, g')
                   | Some arch \<Rightarrow> (arch, g'))))"

text \<open>A deck entry once \<^verbatim>\<open>simulate_drafts\<close> has written its two metadata keys.\<close>

record tagged_card =
  entry :: deck_entry
  tag_archetype :: "string option"
  tag_draft_number :: "nat option"

definition tag_deck :: "string \<Rightarrow> nat \<Rightarrow> deck_entry list \<Rightarrow> tagged_card list" where
  "tag_deck arch i deck =
     map (\<lambda>e. \<lparr>entry = e, tag_archetype = Some arch, tag_draft_number = Some i\<rparr>) deck"

text \<open>
  The main loop of \<^verbatim>\<open>simulate_drafts\<close>, from run \<open>i\<close> on, with \<open>n\<close> runs left.
\<close>

fun simulate_runs ::
  "nat \<Rightarrow> nat \<Rightarrow> card list \<Rightarrow> string \<Rightarrow> distribution option \<Rightarrow> tagged_card list list
     \<Rightarrow> rng \<Rightarrow> (error + tagged_card list list \<times> rng) option" where
  "simulate_runs 0 i cards_in_set archetype weights all_decks g = Some (Inr (all_decks, g))"
| "simulate_runs (Suc n) i cards_in_set archetype weights all_decks g =
     (case generate_sealed_pool cards_in_set g of
        Inl e \<Rightarrow> Some (Inl e)
      | Inr (sealed_pool, g1) \<Rightarrow>
         (case current_archetype archetype weights g1 of (arch, g2) \<Rightarrow>
            (case build_deck sealed_pool arch of
               None \<Rightarrow> None
             | Some (Inl e) \<Rightarrow> Some (Inl e)
             | Some (Inr deck) \<Rightarrow>
                 simulate_runs n (Suc i) cards_in_set archetype weights
                   (all_decks @ [tag_deck arch i deck]) g2)))"

definition simulate_drafts ::
  "card list \<Rightarrow> nat \<Rightarrow> string \<Rightarrow> distribution option \<Rightarrow> rng
     \<Rightarrow> (error + tagged_card list list \<times> rng) option" where
  "simulate_drafts cards_in_set num_drafts archetype archetype_distribution g =
     (case normalize_distribution archetype_distribution of
        Inl e \<Rightarrow> Some (Inl e)
      | Inr weights \<Rightarrow> simulate_runs num_drafts 0 cards_in_set archetype weights [] g)"

text \<open>The three rarity tiers a booster samples from.\<close>

definition commons_of :: "card list \<Rightarrow> card list" where
  "commons_of cards_in_set = filter (\<lambda>c. rarity c = ''common'') cards_in_set"

definition uncommons_of :: "card list \<Rightarrow> card list" where
  "uncommons_of cards_in_set = filter (\<lambda>c. rarity c = ''uncommon'') cards_in_set"

definition rares_of :: "card list \<Rightarrow> card list" where
  "rares_of cards_in_set = filter (\<lambda>c. rarity c \<in> set [''rare'', ''mythic'']) cards_in_set"

text \<open>
  What a pack is required to be: fifteen cards, the first ten drawn from the commons
  and the next three from the uncommons without replacement, then one rare or mythic,
  then one card of the whole set.
\<close>

definition is_booster :: "card list \<Rightarrow> card list \<Rightarrow> bool" where
  "is_booster cards_in_set pack \<longleftrightarrow>
     length pack = 15
     \<and> mset (take 10 pack) \<subseteq># mset (commons_of cards_in_set)
     \<and> mset (take 3 (drop 10 pack)) \<subseteq># mset (uncommons_of cards_in_set)
     \<and> pack ! 13 \<in> set (rares_of cards_in_set)
     \<and> pack ! 14 \<in> set cards_in_set"

definition enough_cards :: "card list \<Rightarrow> bool" where
  "enough_cards cards_in_set \<longleftrightarrow>
     cards_in_set \<noteq> []
     \<and> 10 \<le> length (commons_of cards_in_set)
     \<and> 3 \<le> length (uncommons_of cards_in_set)
     \<and> 1 \<le> length (rares_of cards_in_set)"

definition tagged_from :: "string set \<Rightarrow> tagged_card list \<Rightarrow> bool" where
  "tagged_from codes deck \<longleftrightarrow>
     (\<forall>card \<in> set deck. \<exists>a. tag_archetype card = Some a \<and> a \<in> codes)"

section \<open>Analysing the decks\<close>

definition basic_land_names :: "string list" where
  "basic_land_names = [''Plains'', ''Island'', ''Swamp'', ''Mountain'', ''Forest'', ''Wastes'']"

text \<open>\<^verbatim>\<open>sep.join(xs)\<close>.\<close>

fun join :: "string \<Rightarrow> string list \<Rightarrow> string" where
  "join sep [] = []"
| "join sep [x] = x"
| "join sep (x # y # ys) = x @ sep @ join sep (y # ys)"

text \<open>
  \<^verbatim>\<open>s.split(sep)[0]\<close> for a non-empty separator: the text before its first occurrence, or
  all of \<open>s\<close> when it does not occur.
\<close>

fun before_first :: "string \<Rightarrow> string \<Rightarrow> string" where
  "before_first sep [] = []"
| "before_first sep (c # s) = (if prefix sep (c # s) then [] else c # before_first sep s)"

definition is_space :: "char \<Rightarrow> bool" where
  "is_space c \<longleftrightarrow> c \<in> set [CHR '' '', CHR 0x09, CHR 0x0A, CHR 0x0B, CHR 0x0C, CHR 0x0D]"

text \<open>\<^verbatim>\<open>s.strip()\<close> on ASCII white space.\<close>

definition strip :: "string \<Rightarrow> string" where
  "strip s = rev (dropWhile is_space (rev (dropWhile is_space s)))"

text \<open>The long dash that separates main type and subtype in a type line, in UTF-8.\<close>

definition long_dash :: string where
  "long_dash = [CHR 0xE2, CHR 0x80, CHR 0x94]"

definition main_type :: "string \<Rightarrow> string" where
  "main_type x = strip (before_first long_dash x)"

text \<open>
  One row of the data frame. A column that a card's dictionary has no key for is
  \<open>None\<close> (\<^verbatim>\<open>NaN\<close> in the frame).
\<close>

record card_record =
  deck_id :: nat
  card_name :: string
  record_type_line :: string
  record_archetype :: string
  record_draft_number :: nat
  record_colors :: string
  color_count :: nat
  record_cmc :: "rat option"
  record_rarity :: "string option"
  record_score :: "rat option"

text \<open>The dictionary \<^verbatim>\<open>record\<close> that the flattening loop builds for one card of a deck.\<close>

definition make_record :: "nat \<Rightarrow> tagged_card \<Rightarrow> card_record" where
  "make_record deck_index tagged =
     (let arch = (case tag_archetype tagged of None \<Rightarrow> ''auto'' | Some a \<Rightarrow> a);
          number = (case tag_draft_number tagged of None \<Rightarrow> 0 | Some i \<Rightarrow> i)
      in case entry tagged of
           Spell c \<Rightarrow>
             \<lparr>deck_id = deck_index, card_name = name c, record_type_line = type_line c,
              record_archetype = arch, record_draft_number = number,
              record_colors = (if colors c \<noteq> [] then join '','' (colors c) else ''Colorless''),
              color_count = length (colors c),
              record_cmc = Some (cmc c), record_rarity = Some (rarity c),
              record_score = Some (score c)\<rparr>
         | Basic_Land n \<Rightarrow>
             \<lparr>deck_id = deck_index, card_name = n, record_type_line = ''Basic Land'',
              record_archetype = arch, record_draft_number = number,
              record_colors =
                (if str_in ''Land'' ''Basic Land'' then ''Basic Land'' else ''Unknown''),
              color_count = 0,
              record_cmc = None, record_rarity = None, record_score = None\<rparr>)"

text \<open>
  The flattening loop: every card of every deck, except those named like a basic land.
\<close>

definition card_records :: "tagged_card list list \<Rightarrow> card_record list" where
  "card_records decks =
     concat (map (\<lambda>(deck_index, deck).
        map (make_record deck_index)
          (filter (\<lambda>tagged. entry_name (entry tagged) \<notin> set basic_land_names) deck))
        (enumerate 0 decks))"

text \<open>
  \<^verbatim>\<open>Series.value_counts()\<close>: each distinct value with the number of rows that hold it,
  the most frequent first. Values of equal count are kept in order of first appearance.
\<close>

definition value_counts :: "'a list \<Rightarrow> ('a \<times> nat) list" where
  "value_counts xs =
     sort_key (\<lambda>(v, n). - int n) (map (\<lambda>v. (v, count_list xs v)) (rev (remdups (rev xs))))"

text \<open>\<^verbatim>\<open>groupby(column).size()\<close>: the distinct values in ascending order with their counts.\<close>

definition group_sizes :: "('a :: linorder) list \<Rightarrow> ('a \<times> nat) list" where
  "group_sizes xs = map (\<lambda>v. (v, count_list xs v)) (sort (remdups xs))"

text \<open>The values of a column that some rows may lack.\<close>

definition present :: "'a option list \<Rightarrow> 'a list" where
  "present xs = map the (filter (\<lambda>x. x \<noteq> None) xs)"

text \<open>
  The \<^verbatim>\<open>analysis\<close> dictionary. A metric that is computed only when its column exists is
  an \<open>option\<close>; the per-archetype metrics are keyed by archetype.
\<close>

record analysis =
  most_common_cards :: "(string \<times> nat) list"
  color_distribution :: "(string \<times> nat) list"
  type_distribution :: "(string \<times> nat) list"
  mana_curve :: "(rat \<times> nat) list option"
  rarity_distribution :: "(string \<times> nat) list option"
  archetype_distribution :: "(string \<times> nat) list option"
  most_common_cards_by :: "(string \<times> (string \<times> nat) list) list"
  mana_curve_by :: "(string \<times> (rat \<times> nat) list) list"

definition analyze_records :: "card_record list \<Rightarrow> analysis" where
  "analyze_records df =
     (let archetypes = rev (remdups (rev (map record_archetype df)));
          several = (length archetypes > 1);
          has_cmc = (\<exists>r \<in> set df. record_cmc r \<noteq> None)
      in \<lparr>most_common_cards = take 20 (value_counts (map card_name df)),
          color_distribution = value_counts (map record_colors df),
          type_distribution = value_counts (map (\<lambda>r. main_type (record_type_line r)) df),
          mana_curve =
            (if has_cmc then Some (group_sizes (present (map record_cmc df))) else None),
          rarity_distribution =
            (if \<exists>r \<in> set df. record_rarity r \<noteq> None
             then Some (value_counts (present (map record_rarity df))) else None),
          archetype_distribution =
            (if several
             then Some (value_counts (map snd
                    (remdups (map (\<lambda>r. (deck_id r, record_archetype r)) df))))
             else None),
          most_common_cards_by =
            (if several
             then map (\<lambda>a. (a, take 10 (value_counts
                    (map card_name (filter (\<lambda>r. record_archetype r = a) df))))) archetypes
             else []),
          mana_curve_by =
            (if several \<and> has_cmc
             then map (\<lambda>a. (a, group_sizes (present
                    (map record_cmc (filter (\<lambda>r. record_archetype r = a) df))))) archetypes
             else [])\<rparr>)"

text \<open>
  \<^verbatim>\<open>analyze_drafts(decks)\<close>. A frame built from no records has no columns, and the first
  column access raises \<^verbatim>\<open>KeyError\<close>.
\<close>

definition analyze_drafts ::
  "tagged_card list list \<Rightarrow> error + card_record list \<times> analysis" where
  "analyze_drafts decks =
     (let df = card_records decks
      in if df = [] then Inl KeyError else Inr (df, analyze_records df))"

section \<open>The dictionaries as objects in a store\<close>

text \<open>
  Python lists hold references. The cards of a sealed pool are the very dictionaries of
  \<^verbatim>\<open>cards_in_set\<close>, and \<^verbatim>\<open>build_deck\<close> and \<^verbatim>\<open>simulate_drafts\<close> assign to keys of
  dictionaries. To see which dictionaries they assign to, the dictionaries live in a
  store: a list of objects, a reference being a position in it. An object is a card
  dictionary with its optional \<^verbatim>\<open>"score"\<close>, \<^verbatim>\<open>"archetype"\<close> and \<^verbatim>\<open>"draft_number"\<close> keys,
  or a basic-land dictionary with the two optional metadata keys. A reference always
  points to an allocated object.
\<close>

datatype obj =
    Card_Dict card "rat option" "string option" "nat option"
  | Land_Dict string "string option" "nat option"

type_synonym ref = nat

type_synonym store = "obj list"

text \<open>The seven \<^verbatim>\<open>card.get\<close> reads of the comprehension that builds \<^verbatim>\<open>pool_data\<close>.\<close>

fun read_card :: "obj \<Rightarrow> card" where
  "read_card (Card_Dict c s a d) = c"
| "read_card (Land_Dict n a d) =
     \<lparr>name = n, colors = [], cmc = 0, type_line = ''Basic Land'', rarity = [],
      oracle_text = [], mana_cost = []\<rparr>"

text \<open>
  A scored entry of \<^verbatim>\<open>pool_data\<close> as the selection reads it. The selection runs after the
  scoring loop has set \<^verbatim>\<open>"score"\<close> on every entry, so the key is present where it is read.
\<close>

fun read_scored :: "obj \<Rightarrow> scored_card" where
  "read_scored (Card_Dict c s a d) =
     card.extend c \<lparr>score = (case s of None \<Rightarrow> 0 | Some v \<Rightarrow> v)\<rparr>"
| "read_scored (Land_Dict n a d) =
     card.extend (read_card (Land_Dict n a d)) \<lparr>score = 0\<rparr>"

text \<open>The deck entry a reference of a deck stands for.\<close>

fun read_entry :: "obj \<Rightarrow> deck_entry" where
  "read_entry (Card_Dict c s a d) = Spell (read_scored (Card_Dict c s a d))"
| "read_entry (Land_Dict n a d) = Basic_Land n"

fun read_name :: "obj \<Rightarrow> string" where
  "read_name (Card_Dict c s a d) = name c"
| "read_name (Land_Dict n a d) = n"

text \<open>\<^verbatim>\<open>card["score"] = v\<close>, and the two assignments of \<^verbatim>\<open>simulate_drafts\<close>.\<close>

fun set_score :: "rat \<Rightarrow> obj \<Rightarrow> obj" where
  "set_score v (Card_Dict c s a d) = Card_Dict c (Some v) a d"
| "set_score v (Land_Dict n a d) = Land_Dict n a d"

fun set_tags :: "string \<Rightarrow> nat \<Rightarrow> obj \<Rightarrow> obj" where
  "set_tags arch i (Card_Dict c s a d) = Card_Dict c s (Some arch) (Some i)"
| "set_tags arch i (Land_Dict n a d) = Land_Dict n (Some arch) (Some i)"

text \<open>A dictionary display creates a new object.\<close>

definition alloc :: "store \<Rightarrow> obj \<Rightarrow> store \<times> ref" where
  "alloc h x = (h @ [x], length h)"

text \<open>
  \<^verbatim>\<open>pool_data = [{...} for card in sealed_pool]\<close>: one new dictionary per reference of
  the pool, holding what the seven reads return.
\<close>

fun copy_cards :: "store \<Rightarrow> ref list \<Rightarrow> ref list \<Rightarrow> store \<times> ref list" where
  "copy_cards h [] pool_data = (h, pool_data)"
| "copy_cards h (a # sealed_pool) pool_data =
     (case alloc h (Card_Dict (read_card (h ! a)) None None None) of
        (h', p) \<Rightarrow> copy_cards h' sealed_pool (pool_data @ [p]))"

text \<open>The scoring loop \<^verbatim>\<open>for card in pool_data\<close>: it assigns to the entries of \<^verbatim>\<open>pool_data\<close>.\<close>

fun score_cards :: "string \<Rightarrow> string list \<Rightarrow> store \<Rightarrow> ref list \<Rightarrow> store" where
  "score_cards archetype primary h [] = h"
| "score_cards archetype primary h (p # pool_data) =
     score_cards archetype primary
       (h[p := set_score (score_card archetype primary (read_card (h ! p))) (h ! p)])
       pool_data"

text \<open>
  The selection on references. \<^verbatim>\<open>list.remove(x)\<close> removes the first element equal to
  \<open>x\<close>, and dictionaries are equal when their contents are.
\<close>

fun remove_equal :: "store \<Rightarrow> ref \<Rightarrow> ref list \<Rightarrow> ref list" where
  "remove_equal h x [] = []"
| "remove_equal h x (p # ps) =
     (if read_scored (h ! p) = read_scored (h ! x) then ps else p # remove_equal h x ps)"

fun remove_lowest_at :: "store \<Rightarrow> nat \<Rightarrow> ref list \<Rightarrow> ref list \<Rightarrow> ref list" where
  "remove_lowest_at h 0 non_creatures potential = potential"
| "remove_lowest_at h (Suc n) [] potential = potential"
| "remove_lowest_at h (Suc n) (x # non_creatures) potential =
     remove_lowest_at h n non_creatures (remove_equal h x potential)"

definition playable_cards_at :: "store \<Rightarrow> string list \<Rightarrow> ref list \<Rightarrow> ref list" where
  "playable_cards_at h primary pool_data =
     sort_key (\<lambda>p. - score (read_scored (h ! p)))
       (filter (\<lambda>p. playable primary (read_scored (h ! p))) pool_data)"

definition select_cards_at :: "store \<Rightarrow> nat \<Rightarrow> ref list \<Rightarrow> ref list" where
  "select_cards_at h min_cr playable_cs =
     (let creature = (\<lambda>p. is_creature (read_scored (h ! p)));
          potential_cards =
            (if length playable_cs > 23 then take 23 playable_cs else playable_cs);
          creature_count = length (filter creature potential_cards);
          potential_cards =
            (if creature_count < min_cr then
               (let needed_creatures = min_cr - creature_count;
                    additional_creatures =
                      take needed_creatures (filter creature (drop 23 playable_cs));
                    non_creatures =
                      sort_key (\<lambda>p. score (read_scored (h ! p)))
                        (filter (\<lambda>p. \<not> creature p) potential_cards);
                    potential_cards =
                      remove_lowest_at h
                        (min (length additional_creatures) (length non_creatures))
                        non_creatures potential_cards
                in potential_cards @ additional_creatures)
             else potential_cards)
      in if length potential_cards > 23 then take 23 potential_cards else potential_cards)"

text \<open>
  The lands on references. \<^verbatim>\<open>[{...}] * k\<close> creates one dictionary and a list of \<open>k\<close>
  references to it; \<^verbatim>\<open>lands.append({...})\<close> creates one dictionary per call.
\<close>

fun extend_lands :: "store \<Rightarrow> (string \<times> nat) list \<Rightarrow> ref list \<Rightarrow> store \<times> ref list" where
  "extend_lands h [] lands = (h, lands)"
| "extend_lands h ((color, k) # rest) lands =
     (case alloc h (Land_Dict (basic_land_name color) None None) of
        (h', p) \<Rightarrow> extend_lands h' rest (lands @ replicate k p))"

definition distribute_lands_at ::
  "store \<Rightarrow> string list \<Rightarrow> counts \<Rightarrow> nat \<Rightarrow> nat \<Rightarrow> error + store \<times> ref list" where
  "distribute_lands_at h primary d total_symbols lands_needed =
     (if total_symbols = 0 then
        (if length primary = 1 then Inr (extend_lands h [(primary ! 0, lands_needed)] [])
         else if length primary = 0 then Inl ZeroDivisionError
         else Inr (extend_lands h
                 (map (\<lambda>color. (color, lands_needed div length primary)) primary) []))
      else
        Inr (extend_lands h
          (map (\<lambda>color.
            (let color_ratio =
                   (if total_symbols > 0
                    then (of_nat (symbols_of d color) / of_nat total_symbols :: rat)
                    else 1 / of_nat (length primary));
                 land_count = nat \<lfloor>of_nat lands_needed * color_ratio\<rfloor>
             in (color, land_count))) primary) []))"

function add_lands_at ::
  "nat \<Rightarrow> counts \<Rightarrow> string list \<Rightarrow> store \<Rightarrow> ref list \<Rightarrow> error + store \<times> ref list" where
  "add_lands_at lands_needed d primary h lands =
     (if length lands < lands_needed then
        (case max_by (symbols_of d) primary of
           Inl e \<Rightarrow> Inl e
         | Inr most_demanding_color \<Rightarrow>
             (case alloc h (Land_Dict (basic_land_name most_demanding_color) None None) of
                (h', p) \<Rightarrow> add_lands_at lands_needed d primary h' (lands @ [p])))
      else Inr (h, lands))"
  by pat_completeness auto

termination
  by (relation "measure (\<lambda>(lands_needed, d, primary, h, lands). lands_needed - length lands)")
     auto

declare add_lands_at.simps [simp del]

fun pop_first_named_at :: "store \<Rightarrow> string \<Rightarrow> ref list \<Rightarrow> ref list" where
  "pop_first_named_at h n [] = []"
| "pop_first_named_at h n (l # ls) =
     (if read_name (h ! l) = n then ls else l # pop_first_named_at h n ls)"

partial_function (option) remove_lands_at ::
  "nat \<Rightarrow> counts \<Rightarrow> string list \<Rightarrow> store \<Rightarrow> ref list \<Rightarrow> (error + ref list) option" where
  "remove_lands_at lands_needed d primary h lands =
     (if length lands > lands_needed then
        (case min_by (symbols_of d) primary of
           Inl e \<Rightarrow> Some (Inl e)
         | Inr least_demanding_color \<Rightarrow>
             remove_lands_at lands_needed d primary h
               (pop_first_named_at h (basic_land_name least_demanding_color) lands))
      else Some (Inr lands))"

declare remove_lands_at.simps [code]

definition mana_base_at ::
  "store \<Rightarrow> ref list \<Rightarrow> string list \<Rightarrow> (error + store \<times> ref list) option" where
  "mana_base_at h selected_cards primary =
     (let lands_needed = 40 - length selected_cards
      in case count_symbols (map (\<lambda>p. read_scored (h ! p)) selected_cards) primary
                mana_symbols_init of
           Inl e \<Rightarrow> Some (Inl e)
         | Inr mana_symbols \<Rightarrow>
            (case sum_symbols mana_symbols primary of
               Inl e \<Rightarrow> Some (Inl e)
             | Inr total_colored_symbols \<Rightarrow>
                (case distribute_lands_at h primary mana_symbols total_colored_symbols
                        lands_needed of
                   Inl e \<Rightarrow> Some (Inl e)
                 | Inr (h1, lands) \<Rightarrow>
                    (case add_lands_at lands_needed mana_symbols primary h1 lands of
                       Inl e \<Rightarrow> Some (Inl e)
                     | Inr (h2, lands) \<Rightarrow>
                        (case remove_lands_at lands_needed mana_symbols primary h2 lands of
                           None \<Rightarrow> None
                         | Some (Inl e) \<Rightarrow> Some (Inl e)
                         | Some (Inr lands) \<Rightarrow> Some (Inr (h2, lands)))))))"

text \<open>
  \<^verbatim>\<open>build_deck\<close> on references: the store it leaves and the references of the deck.
\<close>

definition build_deck_at ::
  "store \<Rightarrow> ref list \<Rightarrow> string \<Rightarrow> (error + store \<times> ref list) option" where
  "build_deck_at h sealed_pool archetype =
     (case copy_cards h sealed_pool [] of (h1, pool_data) \<Rightarrow>
        (case count_colors (map (\<lambda>p. read_card (h1 ! p)) pool_data) color_counts_init of
           Inl e \<Rightarrow> Some (Inl e)
         | Inr color_counts \<Rightarrow>
            (let primary = primary_colors archetype color_counts;
                 h2 = score_cards archetype primary h1 pool_data;
                 selected_cards =
                   select_cards_at h2 (min_creatures_for archetype)
                     (playable_cards_at h2 primary pool_data)
             in case mana_base_at h2 selected_cards primary of
                  None \<Rightarrow> None
                | Some (Inl e) \<Rightarrow> Some (Inl e)
                | Some (Inr (h3, lands)) \<Rightarrow> Some (Inr (h3, selected_cards @ lands)))))"

text \<open>The metadata loop of \<^verbatim>\<open>simulate_drafts\<close>: \<^verbatim>\<open>for card in deck: card[...] = ...\<close>.\<close>

fun tag_deck_at :: "string \<Rightarrow> nat \<Rightarrow> store \<Rightarrow> ref list \<Rightarrow> store" where
  "tag_deck_at arch i h [] = h"
| "tag_deck_at arch i h (p # deck) = tag_deck_at arch i (h[p := set_tags arch i (h ! p)]) deck"

text \<open>
  A later store keeps the first \<open>n\<close> objects of an earlier one: nothing is deallocated,
  and none of these objects is assigned to.
\<close>

definition keeps :: "nat \<Rightarrow> store \<Rightarrow> store \<Rightarrow> bool" where
  "keeps n h h' \<longleftrightarrow> length h \<le> length h' \<and> take n h' = take n h"

definition fresh :: "nat \<Rightarrow> store \<Rightarrow> ref list \<Rightarrow> bool" where
  "fresh n h ps \<longleftrightarrow> (\<forall>p \<in> set ps. n \<le> p \<and> p < length h)"

section \<open>Deck entries by card type\<close>

text \<open>
  An entry is a land when its type line says so, whichever way it came into the deck: a
  land of the pool that was selected is a land, as an appended basic land is. It is a
  basic land when it is a land that carries one of the six basic-land names.
\<close>

definition non_land_entry :: "deck_entry \<Rightarrow> bool" where
  "non_land_entry e \<longleftrightarrow> \<not> str_in ''Land'' (entry_type_line e)"

definition basic_land_entry :: "deck_entry \<Rightarrow> bool" where
  "basic_land_entry e \<longleftrightarrow>
     str_in ''Land'' (entry_type_line e) \<and> entry_name e \<in> set basic_land_names"

section \<open>Sample cards and pools\<close>

definition goblin :: card where
  "goblin = \<lparr>name = ''Goblin Raider'', colors = [''R''], cmc = 2,
     type_line = ''Creature - Goblin'', rarity = ''common'', oracle_text = ''Haste'',
     mana_cost = ''{1}{R}''\<rparr>"

definition charm :: card where
  "charm = \<lparr>name = ''Boros Charm'', colors = [''W'', ''R''], cmc = 2,
     type_line = ''Instant'', rarity = ''uncommon'',
     oracle_text = ''Boros Charm deals 4 damage to target player.'',
     mana_cost = ''{R}{W}''\<rparr>"

definition small_pool :: "card list" where
  "small_pool = [goblin, goblin, charm]"

definition small_deck :: "deck_entry list" where
  "small_deck =
     [Spell (score_entry ''RW'' [''R'', ''W''] goblin),
      Spell (score_entry ''RW'' [''R'', ''W''] goblin),
      Spell (score_entry ''RW'' [''R'', ''W''] charm)]
     @ replicate 27 (Basic_Land ''Mountain'') @ replicate 9 (Basic_Land ''Plains'')
     @ [Basic_Land ''Mountain'']"


definition small_counts :: counts where
  "small_counts =
     [(''W'', 1), (''U'', 0), (''B'', 0), (''R'', 3), (''G'', 0),
      (''colorless'', 0), (''multicolor'', 1)]"

definition goblin_counts :: counts where
  "goblin_counts =
     [(''W'', 0), (''U'', 0), (''B'', 0), (''R'', 1), (''G'', 0),
      (''colorless'', 0), (''multicolor'', 0)]"



definition split_pool :: "card list" where
  "split_pool = replicate 12 goblin @ replicate 11 charm"

definition split_counts :: counts where
  "split_counts =
     [(''W'', 11), (''U'', 0), (''B'', 0), (''R'', 23), (''G'', 0),
      (''colorless'', 0), (''multicolor'', 11)]"

definition dragon :: card where
  "dragon = \<lparr>name = ''Shivan Dragon'', colors = [''R''], cmc = 6,
     type_line = ''Creature - Dragon'', rarity = ''rare'', oracle_text = ''Flying'',
     mana_cost = ''{4}{R}{R}''\<rparr>"

definition small_catalog :: "card list" where
  "small_catalog =
     map (\<lambda>n. goblin\<lparr>name := n\<rparr>)
       [''c0'', ''c1'', ''c2'', ''c3'', ''c4'', ''c5'', ''c6'', ''c7'', ''c8'', ''c9'']
     @ map (\<lambda>n. charm\<lparr>name := n\<rparr>) [''u0'', ''u1'', ''u2'']
     @ [dragon]"

definition short_weights :: distribution where
  "short_weights = [(''WB'', 1 / 2), (''UR'', 49 / 100)]"

definition high_draw :: rng where
  "high_draw = (\<lambda>i. 2 ^ 53 - 1)"

definition card_x :: card where
  "card_x = \<lparr>name = ''X'', colors = [''R''], cmc = 2, type_line = ''Creature'',
     rarity = ''common'', oracle_text = [], mana_cost = ''{1}{R}''\<rparr>"

definition wilds :: card where
  "wilds = \<lparr>name = ''Evolving Wilds'', colors = [], cmc = 0, type_line = ''Land'',
     rarity = ''common'', oracle_text = [], mana_cost = []\<rparr>"

definition pool_mountain :: card where
  "pool_mountain = \<lparr>name = ''Mountain'', colors = [], cmc = 0,
     type_line = ''Basic Land'', rarity = ''common'', oracle_text = [], mana_cost = []\<rparr>"

definition two_card_store :: store where
  "two_card_store =
     [Card_Dict card_x None None None, Card_Dict pool_mountain None None None]"

definition built_store :: store where
  "built_store =
     two_card_store
     @ [Card_Dict card_x (Some (score_card ''MONO_R'' [''R''] card_x)) None None,
        Card_Dict pool_mountain (Some (score_card ''MONO_R'' [''R''] pool_mountain)) None None,
        Card_Dict card_x (Some (score_card ''MONO_R'' [''R''] card_x)) None None,
        Land_Dict ''Mountain'' None None]"

definition built_deck :: "ref list" where
  "built_deck = [2, 4, 3] @ replicate 37 5"

definition mixed_deck :: "deck_entry list" where
  "mixed_deck =
     Spell (score_entry ''MONO_R'' [''R''] card_x)
     # Spell (score_entry ''MONO_R'' [''R''] wilds)
     # replicate 38 (Basic_Land ''Mountain'')"

definition mountain_pool :: "card list" where
  "mountain_pool = [pool_mountain, card_x, pool_mountain]"

definition mountain_deck :: "deck_entry list" where
  "mountain_deck =
     Spell (score_entry ''MONO_R'' [''R''] card_x)
     # Spell (score_entry ''MONO_R'' [''R''] pool_mountain)
     # Spell (score_entry ''MONO_R'' [''R''] pool_mountain)
     # replicate 37 (Basic_Land ''Mountain'')"

section \<open>Properties\<close>

lemma remove_lowest_length_le: "length (remove_lowest n ncs p) \<le> length p"
proof (induction n ncs p rule: remove_lowest.induct)
  case (3 n x ncs p)
  have "length (remove1 x p) \<le> length p"
    by (simp add: length_remove1)
  with 3 show ?case by simp
qed simp_all

lemma select_cards_length: "length (select_cards m p) \<le> 23"
  by (simp add: select_cards_def Let_def)

lemma length_concat_replicate:
  "length (concat (map (\<lambda>c. replicate (g c) (h c)) xs)) = sum_list (map g xs)"
  by (induction xs) simp_all

lemma floor_sum_le:
  fixes f :: "'a \<Rightarrow> rat"
  assumes "\<And>c. c \<in> set xs \<Longrightarrow> 0 \<le> f c"
  shows "of_nat (sum_list (map (\<lambda>c. nat \<lfloor>f c\<rfloor>) xs)) \<le> sum_list (map f xs)"
  using assms
proof (induction xs)
  case Nil
  show ?case by simp
next
  case (Cons x xs)
  have "0 \<le> f x" using Cons.prems by simp
  then have "of_nat (nat \<lfloor>f x\<rfloor>) \<le> f x"
    by (metis floor_mono floor_zero of_int_floor_le of_int_of_nat_eq of_nat_nat)
  moreover have "of_nat (sum_list (map (\<lambda>c. nat \<lfloor>f c\<rfloor>) xs)) \<le> sum_list (map f xs)"
    using Cons by simp
  ultimately show ?case by simp
qed

lemma sum_symbols_eq:
  "sum_symbols d primary = Inr t \<Longrightarrow> t = sum_list (map (symbols_of d) primary)"
  by (induction primary arbitrary: t)
     (auto simp: symbols_of_def split: option.splits sum.splits)

lemma sum_symbols_keys:
  "sum_symbols d primary = Inr t \<Longrightarrow> set primary \<subseteq> fst ` set d"
  by (induction primary arbitrary: t)
     (auto split: option.splits sum.splits dest: map_of_SomeD intro: rev_image_eqI)

lemma share_sum:
  fixes t :: nat
  assumes "t = sum_list (map s xs)" "0 < t"
  shows "sum_list (map (\<lambda>c. of_nat n * (of_nat (s c) / of_nat t :: rat)) xs) = of_nat n"
proof -
  have a: "sum_list (map (\<lambda>c. of_nat n * (of_nat (s c) / of_nat t :: rat)) xs)
        = of_nat n / of_nat t * sum_list (map (\<lambda>c. of_nat (s c)) xs)"
    by (induction xs) (simp_all add: algebra_simps)
  have b: "sum_list (map (\<lambda>c. of_nat (s c) :: rat) xs) = of_nat (sum_list (map s xs))"
    by (induction xs) simp_all
  have "of_nat n / of_nat t * (of_nat t :: rat) = of_nat n"
    using assms(2) by simp
  then show ?thesis
    unfolding a b assms(1) [symmetric] .
qed

lemma distribute_lands_length:
  assumes "distribute_lands primary d t n = Inr lands"
    and "sum_symbols d primary = Inr t"
  shows "length lands \<le> n"
proof (cases "t = 0")
  case True
  with assms(1) show ?thesis
    by (auto simp: distribute_lands_def length_concat_replicate sum_list_triv
             split: if_splits)
next
  case False
  let ?f = "\<lambda>c. of_nat n * (of_nat (symbols_of d c) / of_nat t :: rat)"
  have len: "length lands = sum_list (map (\<lambda>c. nat \<lfloor>?f c\<rfloor>) primary)"
    using assms(1) False
    by (auto simp: distribute_lands_def Let_def length_concat_replicate)
  have "of_nat (sum_list (map (\<lambda>c. nat \<lfloor>?f c\<rfloor>) primary)) \<le> sum_list (map ?f primary)"
    by (rule floor_sum_le) simp
  also have "\<dots> = of_nat n"
    using share_sum [of t "symbols_of d" primary n] sum_symbols_eq [OF assms(2)] False
    by simp
  finally show ?thesis using len by simp
qed

lemma add_lands_length:
  "add_lands n d primary lands = Inr lands' \<Longrightarrow> length lands \<le> n \<Longrightarrow> length lands' = n"
proof (induction n d primary lands rule: add_lands.induct)
  case (1 n d primary lands)
  show ?case
  proof (cases "length lands < n")
    case True
    then obtain c where c: "max_by (symbols_of d) primary = Inr c"
      and r: "add_lands n d primary (lands @ [land c]) = Inr lands'"
      using "1.prems"(1) by (subst (asm) add_lands.simps) (auto split: sum.splits)
    from "1.IH" [OF True c r] True show ?thesis by simp
  next
    case False
    with "1.prems" show ?thesis by (subst (asm) add_lands.simps) simp
  qed
qed

lemma remove_lands_done:
  "length lands \<le> n \<Longrightarrow> remove_lands n d primary lands = Some (Inr lands)"
  by (subst remove_lands.simps) simp


lemma selection_length: "length (selection sealed_pool archetype cc) \<le> 23"
  by (simp add: selection_def Let_def select_cards_length)

lemma mana_base_returns:
  assumes "mana_base sel primary = Some (Inr lands)"
  obtains ms t lands0 where
    "count_symbols sel primary mana_symbols_init = Inr ms"
    "sum_symbols ms primary = Inr t"
    "distribute_lands primary ms t (40 - length sel) = Inr lands0"
    "add_lands (40 - length sel) ms primary lands0 = Inr lands"
proof -
  let ?n = "40 - length sel"
  obtain ms where ms: "count_symbols sel primary mana_symbols_init = Inr ms"
    using assms by (cases "count_symbols sel primary mana_symbols_init")
      (auto simp: mana_base_def)
  obtain t where t: "sum_symbols ms primary = Inr t"
    using assms ms by (cases "sum_symbols ms primary") (auto simp: mana_base_def)
  obtain lands0 where l0: "distribute_lands primary ms t ?n = Inr lands0"
    using assms ms t by (cases "distribute_lands primary ms t ?n") (auto simp: mana_base_def)
  obtain lands1 where l1: "add_lands ?n ms primary lands0 = Inr lands1"
    using assms ms t l0 by (cases "add_lands ?n ms primary lands0") (auto simp: mana_base_def)
  have "length lands0 \<le> ?n"
    using distribute_lands_length [OF l0 t] .
  then have "length lands1 = ?n"
    using add_lands_length [OF l1] by simp
  then have "remove_lands ?n ms primary lands1 = Some (Inr lands1)"
    by (simp add: remove_lands_done)
  then have "lands = lands1"
    using assms ms t l0 l1 by (simp add: mana_base_def)
  with ms t l0 l1 show ?thesis
    using that by blast
qed

lemma build_deck_returns:
  assumes "build_deck sealed_pool archetype = Some (Inr deck)"
  obtains cc lands where
    "count_colors sealed_pool color_counts_init = Inr cc"
    "mana_base (selection sealed_pool archetype cc) (primary_colors archetype cc)
       = Some (Inr lands)"
    "deck = map Spell (selection sealed_pool archetype cc) @ lands"
proof -
  obtain cc where cc: "count_colors sealed_pool color_counts_init = Inr cc"
    using assms by (auto simp: build_deck_def split: sum.splits)
  let ?p = "primary_colors archetype cc"
  let ?sel = "selection sealed_pool archetype cc"
  have b: "(case mana_base ?sel ?p of
               None \<Rightarrow> None
             | Some (Inl e) \<Rightarrow> Some (Inl e)
             | Some (Inr lands) \<Rightarrow> Some (Inr (map Spell ?sel @ lands)))
           = Some (Inr deck)"
    using assms unfolding build_deck_def selection_def Let_def cc by simp
  then obtain lands where "mana_base ?sel ?p = Some (Inr lands)"
    "deck = map Spell ?sel @ lands"
    by (auto split: option.splits sum.splits)
  with cc show ?thesis using that by blast
qed

lemma distribute_lands_set:
  "distribute_lands primary d t n = Inr lands \<Longrightarrow> set lands \<subseteq> land ` set primary"
  by (auto simp: distribute_lands_def Let_def split: if_splits)

lemma max_by_in: "max_by f xs = Inr x \<Longrightarrow> x \<in> set xs"
proof (cases xs)
  case Nil
  then show "max_by f xs = Inr x \<Longrightarrow> x \<in> set xs" by simp
next
  case (Cons y ys)
  have "foldl (\<lambda>best z. if f z > f best then z else best) b zs \<in> insert b (set zs)" for b zs
    by (induction zs arbitrary: b) auto
  then show "max_by f xs = Inr x \<Longrightarrow> x \<in> set xs"
    using Cons by auto
qed

lemma add_lands_set:
  "add_lands n d primary lands = Inr lands' \<Longrightarrow> set lands \<subseteq> land ` set primary
     \<Longrightarrow> set lands' \<subseteq> land ` set primary"
proof (induction n d primary lands rule: add_lands.induct)
  case (1 n d primary lands)
  show ?case
  proof (cases "length lands < n")
    case True
    then obtain c where c: "max_by (symbols_of d) primary = Inr c"
      and r: "add_lands n d primary (lands @ [land c]) = Inr lands'"
      using "1.prems"(1) by (subst (asm) add_lands.simps) (auto split: sum.splits)
    have "set (lands @ [land c]) \<subseteq> land ` set primary"
      using "1.prems"(2) max_by_in [OF c] by auto
    from "1.IH" [OF True c r this] show ?thesis .
  next
    case False
    with "1.prems" show ?thesis by (subst (asm) add_lands.simps) simp
  qed
qed

lemma keyword_loop:
  "foldl (\<lambda>s keyword. if P keyword then s + 1 else s) (s0 :: rat) ks
     = s0 + of_nat (length (filter P ks))"
  by (induction ks arbitrary: s0) simp_all

lemma rarity_bonus_cases:
  "rarity_bonus r =
     (if r = ''common'' then 0 else if r = ''uncommon'' then 1
      else if r = ''rare'' then 2 else if r = ''mythic'' then 3 else 0)"
  by (simp add: rarity_bonus_def)

lemma bonus_step: "(if b then s + k else s) = s + (if b then k else (0::rat))"
  by simp

lemma shares_color:
  "(\<exists>color \<in> set cs. color \<in> set primary) \<longleftrightarrow> set cs \<inter> set primary \<noteq> {}"
  by auto

lemma score_card_reference:
  "score_card archetype primary c
     = reference_score c primary (map_of archetype_weights archetype)"
proof -
  have cost: "(if cmc c \<le> 3 then s + 2 else if cmc c \<le> 5 then s + 1 else s)
      = s + (if cmc c \<le> 3 then 2 else if cmc c \<le> 5 then 1 else 0)" for s :: rat
    by simp
  show ?thesis
    unfolding score_card_def reference_score_def Let_def keyword_loop cost
      matched_keywords_def shares_color removal_terms_def rarity_bonus_cases
    by (cases "map_of archetype_weights archetype") (simp_all add: algebra_simps)
qed


lemma truncate_score_entry [simp]: "card.truncate (score_entry archetype primary c) = c"
  by (simp add: score_entry_def card.defs)

lemma score_score_entry [simp]:
  "score (score_entry archetype primary c) = score_card archetype primary c"
  by (simp add: score_entry_def card.defs)

lemma remove_lowest_set: "set (remove_lowest n ncs p) \<subseteq> set p"
proof (induction n ncs p rule: remove_lowest.induct)
  case (3 n x ncs p)
  have "set (remove1 x p) \<subseteq> set p"
    by (rule set_remove1_subset)
  with 3 show ?case by auto
qed simp_all

lemma select_cards_set: "set (select_cards m p) \<subseteq> set p"
proof -
  define pot where "pot = (if length p > 23 then take 23 p else p)"
  define add where
    "add = take (m - length (filter is_creature pot)) (filter is_creature (drop 23 p))"
  define ncs where "ncs = sort_key score (filter (\<lambda>c. \<not> is_creature c) pot)"
  define pot2 where
    "pot2 = (if length (filter is_creature pot) < m
             then remove_lowest (min (length add) (length ncs)) ncs pot @ add else pot)"
  have eq: "select_cards m p = (if length pot2 > 23 then take 23 pot2 else pot2)"
    unfolding select_cards_def Let_def pot2_def ncs_def add_def pot_def ..
  have pot: "set pot \<subseteq> set p"
    unfolding pot_def using set_take_subset [of 23 p] by simp
  have add: "set add \<subseteq> set p"
    unfolding add_def
    using set_take_subset [of "m - length (filter is_creature pot)"
        "filter is_creature (drop 23 p)"] set_drop_subset [of 23 p]
    by auto
  have "set (remove_lowest (min (length add) (length ncs)) ncs pot) \<subseteq> set p"
    using remove_lowest_set [of "min (length add) (length ncs)" ncs pot] pot by blast
  with add pot have pot2: "set pot2 \<subseteq> set p"
    unfolding pot2_def by simp
  have "set (select_cards m p) \<subseteq> set pot2"
    unfolding eq using set_take_subset [of 23 pot2] by simp
  with pot2 show ?thesis by blast
qed

lemma playable_cards_set: "set (playable_cards primary pd) \<subseteq> set pd"
  by (auto simp: playable_cards_def)

lemma selection_set:
  "set (selection sealed_pool archetype cc)
     \<subseteq> score_entry archetype (primary_colors archetype cc) ` set sealed_pool"
proof -
  let ?pd = "map (score_entry archetype (primary_colors archetype cc)) sealed_pool"
  have "set (selection sealed_pool archetype cc)
          \<subseteq> set (playable_cards (primary_colors archetype cc) ?pd)"
    unfolding selection_def Let_def by (rule select_cards_set)
  also have "\<dots> \<subseteq> set ?pd"
    by (rule playable_cards_set)
  finally show ?thesis by simp
qed


lemma spell_in_deck:
  assumes "set lands \<subseteq> land ` set primary" "Spell sc \<in> set (map Spell sel @ lands)"
  shows "sc \<in> set sel"
  using assms by (auto simp: land_def)

lemma build_deck_lands:
  assumes "mana_base sel primary = Some (Inr lands)"
  shows "set lands \<subseteq> land ` set primary" "length lands = 40 - length sel"
proof -
  from assms obtain ms t lands0 where
    t: "sum_symbols ms primary = Inr t" and
    l0: "distribute_lands primary ms t (40 - length sel) = Inr lands0" and
    l1: "add_lands (40 - length sel) ms primary lands0 = Inr lands"
    by (rule mana_base_returns)
  show "set lands \<subseteq> land ` set primary"
    using add_lands_set [OF l1] distribute_lands_set [OF l0] by simp
  have "length lands0 \<le> 40 - length sel"
    using distribute_lands_length [OF l0 t] .
  then show "length lands = 40 - length sel"
    using add_lands_length [OF l1] by simp
qed

text \<open>
  C3. The score \<^verbatim>\<open>build_deck\<close> assigns is the reference function of the card, the
  primary colours and the archetype's profile: for any inputs the scoring loop computes
  the reference score, and every selected card of a returned deck is a card of the pool
  carrying exactly that score. Scoring is a function of these three inputs alone.
\<close>

theorem build_deck_score_reference:
  "score_card archetype primary c
     = reference_score c primary (map_of archetype_weights archetype)
   \<and> (\<forall>sealed_pool deck sc.
         build_deck sealed_pool archetype = Some (Inr deck) \<longrightarrow> Spell sc \<in> set deck \<longrightarrow>
         (\<exists>cc. count_colors sealed_pool color_counts_init = Inr cc
             \<and> card.truncate sc \<in> set sealed_pool
             \<and> score sc = reference_score (card.truncate sc) (primary_colors archetype cc)
                             (map_of archetype_weights archetype)))"
proof (intro conjI allI impI)
  show "score_card archetype primary c
     = reference_score c primary (map_of archetype_weights archetype)"
    by (rule score_card_reference)
next
  fix sealed_pool deck sc
  assume b: "build_deck sealed_pool archetype = Some (Inr deck)"
    and sc: "Spell sc \<in> set deck"
  from b obtain cc lands where
    cc: "count_colors sealed_pool color_counts_init = Inr cc" and
    mb: "mana_base (selection sealed_pool archetype cc) (primary_colors archetype cc)
       = Some (Inr lands)" and
    deck: "deck = map Spell (selection sealed_pool archetype cc) @ lands"
    by (rule build_deck_returns)
  have "sc \<in> set (selection sealed_pool archetype cc)"
    using spell_in_deck [OF build_deck_lands(1) [OF mb]] sc unfolding deck .
  then obtain c' where c': "c' \<in> set sealed_pool"
    and eq: "sc = score_entry archetype (primary_colors archetype cc) c'"
    using selection_set by blast
  have "card.truncate sc = c'"
    unfolding eq by simp
  moreover have "score sc = reference_score c' (primary_colors archetype cc)
                             (map_of archetype_weights archetype)"
    unfolding eq by (simp add: score_card_reference)
  ultimately show "\<exists>cc. count_colors sealed_pool color_counts_init = Inr cc
             \<and> card.truncate sc \<in> set sealed_pool
             \<and> score sc = reference_score (card.truncate sc) (primary_colors archetype cc)
                             (map_of archetype_weights archetype)"
    using cc c' by blast
qed

theorem build_deck_score_reference_witness:
  "build_deck small_pool ''RW'' = Some (Inr small_deck)
   \<and> Spell (score_entry ''RW'' [''R'', ''W''] charm) \<in> set small_deck
   \<and> (\<exists>cc. count_colors small_pool color_counts_init = Inr cc
         \<and> charm \<in> set small_pool
         \<and> score (score_entry ''RW'' [''R'', ''W''] charm)
             = reference_score charm (primary_colors ''RW'' cc)
                 (map_of archetype_weights ''RW''))
   \<and> score (score_entry ''RW'' [''R'', ''W''] charm) = 91 / 10"
proof -
  have h: "build_deck small_pool ''RW'' = Some (Inr small_deck)"
    by code_simp
  have m: "Spell (score_entry ''RW'' [''R'', ''W''] charm) \<in> set small_deck"
    by (simp add: small_deck_def)
  have v: "score (score_entry ''RW'' [''R'', ''W''] charm) = 91 / 10"
    by code_simp
  from build_deck_score_reference [of "''RW''" "[]" goblin] h m
  have "\<exists>cc. count_colors small_pool color_counts_init = Inr cc
         \<and> card.truncate (score_entry ''RW'' [''R'', ''W''] charm) \<in> set small_pool
         \<and> score (score_entry ''RW'' [''R'', ''W''] charm)
             = reference_score (card.truncate (score_entry ''RW'' [''R'', ''W''] charm))
                 (primary_colors ''RW'' cc) (map_of archetype_weights ''RW'')"
    by blast
  then show ?thesis
    using h m v by simp
qed

lemma add_count_keys:
  assumes "add_count k n d = Inr d'"
  shows "map fst d' = map fst d"
proof -
  obtain v where v: "map_of d k = Some v" and d': "d' = AList.update k (v + n) d"
    using assms by (auto simp: add_count_def split: option.splits)
  have "k \<in> fst ` set d"
    using map_of_SomeD [OF v] by (rule rev_image_eqI) simp
  then show ?thesis
    unfolding d' by (simp add: update_keys)
qed

lemma add_counts_keys: "add_counts ks d = Inr d' \<Longrightarrow> map fst d' = map fst d"
proof (induction ks arbitrary: d)
  case Nil
  then show ?case by simp
next
  case (Cons k ks)
  then obtain d1 where a: "add_count k 1 d = Inr d1" and b: "add_counts ks d1 = Inr d'"
    by (auto split: sum.splits)
  show ?case using Cons.IH [OF b] add_count_keys [OF a] by simp
qed

lemma count_card_keys:
  assumes "count_card c d = Inr d'"
  shows "map fst d' = map fst d"
proof (cases "length (colors c) = 0")
  case True
  then show ?thesis
    using assms add_count_keys unfolding count_card_def by auto
next
  case False
  show ?thesis
  proof (cases "length (colors c) > 1")
    case True
    with False assms obtain d1 where a: "add_count ''multicolor'' 1 d = Inr d1"
      and b: "add_counts (colors c) d1 = Inr d'"
      unfolding count_card_def by (auto split: sum.splits)
    show ?thesis
      using add_count_keys [OF a] add_counts_keys [OF b] by simp
  next
    case f: False
    with False assms have "add_count (colors c ! 0) 1 d = Inr d'"
      unfolding count_card_def by auto
    then show ?thesis by (rule add_count_keys)
  qed
qed

lemma count_colors_keys: "count_colors cs d = Inr d' \<Longrightarrow> map fst d' = map fst d"
proof (induction cs arbitrary: d)
  case Nil
  then show ?case by simp
next
  case (Cons c cs)
  then obtain d1 where a: "count_card c d = Inr d1" and b: "count_colors cs d1 = Inr d'"
    by (auto split: sum.splits)
  show ?case using Cons.IH [OF b] count_card_keys [OF a] by simp
qed

lemma color_keys:
  assumes "count_colors sealed_pool color_counts_init = Inr d"
  shows "map fst d = five_colors @ [''colorless'', ''multicolor'']"
  using count_colors_keys [OF assms] by (simp add: color_counts_init_def five_colors_def)

lemma map_fst_filter_keys:
  "map fst (filter (\<lambda>(k, v). P k) d) = filter P (map fst d)"
  by (induction d) auto

lemma ranked_keys:
  assumes "map fst d = five_colors @ [''colorless'', ''multicolor'']"
  shows "map fst (filter (\<lambda>(k, v). k \<notin> set [''colorless'', ''multicolor'']) d) = five_colors"
  unfolding map_fst_filter_keys assms by (simp add: five_colors_def)

lemma auto_colors_length:
  assumes "map fst d = five_colors @ [''colorless'', ''multicolor'']"
  shows "length (auto_colors d) = 2"
proof -
  have "length (filter (\<lambda>(k, v). k \<notin> set [''colorless'', ''multicolor'']) d) = 5"
    using arg_cong [OF ranked_keys [OF assms], of length] by (simp add: five_colors_def)
  then show ?thesis by (simp add: auto_colors_def)
qed

lemma auto_colors_subset:
  assumes "map fst d = five_colors @ [''colorless'', ''multicolor'']"
  shows "set (auto_colors d) \<subseteq> set five_colors"
proof -
  let ?r = "filter (\<lambda>(k, v). k \<notin> set [''colorless'', ''multicolor'']) d"
  have "set (auto_colors d) \<subseteq> set (map fst (sort_key (\<lambda>(k, v). - int v) ?r))"
    unfolding auto_colors_def by (rule set_take_subset)
  also have "\<dots> = set (map fst ?r)"
    by simp
  also have "\<dots> = set five_colors"
    using ranked_keys [OF assms] by simp
  finally show ?thesis .
qed

lemma primary_colors_length:
  assumes "map fst d = five_colors @ [''colorless'', ''multicolor'']"
  shows "length (primary_colors archetype d) \<in> {1, 2, 3, 5}"
proof -
  have two: "archetype \<in> set two_color_codes \<Longrightarrow> length archetype = 2"
    by (auto simp: two_color_codes_def)
  have three: "archetype \<in> set three_color_codes \<Longrightarrow> length archetype = 3"
    by (auto simp: three_color_codes_def)
  show ?thesis
    using two three auto_colors_length [OF assms]
    by (auto simp: primary_colors_def)
qed

lemma add_count_succeeds:
  assumes "k \<in> set (map fst d)"
  obtains d' where "add_count k n d = Inr d'" "map fst d' = map fst d"
proof -
  have "map_of d k \<noteq> None"
    using assms by (simp add: map_of_eq_None_iff)
  then obtain d' where d': "add_count k n d = Inr d'"
    by (auto simp: add_count_def)
  with add_count_keys [OF d'] that show ?thesis by blast
qed

lemma count_card_symbols_keys:
  "count_card_symbols cost primary d = Inr d' \<Longrightarrow> map fst d' = map fst d"
proof (induction primary arbitrary: d)
  case Nil
  then show ?case by simp
next
  case (Cons k ks)
  then obtain d1 where a: "add_count k (str_count cost k) d = Inr d1"
    and b: "count_card_symbols cost ks d1 = Inr d'"
    by (auto split: sum.splits)
  show ?case using Cons.IH [OF b] add_count_keys [OF a] by simp
qed

lemma count_symbols_keys:
  "count_symbols sel primary d = Inr d' \<Longrightarrow> map fst d' = map fst d"
proof (induction sel arbitrary: d)
  case Nil
  then show ?case by simp
next
  case (Cons c cs)
  then obtain d1 where a: "count_card_symbols (mana_cost c) primary d = Inr d1"
    and b: "count_symbols cs primary d1 = Inr d'"
    by (auto split: sum.splits)
  show ?case using Cons.IH [OF b] count_card_symbols_keys [OF a] by simp
qed

lemma count_card_symbols_succeeds:
  "set primary \<subseteq> set (map fst d) \<Longrightarrow> \<exists>d'. count_card_symbols cost primary d = Inr d'"
proof (induction primary arbitrary: d)
  case Nil
  show ?case by simp
next
  case (Cons k ks)
  from Cons.prems have "k \<in> set (map fst d)" by simp
  then obtain d1 where a: "add_count k (str_count cost k) d = Inr d1"
    and k: "map fst d1 = map fst d"
    by (rule add_count_succeeds)
  have "set ks \<subseteq> set (map fst d1)"
    using Cons.prems k by simp
  from Cons.IH [OF this] a show ?case by simp
qed

lemma count_symbols_succeeds:
  "set primary \<subseteq> set (map fst d) \<Longrightarrow> \<exists>d'. count_symbols sel primary d = Inr d'"
proof (induction sel arbitrary: d)
  case Nil
  show ?case by simp
next
  case (Cons c cs)
  from count_card_symbols_succeeds [OF Cons.prems]
  obtain d1 where a: "count_card_symbols (mana_cost c) primary d = Inr d1"
    by blast
  have "set primary \<subseteq> set (map fst d1)"
    using Cons.prems count_card_symbols_keys [OF a] by simp
  from Cons.IH [OF this] a show ?case by simp
qed

lemma sum_symbols_succeeds:
  "set primary \<subseteq> set (map fst d) \<Longrightarrow> \<exists>t. sum_symbols d primary = Inr t"
proof (induction primary)
  case Nil
  show ?case by simp
next
  case (Cons k ks)
  from Cons.prems have "map_of d k \<noteq> None"
    by (simp add: map_of_eq_None_iff)
  moreover from Cons have "\<exists>t. sum_symbols d ks = Inr t"
    by simp
  ultimately show ?case by auto
qed

lemma distribute_lands_succeeds:
  "primary \<noteq> [] \<Longrightarrow> \<exists>lands. distribute_lands primary d t n = Inr lands"
  by (simp add: distribute_lands_def)

lemma max_by_succeeds: "xs \<noteq> [] \<Longrightarrow> \<exists>x. max_by f xs = Inr x"
  by (cases xs) simp_all

lemma add_lands_succeeds:
  "primary \<noteq> [] \<Longrightarrow> \<exists>lands'. add_lands n d primary lands = Inr lands'"
proof (induction n d primary lands rule: add_lands.induct)
  case (1 n d primary lands)
  show ?case
  proof (cases "length lands < n")
    case True
    from max_by_succeeds [OF "1.prems"] obtain c where
      c: "max_by (symbols_of d) primary = Inr c" by blast
    from "1.IH" [OF True c "1.prems"] obtain lands' where
      "add_lands n d primary (lands @ [land c]) = Inr lands'" by blast
    then show ?thesis
      using True c by (subst add_lands.simps) simp
  next
    case False
    then show ?thesis by (subst add_lands.simps) simp
  qed
qed

lemma mana_base_terminates: "mana_base sel primary \<noteq> None"
proof (cases "count_symbols sel primary mana_symbols_init")
  case (Inl e)
  then show ?thesis by (simp add: mana_base_def)
next
  case ms: (Inr ms)
  show ?thesis
  proof (cases "sum_symbols ms primary")
    case (Inl e)
    with ms show ?thesis by (simp add: mana_base_def)
  next
    case t: (Inr t)
    show ?thesis
    proof (cases "distribute_lands primary ms t (40 - length sel)")
      case (Inl e)
      with ms t show ?thesis by (simp add: mana_base_def)
    next
      case l0: (Inr lands0)
      show ?thesis
      proof (cases "add_lands (40 - length sel) ms primary lands0")
        case (Inl e)
        with ms t l0 show ?thesis by (simp add: mana_base_def)
      next
        case l1: (Inr lands1)
        have "length lands0 \<le> 40 - length sel"
          using distribute_lands_length [OF l0 t] .
        then have "length lands1 = 40 - length sel"
          using add_lands_length [OF l1] by simp
        then have "remove_lands (40 - length sel) ms primary lands1 = Some (Inr lands1)"
          by (simp add: remove_lands_done)
        with ms t l0 l1 show ?thesis by (simp add: mana_base_def)
      qed
    qed
  qed
qed

lemma mana_base_succeeds:
  assumes "primary \<noteq> []" "set primary \<subseteq> set five_colors"
  shows "\<exists>lands. mana_base sel primary = Some (Inr lands)"
proof -
  have keys: "set primary \<subseteq> set (map fst mana_symbols_init)"
    using assms(2) by (simp add: mana_symbols_init_def five_colors_def)
  from count_symbols_succeeds [OF keys] obtain ms where
    ms: "count_symbols sel primary mana_symbols_init = Inr ms" by blast
  have "set primary \<subseteq> set (map fst ms)"
    using keys count_symbols_keys [OF ms] by simp
  from sum_symbols_succeeds [OF this] obtain t where
    t: "sum_symbols ms primary = Inr t" by blast
  from distribute_lands_succeeds [OF assms(1)] obtain lands0 where
    l0: "distribute_lands primary ms t (40 - length sel) = Inr lands0" by blast
  from add_lands_succeeds [OF assms(1)] obtain lands1 where
    l1: "add_lands (40 - length sel) ms primary lands0 = Inr lands1" by blast
  have "length lands0 \<le> 40 - length sel"
    using distribute_lands_length [OF l0 t] .
  then have "length lands1 = 40 - length sel"
    using add_lands_length [OF l1] by simp
  then have "remove_lands (40 - length sel) ms primary lands1 = Some (Inr lands1)"
    by (simp add: remove_lands_done)
  with ms t l0 l1 show ?thesis by (simp add: mana_base_def)
qed

lemma build_deck_unfold:
  "build_deck sealed_pool archetype =
     (case count_colors sealed_pool color_counts_init of
        Inl e \<Rightarrow> Some (Inl e)
      | Inr cc \<Rightarrow>
          (case mana_base (selection sealed_pool archetype cc) (primary_colors archetype cc) of
             None \<Rightarrow> None
           | Some (Inl e) \<Rightarrow> Some (Inl e)
           | Some (Inr lands) \<Rightarrow>
               Some (Inr (map Spell (selection sealed_pool archetype cc) @ lands))))"
  unfolding build_deck_def selection_def Let_def ..

lemma build_deck_terminates: "build_deck sealed_pool archetype \<noteq> None"
proof (cases "count_colors sealed_pool color_counts_init")
  case (Inl e)
  then show ?thesis by (simp add: build_deck_unfold)
next
  case (Inr cc)
  obtain r where "mana_base (selection sealed_pool archetype cc)
      (primary_colors archetype cc) = Some r"
    using mana_base_terminates by blast
  with Inr show ?thesis
    by (cases r) (simp_all add: build_deck_unfold)
qed

lemma build_deck_succeeds:
  assumes "count_colors sealed_pool color_counts_init = Inr cc"
    and "set (primary_colors archetype cc) \<subseteq> set five_colors"
  shows "\<exists>lands. build_deck sealed_pool archetype
           = Some (Inr (map Spell (selection sealed_pool archetype cc) @ lands))"
proof -
  have "length (primary_colors archetype cc) \<in> {1, 2, 3, 5}"
    using primary_colors_length [OF color_keys [OF assms(1)]] .
  then have "primary_colors archetype cc \<noteq> []" by auto
  from mana_base_succeeds [OF this assms(2)] obtain lands where
    "mana_base (selection sealed_pool archetype cc) (primary_colors archetype cc)
       = Some (Inr lands)" by blast
  then show ?thesis
    unfolding build_deck_unfold by (simp add: assms(1))
qed

lemma add_count_error: "add_count k n d = Inl e \<Longrightarrow> e = KeyError"
  by (auto simp: add_count_def split: option.splits)

lemma add_counts_error: "add_counts ks d = Inl e \<Longrightarrow> e = KeyError"
  by (induction ks arbitrary: d) (auto split: sum.splits dest: add_count_error)

lemma count_card_error: "count_card c d = Inl e \<Longrightarrow> e = KeyError"
  unfolding count_card_def
  by (auto split: if_splits sum.splits dest: add_count_error add_counts_error)

lemma count_colors_error: "count_colors cs d = Inl e \<Longrightarrow> e = KeyError"
  by (induction cs arbitrary: d) (auto split: sum.splits dest: count_card_error)

lemma count_card_symbols_error: "count_card_symbols cost primary d = Inl e \<Longrightarrow> e = KeyError"
  by (induction primary arbitrary: d) (auto split: sum.splits dest: add_count_error)

lemma count_symbols_error: "count_symbols sel primary d = Inl e \<Longrightarrow> e = KeyError"
  by (induction sel arbitrary: d) (auto split: sum.splits dest: count_card_symbols_error)

lemma sum_symbols_error: "sum_symbols d primary = Inl e \<Longrightarrow> e = KeyError"
  by (induction primary arbitrary: e) (auto split: sum.splits option.splits)

lemma mana_base_error:
  assumes "mana_base sel primary = Some (Inl e)" "primary \<noteq> []"
  shows "e = KeyError"
proof (cases "count_symbols sel primary mana_symbols_init")
  case (Inl e')
  with assms(1) show ?thesis
    by (auto simp: mana_base_def dest: count_symbols_error)
next
  case ms: (Inr ms)
  show ?thesis
  proof (cases "sum_symbols ms primary")
    case (Inl e')
    with ms assms(1) show ?thesis
      by (auto simp: mana_base_def dest: sum_symbols_error)
  next
    case t: (Inr t)
    from distribute_lands_succeeds [OF assms(2)] obtain lands0 where
      l0: "distribute_lands primary ms t (40 - length sel) = Inr lands0" by blast
    from add_lands_succeeds [OF assms(2)] obtain lands1 where
      l1: "add_lands (40 - length sel) ms primary lands0 = Inr lands1" by blast
    have "length lands0 \<le> 40 - length sel"
      using distribute_lands_length [OF l0 t] .
    then have "length lands1 = 40 - length sel"
      using add_lands_length [OF l1] by simp
    then have "remove_lands (40 - length sel) ms primary lands1 = Some (Inr lands1)"
      by (simp add: remove_lands_done)
    with ms t l0 l1 assms(1) show ?thesis by (simp add: mana_base_def)
  qed
qed

lemma build_deck_error:
  assumes "build_deck sealed_pool archetype = Some (Inl e)"
  shows "e = KeyError"
proof (cases "count_colors sealed_pool color_counts_init")
  case (Inl e')
  with assms show ?thesis
    by (auto simp: build_deck_unfold dest: count_colors_error)
next
  case (Inr cc)
  have "length (primary_colors archetype cc) \<in> {1, 2, 3, 5}"
    using primary_colors_length [OF color_keys [OF Inr]] .
  then have ne: "primary_colors archetype cc \<noteq> []" by auto
  from assms Inr have "mana_base (selection sealed_pool archetype cc)
      (primary_colors archetype cc) = Some (Inl e)"
    by (auto simp: build_deck_unfold split: option.splits sum.splits)
  then show ?thesis using ne by (rule mana_base_error)
qed

lemma build_deck_length:
  assumes "build_deck sealed_pool archetype = Some (Inr deck)"
  shows "length deck = 40"
proof -
  from assms obtain cc lands where
    mb: "mana_base (selection sealed_pool archetype cc) (primary_colors archetype cc)
       = Some (Inr lands)" and
    deck: "deck = map Spell (selection sealed_pool archetype cc) @ lands"
    by (rule build_deck_returns)
  show ?thesis
    unfolding deck
    using build_deck_lands(2) [OF mb] selection_length [of sealed_pool archetype cc]
    by simp
qed

lemma selection_empty: "selection [] archetype cc = []"
  by (simp add: selection_def playable_cards_def select_cards_def)

text \<open>
  C2, as stated, fails: the source has no check for an empty pool. On the empty pool with
  the default archetype \<^verbatim>\<open>build_deck\<close> returns a deck of forty basic lands.
\<close>

theorem build_deck_empty_pool_counterexample:
  "build_deck [] ''auto''
     = Some (Inr (replicate 20 (Basic_Land ''Plains'') @ replicate 20 (Basic_Land ''Island'')))"
  by code_simp

text \<open>
  C2, amended. \<^verbatim>\<open>build_deck\<close> always returns or raises; a deck it returns has exactly 40
  entries; the only exception it raises is \<^verbatim>\<open>KeyError\<close> (a colour that is not a key of
  the counting dictionaries); the primary colours resolved for a counted pool number
  1, 2, 3 or 5, never zero; and on the empty pool, whenever the resolved colours are
  among W, U, B, R, G, it returns forty basic lands instead of failing.
\<close>

theorem build_deck_never_partial:
  "build_deck sealed_pool archetype \<noteq> None
   \<and> (\<forall>deck. build_deck sealed_pool archetype = Some (Inr deck) \<longrightarrow> length deck = 40)
   \<and> (\<forall>e. build_deck sealed_pool archetype = Some (Inl e) \<longrightarrow> e = KeyError)
   \<and> (\<forall>cc. count_colors sealed_pool color_counts_init = Inr cc \<longrightarrow>
          length (primary_colors archetype cc) \<in> {1, 2, 3, 5})
   \<and> (set (primary_colors archetype color_counts_init) \<subseteq> set five_colors \<longrightarrow>
        (\<exists>lands. build_deck [] archetype = Some (Inr lands) \<and> length lands = 40
                  \<and> (\<forall>l \<in> set lands. is_basic_land l)))"
proof (intro conjI allI impI)
  show "build_deck sealed_pool archetype \<noteq> None"
    by (rule build_deck_terminates)
next
  fix deck assume "build_deck sealed_pool archetype = Some (Inr deck)"
  then show "length deck = 40" by (rule build_deck_length)
next
  fix e assume "build_deck sealed_pool archetype = Some (Inl e)"
  then show "e = KeyError" by (rule build_deck_error)
next
  fix cc assume "count_colors sealed_pool color_counts_init = Inr cc"
  then show "length (primary_colors archetype cc) \<in> {1, 2, 3, 5}"
    using primary_colors_length color_keys by blast
next
  assume p: "set (primary_colors archetype color_counts_init) \<subseteq> set five_colors"
  have cc: "count_colors [] color_counts_init = Inr color_counts_init"
    by simp
  from build_deck_succeeds [OF cc p] obtain lands where
    b: "build_deck [] archetype = Some (Inr lands)"
    by (auto simp: selection_empty)
  from b obtain cc' lands' where
    mb: "mana_base (selection [] archetype cc') (primary_colors archetype cc')
           = Some (Inr lands')"
    and deck: "lands = map Spell (selection [] archetype cc') @ lands'"
    by (rule build_deck_returns)
  have "\<forall>l \<in> set lands. is_basic_land l"
    using build_deck_lands(1) [OF mb] unfolding deck selection_empty
    by (auto simp: land_def)
  with b build_deck_length [OF b]
  show "\<exists>lands. build_deck [] archetype = Some (Inr lands) \<and> length lands = 40
                  \<and> (\<forall>l \<in> set lands. is_basic_land l)"
    by blast
qed

theorem build_deck_never_partial_witness:
  "build_deck small_pool ''RW'' = Some (Inr small_deck) \<and> length small_deck = 40
   \<and> build_deck small_pool ''MONO_Q'' = Some (Inl KeyError)
   \<and> count_colors small_pool color_counts_init = Inr small_counts
   \<and> length (primary_colors ''RW'' small_counts) \<in> {1, 2, 3, 5}
   \<and> set (primary_colors ''RW'' color_counts_init) \<subseteq> set five_colors
   \<and> (\<exists>lands. build_deck [] ''RW'' = Some (Inr lands) \<and> length lands = 40
                  \<and> (\<forall>l \<in> set lands. is_basic_land l))"
proof -
  have h1: "build_deck small_pool ''RW'' = Some (Inr small_deck)"
    by code_simp
  have h2: "build_deck small_pool ''MONO_Q'' = Some (Inl KeyError)"
    by code_simp
  have h3: "count_colors small_pool color_counts_init = Inr small_counts"
    by code_simp
  have h4: "set (primary_colors ''RW'' color_counts_init) \<subseteq> set five_colors"
    by code_simp
  note a = build_deck_never_partial [of small_pool "''RW''"]
  note b = build_deck_never_partial [of small_pool "''MONO_Q''"]
  from a h1 have "length small_deck = 40" by blast
  moreover from a h3 have "length (primary_colors ''RW'' small_counts) \<in> {1, 2, 3, 5}"
    by blast
  moreover from a h4 have "\<exists>lands. build_deck [] ''RW'' = Some (Inr lands) \<and> length lands = 40
                  \<and> (\<forall>l \<in> set lands. is_basic_land l)"
    by blast
  moreover from b h2 have "KeyError = KeyError" by blast
  ultimately show ?thesis
    using h1 h2 h3 h4 by blast
qed

lemma auto_colors_ranked:
  assumes keys: "map fst d = five_colors @ [''colorless'', ''multicolor'']"
  shows "\<exists>c1 c2. auto_colors d = [c1, c2] \<and> c1 \<noteq> c2
           \<and> c1 \<in> set five_colors \<and> c2 \<in> set five_colors
           \<and> symbols_of d c2 \<le> symbols_of d c1
           \<and> (\<forall>c \<in> set five_colors. c \<noteq> c1 \<longrightarrow> c \<noteq> c2 \<longrightarrow> symbols_of d c \<le> symbols_of d c2)"
proof -
  define f where "f = (\<lambda>(k :: string, v :: nat). - int v)"
  define r where "r = filter (\<lambda>(k, v). k \<notin> set [''colorless'', ''multicolor'']) d"
  define s where "s = sort_key f r"
  have r_keys: "map fst r = five_colors"
    unfolding r_def by (rule ranked_keys [OF keys])
  have dist_d: "distinct (map fst d)"
    unfolding keys by (simp add: five_colors_def)
  have val: "symbols_of d (fst p) = snd p" if "p \<in> set s" for p
  proof -
    from that have "p \<in> set d" by (simp add: s_def r_def)
    then have "(fst p, snd p) \<in> set d" by simp
    then have "map_of d (fst p) = Some (snd p)"
      using dist_d by (rule map_of_is_SomeI [rotated])
    then show ?thesis by (simp add: symbols_of_def)
  qed
  have "mset (map fst s) = mset (map fst r)"
    unfolding s_def by simp
  then have ms: "mset (map fst s) = mset five_colors"
    by (simp add: r_keys)
  have "distinct five_colors"
    by (simp add: five_colors_def)
  then have dist_s: "distinct (map fst s)"
    using mset_eq_imp_distinct_iff [OF ms] by simp
  have set_s: "set (map fst s) = set five_colors"
    using ms by (rule mset_eq_setD)
  have "length s = length r" by (simp add: s_def)
  also have "\<dots> = length (map fst r)" by simp
  also have "\<dots> = 5" unfolding r_keys by (simp add: five_colors_def)
  finally have len: "length s = 5" .
  then obtain p1 s1 where s1: "s = p1 # s1" by (cases s) auto
  with len obtain p2 rest where s2: "s = p1 # p2 # rest" by (cases s1) auto
  have sorted: "sorted (map f s)"
    unfolding s_def by (rule sorted_sort_key)
  have le12: "f p1 \<le> f p2" and le2: "\<forall>x \<in> set rest. f p2 \<le> f x"
    using sorted unfolding s2 by auto
  have auto_eq: "auto_colors d = [fst p1, fst p2]"
    unfolding auto_colors_def r_def [symmetric] f_def [symmetric] s_def [symmetric] s2
    by (simp add: numeral_2_eq_2)
  have f_snd: "f p = - int (snd p)" for p
    by (cases p) (simp add: f_def)
  have "fst p1 \<noteq> fst p2"
    using dist_s unfolding s2 by simp
  moreover have "fst p1 \<in> set five_colors" "fst p2 \<in> set five_colors"
    using set_s unfolding s2 by auto
  moreover have "symbols_of d (fst p2) \<le> symbols_of d (fst p1)"
    using le12 val [of p1] val [of p2] unfolding s2 by (simp add: f_snd)
  moreover have "symbols_of d c \<le> symbols_of d (fst p2)"
    if "c \<in> set five_colors" "c \<noteq> fst p1" "c \<noteq> fst p2" for c
  proof -
    from that(1) set_s have "c \<in> fst ` set s" by simp
    then obtain p where p: "p \<in> set s" "c = fst p" by auto
    with that(2,3) have "p \<in> set rest" unfolding s2 by auto
    with le2 have "f p2 \<le> f p" by blast
    then show ?thesis
      using val [of p] val [of p2] p unfolding s2 by (simp add: f_snd)
  qed
  ultimately show ?thesis
    using auto_eq by blast
qed

lemma listed_code_not_auto:
  "archetype \<in> set two_color_codes \<union> set three_color_codes \<Longrightarrow> archetype \<noteq> ''auto''"
  by (auto simp: two_color_codes_def three_color_codes_def)

lemma mono_code_not_listed:
  "''MONO_'' @ rest \<notin> set two_color_codes \<union> set three_color_codes"
  "''MONO_'' @ rest \<noteq> ''auto''"
  by (auto simp: two_color_codes_def three_color_codes_def)

text \<open>
  C6, as stated, fails: only the codes listed in the source's two membership tests are
  taken literally. \<^verbatim>\<open>"UW"\<close> is a two-letter code over the colour letters that is not
  listed; on a pool holding one red card it resolves to red and white.
\<close>

theorem primary_colors_unlisted_code_counterexample:
  "count_colors [goblin] color_counts_init = Inr goblin_counts
   \<and> primary_colors ''UW'' goblin_counts = [''R'', ''W'']
   \<and> primary_colors ''UW'' goblin_counts \<noteq> [''U'', ''W'']"
  by code_simp

text \<open>
  C6, amended. The ten listed two-letter codes and the ten listed three-letter codes
  resolve to their letters in order; a code \<^verbatim>\<open>"MONO_..."\<close> resolves to its last character
  alone; \<^verbatim>\<open>"5C"\<close> resolves to the five colours; every other code resolves as
  \<^verbatim>\<open>"auto"\<close> does, and \<^verbatim>\<open>"auto"\<close> yields two distinct colours that hold the two highest
  counts of the pool.
\<close>

theorem primary_colors_resolution:
  "(archetype \<in> set two_color_codes \<union> set three_color_codes \<longrightarrow>
      primary_colors archetype d = map (\<lambda>ch. [ch]) archetype)
   \<and> primary_colors (''MONO_'' @ rest @ [x]) d = [[x]]
   \<and> primary_colors ''5C'' d = [''W'', ''U'', ''B'', ''R'', ''G'']
   \<and> (archetype \<notin> set two_color_codes \<union> set three_color_codes \<longrightarrow>
      \<not> startswith archetype ''MONO_'' \<longrightarrow> archetype \<noteq> ''5C'' \<longrightarrow>
      primary_colors archetype d = primary_colors ''auto'' d)
   \<and> (\<forall>sealed_pool. count_colors sealed_pool color_counts_init = Inr d \<longrightarrow>
        (\<exists>c1 c2. primary_colors ''auto'' d = [c1, c2] \<and> c1 \<noteq> c2
           \<and> c1 \<in> set five_colors \<and> c2 \<in> set five_colors
           \<and> symbols_of d c2 \<le> symbols_of d c1
           \<and> (\<forall>c \<in> set five_colors. c \<noteq> c1 \<longrightarrow> c \<noteq> c2 \<longrightarrow>
                 symbols_of d c \<le> symbols_of d c2)))"
proof (intro conjI allI impI)
  assume "archetype \<in> set two_color_codes \<union> set three_color_codes"
  then show "primary_colors archetype d = map (\<lambda>ch. [ch]) archetype"
    using listed_code_not_auto [of archetype] by (auto simp: primary_colors_def)
next
  show "primary_colors (''MONO_'' @ rest @ [x]) d = [[x]]"
    using mono_code_not_listed [of "rest @ [x]"]
    by (simp add: primary_colors_def startswith_def)
next
  show "primary_colors ''5C'' d = [''W'', ''U'', ''B'', ''R'', ''G'']"
    by (simp add: primary_colors_def startswith_def two_color_codes_def
        three_color_codes_def)
next
  assume "archetype \<notin> set two_color_codes \<union> set three_color_codes"
    "\<not> startswith archetype ''MONO_''" "archetype \<noteq> ''5C''"
  then show "primary_colors archetype d = primary_colors ''auto'' d"
    by (simp add: primary_colors_def)
next
  fix sealed_pool
  assume "count_colors sealed_pool color_counts_init = Inr d"
  then have "map fst d = five_colors @ [''colorless'', ''multicolor'']"
    by (rule color_keys)
  from auto_colors_ranked [OF this]
  show "\<exists>c1 c2. primary_colors ''auto'' d = [c1, c2] \<and> c1 \<noteq> c2
           \<and> c1 \<in> set five_colors \<and> c2 \<in> set five_colors
           \<and> symbols_of d c2 \<le> symbols_of d c1
           \<and> (\<forall>c \<in> set five_colors. c \<noteq> c1 \<longrightarrow> c \<noteq> c2 \<longrightarrow>
                 symbols_of d c \<le> symbols_of d c2)"
    by (simp add: primary_colors_def)
qed

theorem primary_colors_resolution_witness:
  "''WBG'' \<in> set two_color_codes \<union> set three_color_codes
   \<and> primary_colors ''WBG'' goblin_counts = [''W'', ''B'', ''G'']
   \<and> ''UW'' \<notin> set two_color_codes \<union> set three_color_codes
   \<and> \<not> startswith ''UW'' ''MONO_'' \<and> ''UW'' \<noteq> ''5C''
   \<and> primary_colors ''UW'' goblin_counts = primary_colors ''auto'' goblin_counts
   \<and> count_colors [goblin] color_counts_init = Inr goblin_counts
   \<and> primary_colors ''auto'' goblin_counts = [''R'', ''W'']
   \<and> (\<exists>c1 c2. primary_colors ''auto'' goblin_counts = [c1, c2] \<and> c1 \<noteq> c2
           \<and> c1 \<in> set five_colors \<and> c2 \<in> set five_colors
           \<and> symbols_of goblin_counts c2 \<le> symbols_of goblin_counts c1
           \<and> (\<forall>c \<in> set five_colors. c \<noteq> c1 \<longrightarrow> c \<noteq> c2 \<longrightarrow>
                 symbols_of goblin_counts c \<le> symbols_of goblin_counts c2))"
proof -
  have h1: "''WBG'' \<in> set two_color_codes \<union> set three_color_codes"
    by (simp add: three_color_codes_def)
  have h2: "''UW'' \<notin> set two_color_codes \<union> set three_color_codes"
    by (simp add: two_color_codes_def three_color_codes_def)
  have h3: "\<not> startswith ''UW'' ''MONO_''" "''UW'' \<noteq> ''5C''"
    by (simp_all add: startswith_def)
  have h4: "count_colors [goblin] color_counts_init = Inr goblin_counts"
    by code_simp
  have h5: "primary_colors ''auto'' goblin_counts = [''R'', ''W'']"
    by code_simp
  note a = primary_colors_resolution [of "''WBG''" goblin_counts "[]" "CHR ''R''"]
  note b = primary_colors_resolution [of "''UW''" goblin_counts "[]" "CHR ''R''"]
  from a h1 have "primary_colors ''WBG'' goblin_counts = map (\<lambda>ch. [ch]) ''WBG''"
    by blast
  then have "primary_colors ''WBG'' goblin_counts = [''W'', ''B'', ''G'']"
    by simp
  moreover from b h2 h3
  have "primary_colors ''UW'' goblin_counts = primary_colors ''auto'' goblin_counts"
    by blast
  moreover from b h4
  have "\<exists>c1 c2. primary_colors ''auto'' goblin_counts = [c1, c2] \<and> c1 \<noteq> c2
           \<and> c1 \<in> set five_colors \<and> c2 \<in> set five_colors
           \<and> symbols_of goblin_counts c2 \<le> symbols_of goblin_counts c1
           \<and> (\<forall>c \<in> set five_colors. c \<noteq> c1 \<longrightarrow> c \<noteq> c2 \<longrightarrow>
                 symbols_of goblin_counts c \<le> symbols_of goblin_counts c2)"
    by blast
  ultimately show ?thesis
    using h1 h2 h3 h4 h5 by blast
qed







lemma score_entry_fields [simp]:
  "type_line (score_entry archetype primary c) = type_line c"
  "colors (score_entry archetype primary c) = colors c"
  "mana_cost (score_entry archetype primary c) = mana_cost c"
  "name (score_entry archetype primary c) = name c"
  "cmc (score_entry archetype primary c) = cmc c"
  "rarity (score_entry archetype primary c) = rarity c"
  by (simp_all add: score_entry_def card.defs)



lemma add_count_value:
  assumes "add_count k n d = Inr d'"
  shows "symbols_of d' j = symbols_of d j + (if j = k then n else 0)"
proof -
  obtain v where v: "map_of d k = Some v" and d': "d' = AList.update k (v + n) d"
    using assms by (auto simp: add_count_def split: option.splits)
  show ?thesis
    unfolding d' symbols_of_def using v by (simp add: update_conv')
qed

lemma count_card_symbols_value:
  assumes "count_card_symbols cost primary d = Inr d'" "distinct primary"
  shows "symbols_of d' j = symbols_of d j + (if j \<in> set primary then str_count cost j else 0)"
  using assms
proof (induction primary arbitrary: d)
  case Nil
  then show ?case by simp
next
  case (Cons k ks)
  then obtain d1 where a: "add_count k (str_count cost k) d = Inr d1"
    and b: "count_card_symbols cost ks d1 = Inr d'"
    by (auto split: sum.splits)
  have "distinct ks" "k \<notin> set ks" using Cons.prems(2) by simp_all
  from Cons.IH [OF b this(1)] add_count_value [OF a, of j] this(2)
  show ?case by auto
qed

lemma count_symbols_value:
  assumes "count_symbols sel primary d = Inr d'" "distinct primary"
  shows "symbols_of d' j
           = symbols_of d j + (if j \<in> set primary then symbol_count sel j else 0)"
  using assms
proof (induction sel arbitrary: d)
  case Nil
  then show ?case by (simp add: symbol_count_def)
next
  case (Cons c cs)
  then obtain d1 where a: "count_card_symbols (mana_cost c) primary d = Inr d1"
    and b: "count_symbols cs primary d1 = Inr d'"
    by (auto split: sum.splits)
  from Cons.IH [OF b Cons.prems(2)] count_card_symbols_value [OF a Cons.prems(2), of j]
  show ?case by (simp add: symbol_count_def)
qed

lemma mana_symbols_value:
  assumes "count_symbols sel primary mana_symbols_init = Inr ms" "distinct primary"
    "j \<in> set primary"
  shows "symbols_of ms j = symbol_count sel j"
proof -
  have "symbols_of mana_symbols_init j = 0"
    by (simp add: symbols_of_def mana_symbols_init_def)
  with count_symbols_value [OF assms(1,2), of j] assms(3) show ?thesis by simp
qed

lemma add_lands_result:
  assumes "add_lands n d primary lands = Inr lands'" "max_by (symbols_of d) primary = Inr m"
  shows "lands' = lands @ replicate (n - length lands) (land m)"
  using assms
proof (induction n d primary lands rule: add_lands.induct)
  case (1 n d primary lands)
  show ?case
  proof (cases "length lands < n")
    case True
    with "1.prems" have r: "add_lands n d primary (lands @ [land m]) = Inr lands'"
      by (subst (asm) add_lands.simps) simp
    from "1.IH" [OF True "1.prems"(2) r "1.prems"(2)]
    have "lands' = (lands @ [land m]) @ replicate (n - length (lands @ [land m])) (land m)" .
    also have "\<dots> = lands @ replicate (Suc (n - Suc (length lands))) (land m)"
      by simp
    also have "Suc (n - Suc (length lands)) = n - length lands"
      using True by simp
    finally show ?thesis .
  next
    case False
    with "1.prems" show ?thesis by (subst (asm) add_lands.simps) simp
  qed
qed

lemma round_floor_bounds:
  fixes x :: rat
  shows "\<lfloor>x\<rfloor> \<le> round x" "round x \<le> \<lfloor>x\<rfloor> + 1"
proof -
  show "\<lfloor>x\<rfloor> \<le> round x"
    unfolding round_def by (rule floor_mono) simp
  have "\<lfloor>x + 1 / 2\<rfloor> \<le> \<lfloor>x + 1\<rfloor>"
    by (rule floor_mono) simp
  then show "round x \<le> \<lfloor>x\<rfloor> + 1"
    unfolding round_def by simp
qed

lemma two_shares:
  fixes a b n :: nat
  assumes "0 < a + b"
  shows "nat \<lfloor>of_nat n * (of_nat a / of_nat (a + b) :: rat)\<rfloor>
       + nat \<lfloor>of_nat n * (of_nat b / of_nat (a + b) :: rat)\<rfloor> + 1 \<ge> n"
proof -
  let ?x = "of_nat n * (of_nat a / of_nat (a + b) :: rat)"
  let ?y = "of_nat n * (of_nat b / of_nat (a + b) :: rat)"
  have x0: "0 \<le> ?x" and y0: "0 \<le> ?y" by simp_all
  have "?x + ?y = of_nat n * (of_nat a / of_nat (a + b) + of_nat b / of_nat (a + b))"
    by (simp only: distrib_left)
  also have "of_nat a / of_nat (a + b) + of_nat b / of_nat (a + b)
      = (of_nat (a + b) / of_nat (a + b) :: rat)"
    by (simp only: add_divide_distrib of_nat_add)
  also have "\<dots> = 1"
  proof -
    have "(of_nat (a + b) :: rat) \<noteq> 0"
      using assms by (simp only: of_nat_eq_0_iff)
    then show ?thesis by (rule divide_self)
  qed
  finally have s: "?x + ?y = of_nat n" by simp
  have "?x < of_int \<lfloor>?x\<rfloor> + 1" "?y < of_int \<lfloor>?y\<rfloor> + 1"
    by linarith+
  then have "of_nat n < (of_int (\<lfloor>?x\<rfloor> + \<lfloor>?y\<rfloor> + 2) :: rat)"
    using s by simp
  then have "int n < \<lfloor>?x\<rfloor> + \<lfloor>?y\<rfloor> + 2"
    by (metis of_int_less_iff of_int_of_nat_eq)
  moreover have "0 \<le> \<lfloor>?x\<rfloor>" "0 \<le> \<lfloor>?y\<rfloor>"
    using x0 y0 by simp_all
  ultimately show ?thesis by linarith
qed

lemma land_inject:
  assumes "c1 \<in> set five_colors" "c2 \<in> set five_colors" "c1 \<noteq> c2"
  shows "land c1 \<noteq> land c2"
  using assms by (auto simp: five_colors_def land_def basic_land_name_def)

lemma count_replicate:
  "length (filter (\<lambda>e. e = x) (replicate n y)) = (if y = x then n else 0)"
  by simp

lemma two_color_lands:
  assumes mb: "mana_base sel [c1, c2] = Some (Inr lands)"
    and c: "c1 \<in> set five_colors" "c2 \<in> set five_colors" "c1 \<noteq> c2"
    and pos: "0 < symbol_count sel c1 + symbol_count sel c2"
  shows "length (filter (\<lambda>e. e = land c1) lands)
           \<in> {nat \<lfloor>of_nat (40 - length sel)
                    * (of_nat (symbol_count sel c1)
                       / of_nat (symbol_count sel c1 + symbol_count sel c2) :: rat)\<rfloor>,
               nat \<lfloor>of_nat (40 - length sel)
                    * (of_nat (symbol_count sel c1)
                       / of_nat (symbol_count sel c1 + symbol_count sel c2) :: rat)\<rfloor> + 1}"
proof -
  let ?n = "40 - length sel"
  let ?a = "symbol_count sel c1"
  let ?b = "symbol_count sel c2"
  from mb obtain ms t lands0 where
    ms: "count_symbols sel [c1, c2] mana_symbols_init = Inr ms" and
    t: "sum_symbols ms [c1, c2] = Inr t" and
    l0: "distribute_lands [c1, c2] ms t ?n = Inr lands0" and
    l1: "add_lands ?n ms [c1, c2] lands0 = Inr lands"
    by (rule mana_base_returns)
  have d: "distinct [c1, c2]" using c(3) by simp
  have a: "symbols_of ms c1 = ?a" and b: "symbols_of ms c2 = ?b"
    using mana_symbols_value [OF ms d] by simp_all
  have t_eq: "t = ?a + ?b"
    using sum_symbols_eq [OF t] a b by simp
  define k1 where "k1 = nat \<lfloor>of_nat ?n * (of_nat ?a / of_nat (?a + ?b) :: rat)\<rfloor>"
  define k2 where "k2 = nat \<lfloor>of_nat ?n * (of_nat ?b / of_nat (?a + ?b) :: rat)\<rfloor>"
  have "t \<noteq> 0" using pos t_eq by simp
  then have "lands0 = concat (map (\<lambda>color. replicate
      (nat \<lfloor>of_nat ?n * (of_nat (symbols_of ms color) / of_nat t :: rat)\<rfloor>) (land color))
      [c1, c2])"
    using l0 by (simp add: distribute_lands_def Let_def)
  then have lands0: "lands0 = replicate k1 (land c1) @ replicate k2 (land c2)"
    by (simp add: a b t_eq k1_def k2_def)
  define m where "m = (if ?b > ?a then c2 else c1)"
  have "max_by (symbols_of ms) [c1, c2] = Inr m"
    by (simp add: m_def a b)
  from add_lands_result [OF l1 this]
  have lands: "lands = lands0 @ replicate (?n - length lands0) (land m)" .
  have len0: "length lands0 = k1 + k2" by (simp add: lands0)
  have "?n \<le> k1 + k2 + 1"
    unfolding k1_def k2_def using two_shares [OF pos] by simp
  then have extra: "?n - (k1 + k2) \<le> 1" by simp
  have ne: "land c2 \<noteq> land c1"
    using land_inject [OF c] by simp
  have "length (filter (\<lambda>e. e = land c1) lands)
          = k1 + (if m = c1 then ?n - (k1 + k2) else 0)"
    unfolding lands len0 lands0 using ne c(3)
    by (simp add: m_def)
  with extra have "length (filter (\<lambda>e. e = land c1) lands) = k1
      \<or> length (filter (\<lambda>e. e = land c1) lands) = k1 + 1"
    by (cases "m = c1") auto
  then show ?thesis
    unfolding k1_def by blast
qed

lemma select_cards_short:
  assumes "length p \<le> 23"
  shows "select_cards m p = p"
  using assms by (simp add: select_cards_def Let_def)

lemma symbol_count_sort: "symbol_count (sort_key f xs) color = symbol_count xs color"
proof -
  have "mset (map (\<lambda>c. str_count (mana_cost c) color) (sort_key f xs))
          = mset (map (\<lambda>c. str_count (mana_cost c) color) xs)"
    by simp
  then show ?thesis
    unfolding symbol_count_def by (metis sum_mset_sum_list)
qed

lemma two_color_primary:
  assumes "archetype \<in> set two_color_codes"
  obtains c1 c2 where "primary_colors archetype cc = [c1, c2]"
    "c1 \<in> set five_colors" "c2 \<in> set five_colors" "c1 \<noteq> c2"
proof -
  have "\<exists>c1 c2. primary_colors archetype cc = [c1, c2]
          \<and> c1 \<in> set five_colors \<and> c2 \<in> set five_colors \<and> c1 \<noteq> c2"
    using assms unfolding two_color_codes_def
    by (auto simp: primary_colors_def two_color_codes_def five_colors_def)
  then show ?thesis using that by blast
qed

text \<open>
  C5. For a two-colour archetype and a build that selects exactly 23 cards whose mana
  costs show \<open>a\<close> symbols of the first primary colour and \<open>b\<close> of the second, with
  \<open>a + b > 0\<close>, the lands of the first colour in the deck differ from
  \<open>round (17 a / (a + b))\<close> by at most one. The count is the floor of \<open>17 a / (a + b)\<close>
  or one more, so the bound holds for every way of rounding a half.
\<close>

theorem two_color_land_split:
  assumes "archetype \<in> set two_color_codes"
    and "build_deck sealed_pool archetype = Some (Inr deck)"
    and "count_colors sealed_pool color_counts_init = Inr cc"
    and "selected = selection sealed_pool archetype cc"
    and "length selected = 23"
    and "a = symbol_count selected (primary_colors archetype cc ! 0)"
    and "b = symbol_count selected (primary_colors archetype cc ! 1)"
    and "0 < a + b"
  shows "\<bar>int (length (filter (\<lambda>e. e = land (primary_colors archetype cc ! 0)) deck))
           - round (17 * of_nat a / of_nat (a + b) :: rat)\<bar> \<le> 1"
proof -
  from assms(1) obtain c1 c2 where p: "primary_colors archetype cc = [c1, c2]"
    and c: "c1 \<in> set five_colors" "c2 \<in> set five_colors" "c1 \<noteq> c2"
    by (rule two_color_primary)
  from assms(2) obtain cc' lands where
    cc': "count_colors sealed_pool color_counts_init = Inr cc'" and
    mb: "mana_base (selection sealed_pool archetype cc') (primary_colors archetype cc')
       = Some (Inr lands)" and
    deck: "deck = map Spell (selection sealed_pool archetype cc') @ lands"
    by (rule build_deck_returns)
  have eq: "cc' = cc" using cc' assms(3) by simp
  have mb': "mana_base selected [c1, c2] = Some (Inr lands)"
    using mb unfolding eq p assms(4) .
  have a: "a = symbol_count selected c1" and b: "b = symbol_count selected c2"
    using assms(6,7) by (simp_all add: p)
  let ?x = "of_nat 17 * (of_nat a / of_nat (a + b) :: rat)"
  have pos: "0 < symbol_count selected c1 + symbol_count selected c2"
    using assms(8) a b by simp
  have n: "40 - length selected = 17"
    using assms(5) by simp
  have cnt: "length (filter (\<lambda>e. e = land c1) lands) \<in> {nat \<lfloor>?x\<rfloor>, nat \<lfloor>?x\<rfloor> + 1}"
    using two_color_lands [OF mb' c pos] unfolding n a b .
  have "filter (\<lambda>e. e = land c1) (map Spell selected) = []"
    by (induction selected) (simp_all add: land_def)
  then have deck_cnt: "length (filter (\<lambda>e. e = land c1) deck)
      = length (filter (\<lambda>e. e = land c1) lands)"
    unfolding deck eq assms(4) [symmetric] by simp
  have "0 \<le> ?x" by simp
  then have fl: "int (nat \<lfloor>?x\<rfloor>) = \<lfloor>?x\<rfloor>" by simp
  have r: "\<lfloor>?x\<rfloor> \<le> round ?x" "round ?x \<le> \<lfloor>?x\<rfloor> + 1"
    by (rule round_floor_bounds)+
  have x: "?x = 17 * of_nat a / of_nat (a + b)" by simp
  have "\<bar>int (length (filter (\<lambda>e. e = land c1) deck)) - round ?x\<bar> \<le> 1"
    using cnt fl r unfolding deck_cnt by auto
  then show ?thesis
    unfolding p x by simp
qed

theorem two_color_land_split_witness:
  "''RW'' \<in> set two_color_codes
   \<and> count_colors split_pool color_counts_init = Inr split_counts
   \<and> primary_colors ''RW'' split_counts = [''R'', ''W'']
   \<and> length (selection split_pool ''RW'' split_counts) = 23
   \<and> symbol_count (selection split_pool ''RW'' split_counts) ''R'' = 23
   \<and> symbol_count (selection split_pool ''RW'' split_counts) ''W'' = 11
   \<and> (\<exists>deck. build_deck split_pool ''RW'' = Some (Inr deck)
         \<and> \<bar>int (length (filter (\<lambda>e. e = land ''R'') deck))
              - round (17 * of_nat 23 / of_nat (23 + 11) :: rat)\<bar> \<le> 1)"
proof -
  let ?sel = "selection split_pool ''RW'' split_counts"
  let ?g = "score_entry ''RW'' [''R'', ''W''] goblin"
  let ?c = "score_entry ''RW'' [''R'', ''W''] charm"
  have h1: "''RW'' \<in> set two_color_codes"
    by (simp add: two_color_codes_def)
  have h3: "count_colors split_pool color_counts_init = Inr split_counts"
    by code_simp
  have p: "primary_colors ''RW'' split_counts = [''R'', ''W'']"
    by (simp add: primary_colors_def two_color_codes_def)
  have pl: "playable [''R'', ''W''] ?g" "playable [''R'', ''W''] ?c"
    by (simp_all add: playable_def goblin_def charm_def)
  have pc: "playable_cards [''R'', ''W''] (map (score_entry ''RW'' [''R'', ''W'']) split_pool)
      = sort_key (\<lambda>c. - score c) (replicate 12 ?g @ replicate 11 ?c)"
    unfolding playable_cards_def split_pool_def using pl by simp
  have sel: "?sel = sort_key (\<lambda>c. - score c) (replicate 12 ?g @ replicate 11 ?c)"
    unfolding selection_def Let_def p pc by (rule select_cards_short) simp
  have len: "length ?sel = 23"
    unfolding sel by simp
  have sg: "str_count (mana_cost goblin) ''R'' = 1" "str_count (mana_cost goblin) ''W'' = 0"
    "str_count (mana_cost charm) ''R'' = 1" "str_count (mana_cost charm) ''W'' = 1"
    by code_simp+
  have a: "symbol_count ?sel ''R'' = 23"
    unfolding sel symbol_count_sort by (simp add: symbol_count_def sg sum_list_replicate)
  have b: "symbol_count ?sel ''W'' = 11"
    unfolding sel symbol_count_sort by (simp add: symbol_count_def sg sum_list_replicate)
  have "set (primary_colors ''RW'' split_counts) \<subseteq> set five_colors"
    unfolding p by (simp add: five_colors_def)
  from build_deck_succeeds [OF h3 this] obtain deck where
    h2: "build_deck split_pool ''RW'' = Some (Inr deck)"
    by blast
  have "\<bar>int (length (filter (\<lambda>e. e = land (primary_colors ''RW'' split_counts ! 0)) deck))
           - round (17 * of_nat 23 / of_nat (23 + 11) :: rat)\<bar> \<le> 1"
    by (rule two_color_land_split [OF h1 h2 h3 refl len]) (simp_all add: a b p)
  then have "\<bar>int (length (filter (\<lambda>e. e = land ''R'') deck))
              - round (17 * of_nat 23 / of_nat (23 + 11) :: rat)\<bar> \<le> 1"
    by (simp add: p)
  with h1 h2 h3 p len a b show ?thesis by blast
qed

lemma sample_from_props:
  assumes "k \<le> length population"
  shows "length (fst (sample_from population k g)) = k
       \<and> mset (fst (sample_from population k g)) \<subseteq># mset population
       \<and> snd (sample_from population k g) = (\<lambda>i. g (i + k))"
  using assms
proof (induction k arbitrary: population g)
  case 0
  show ?case by simp
next
  case (Suc k)
  define i where "i = g 0 mod length population"
  define rest where "rest = take i population @ drop (Suc i) population"
  define g' where "g' = (\<lambda>j. g (Suc j))"
  have ne: "0 < length population" using Suc.prems by (cases population) simp_all
  then have i: "i < length population" by (simp add: i_def)
  have len: "k \<le> length rest"
    using Suc.prems i by (simp add: rest_def)
  note ih = Suc.IH [OF len, of g']
  have split: "mset population = add_mset (population ! i) (mset rest)"
    unfolding rest_def using id_take_nth_drop [OF i]
    by (metis add_mset_add_single mset.simps(2) mset_append union_mset_add_mset_right
        append_Cons append_Nil union_commute)
  have eq: "sample_from population (Suc k) g
      = (population ! i # fst (sample_from rest k g'), snd (sample_from rest k g'))"
    by (simp add: draw_def i_def rest_def g'_def Let_def split: prod.splits)
  show ?case
    unfolding eq using ih split by (simp add: g'_def)
qed

lemma random_sample_ok:
  assumes "k \<le> length population"
  obtains xs where "random_sample population k g = Inr (xs, \<lambda>i. g (i + k))"
    "length xs = k" "mset xs \<subseteq># mset population"
proof -
  have "random_sample population k g
      = Inr (fst (sample_from population k g), snd (sample_from population k g))"
    using assms by (simp add: random_sample_def)
  with sample_from_props [OF assms, of g] that show ?thesis by metis
qed

lemma random_sample_fails:
  "length population < k \<Longrightarrow> random_sample population k g = Inl ValueError"
  by (simp add: random_sample_def)

lemma booster_unfold:
  "booster cards_in_set g =
     (case random_sample (commons_of cards_in_set) 10 g of
        Inl e \<Rightarrow> Inl e
      | Inr (cs, g1) \<Rightarrow>
         (case random_sample (uncommons_of cards_in_set) 3 g1 of
            Inl e \<Rightarrow> Inl e
          | Inr (us, g2) \<Rightarrow>
             (case random_sample (rares_of cards_in_set) 1 g2 of
                Inl e \<Rightarrow> Inl e
              | Inr (rs, g3) \<Rightarrow>
                 (case random_choice cards_in_set g3 of
                    Inl e \<Rightarrow> Inl e
                  | Inr (l, g4) \<Rightarrow> Inr (cs @ us @ rs @ [l], g4)))))"
  unfolding booster_def Let_def commons_of_def uncommons_of_def rares_of_def ..

lemma booster_ok:
  assumes "enough_cards cards_in_set"
  obtains pack where "booster cards_in_set g = Inr (pack, \<lambda>i. g (i + 15))"
    "is_booster cards_in_set pack"
    "pack ! 14 = cards_in_set ! (g 14 mod length cards_in_set)"
proof -
  from assms have ne: "cards_in_set \<noteq> []"
    and c: "10 \<le> length (commons_of cards_in_set)"
    and u: "3 \<le> length (uncommons_of cards_in_set)"
    and r: "1 \<le> length (rares_of cards_in_set)"
    by (simp_all add: enough_cards_def)
  define g1 where "g1 = (\<lambda>i. g (i + 10))"
  define g2 where "g2 = (\<lambda>i. g1 (i + 3))"
  define g3 where "g3 = (\<lambda>i. g2 (i + 1))"
  from c obtain cs where cs: "random_sample (commons_of cards_in_set) 10 g = Inr (cs, g1)"
    "length cs = 10" "mset cs \<subseteq># mset (commons_of cards_in_set)"
    unfolding g1_def by (rule random_sample_ok)
  from u obtain us where us: "random_sample (uncommons_of cards_in_set) 3 g1 = Inr (us, g2)"
    "length us = 3" "mset us \<subseteq># mset (uncommons_of cards_in_set)"
    unfolding g2_def by (rule random_sample_ok)
  from r obtain rs where rs: "random_sample (rares_of cards_in_set) 1 g2 = Inr (rs, g3)"
    "length rs = 1" "mset rs \<subseteq># mset (rares_of cards_in_set)"
    unfolding g3_def by (rule random_sample_ok)
  define l where "l = cards_in_set ! (g 14 mod length cards_in_set)"
  have g3: "g3 0 = g 14" "(\<lambda>i. g3 (Suc i)) = (\<lambda>i. g (i + 15))"
    by (simp_all add: g3_def g2_def g1_def add.commute)
  have ch: "random_choice cards_in_set g3 = Inr (l, \<lambda>i. g (i + 15))"
    using ne by (simp add: random_choice_def draw_def l_def g3)
  define pack where "pack = cs @ us @ rs @ [l]"
  have b: "booster cards_in_set g = Inr (pack, \<lambda>i. g (i + 15))"
    by (simp add: booster_unfold cs(1) us(1) rs(1) ch pack_def del: One_nat_def)
  obtain x where x: "rs = [x]"
    using rs(2) by (cases rs) auto
  have "x \<in> set (rares_of cards_in_set)"
    using rs(3) unfolding x by (simp add: insert_subset_eq_iff)
  moreover have "l \<in> set cards_in_set"
    unfolding l_def using ne by simp
  ultimately have "is_booster cards_in_set pack"
    unfolding is_booster_def pack_def using cs(2,3) us(2,3) x
    by (simp add: nth_append)
  moreover have "pack ! 14 = cards_in_set ! (g 14 mod length cards_in_set)"
    unfolding pack_def using cs(2) us(2) x by (simp add: nth_append l_def)
  ultimately show ?thesis using b that by blast
qed

lemma booster_fails:
  assumes "cards_in_set \<noteq> []" "\<not> enough_cards cards_in_set"
  shows "booster cards_in_set g = Inl ValueError"
proof (cases "length (commons_of cards_in_set) < 10")
  case True
  then show ?thesis
    unfolding booster_unfold by (simp add: random_sample_fails)
next
  case c: False
  then obtain cs g1 where cs: "random_sample (commons_of cards_in_set) 10 g = Inr (cs, g1)"
    by (cases "sample_from (commons_of cards_in_set) 10 g") (simp add: random_sample_def)
  show ?thesis
  proof (cases "length (uncommons_of cards_in_set) < 3")
    case True
    then show ?thesis
      by (simp add: booster_unfold cs random_sample_fails)
  next
    case u: False
    then obtain us g2 where us: "random_sample (uncommons_of cards_in_set) 3 g1 = Inr (us, g2)"
      by (cases "sample_from (uncommons_of cards_in_set) 3 g1") (simp add: random_sample_def)
    have "\<not> 1 \<le> length (rares_of cards_in_set)"
      using assms c u by (simp add: enough_cards_def)
    then have "length (rares_of cards_in_set) < 1"
      by linarith
    then have "random_sample (rares_of cards_in_set) 1 g2 = Inl ValueError"
      by (rule random_sample_fails)
    then show ?thesis
      by (simp add: booster_unfold cs us del: One_nat_def)
  qed
qed

lemma boosters_ok:
  assumes "enough_cards cards_in_set"
  shows "\<exists>pool. boosters n cards_in_set sealed_pool g = Inr (pool, \<lambda>j. g (j + 15 * n))
           \<and> length pool = length sealed_pool + 15 * n
           \<and> take (length sealed_pool) pool = sealed_pool
           \<and> (\<forall>i<n. is_booster cards_in_set
                        (take 15 (drop (length sealed_pool + 15 * i) pool))
                   \<and> pool ! (length sealed_pool + 15 * i + 14)
                       = cards_in_set ! (g (15 * i + 14) mod length cards_in_set))"
proof (induction n arbitrary: sealed_pool g)
  case 0
  show ?case by simp
next
  case (Suc n)
  from assms obtain pack where pack: "booster cards_in_set g = Inr (pack, \<lambda>i. g (i + 15))"
    and bo: "is_booster cards_in_set pack"
    and slot: "pack ! 14 = cards_in_set ! (g 14 mod length cards_in_set)"
    by (rule booster_ok)
  have len: "length pack = 15" using bo by (simp add: is_booster_def)
  let ?sp = "sealed_pool @ pack" and ?g = "\<lambda>i. g (i + 15)"
  from Suc.IH [of ?sp ?g] obtain pool where
    run: "boosters n cards_in_set ?sp ?g = Inr (pool, \<lambda>j. ?g (j + 15 * n))"
    and plen: "length pool = length ?sp + 15 * n"
    and pre: "take (length ?sp) pool = ?sp"
    and rest: "\<forall>i<n. is_booster cards_in_set (take 15 (drop (length ?sp + 15 * i) pool))
                 \<and> pool ! (length ?sp + 15 * i + 14)
                     = cards_in_set ! (?g (15 * i + 14) mod length cards_in_set)"
    by blast
  have a: "boosters (Suc n) cards_in_set sealed_pool g = Inr (pool, \<lambda>j. g (j + 15 * Suc n))"
    using run by (simp add: pack add.commute add.left_commute)
  have b: "length pool = length sealed_pool + 15 * Suc n"
    using plen len by simp
  have pool: "pool = sealed_pool @ pack @ drop (length ?sp) pool"
    using pre by (metis append_take_drop_id append.assoc)
  have c: "take (length sealed_pool) pool = sealed_pool"
    by (subst pool) simp
  have first: "take 15 (drop (length sealed_pool) pool) = pack"
    by (subst pool) (simp add: len)
  have first_slot: "pool ! (length sealed_pool + 14) = pack ! 14"
    by (subst pool) (simp add: nth_append len)
  have d: "is_booster cards_in_set (take 15 (drop (length sealed_pool + 15 * i) pool))
         \<and> pool ! (length sealed_pool + 15 * i + 14)
             = cards_in_set ! (g (15 * i + 14) mod length cards_in_set)"
    if "i < Suc n" for i
  proof (cases i)
    case 0
    then show ?thesis using first first_slot bo slot by simp
  next
    case (Suc k)
    with that have "k < n" by simp
    with rest have r: "is_booster cards_in_set (take 15 (drop (length ?sp + 15 * k) pool))
                 \<and> pool ! (length ?sp + 15 * k + 14)
                     = cards_in_set ! (g (15 * k + 14 + 15) mod length cards_in_set)"
      by blast
    have e1: "length ?sp + 15 * k = length sealed_pool + 15 * i"
      using Suc len by simp
    have e2: "15 * k + 14 + 15 = 15 * i + 14"
      using Suc by simp
    show ?thesis
      using r unfolding e1 e2 .
  qed
  from a b c d show ?case by blast
qed

lemma generate_sealed_pool_ok:
  assumes "enough_cards cards_in_set"
  shows "\<exists>pool. generate_sealed_pool cards_in_set g = Inr (pool, \<lambda>j. g (j + 90))
           \<and> length pool = 90
           \<and> (\<forall>i<6. is_booster cards_in_set (take 15 (drop (15 * i) pool))
                   \<and> pool ! (15 * i + 14)
                       = cards_in_set ! (g (15 * i + 14) mod length cards_in_set))"
proof -
  have ne: "cards_in_set \<noteq> []" using assms by (simp add: enough_cards_def)
  from boosters_ok [OF assms, of 6 "[]" g] ne show ?thesis
    by (simp add: generate_sealed_pool_def)
qed

lemma generate_sealed_pool_fails:
  assumes "\<not> enough_cards cards_in_set"
  shows "generate_sealed_pool cards_in_set g = Inl ValueError"
proof (cases "cards_in_set = []")
  case True
  then show ?thesis by (simp add: generate_sealed_pool_def)
next
  case False
  then have "booster cards_in_set g = Inl ValueError"
    using assms by (rule booster_fails)
  then show ?thesis
    using False by (simp add: generate_sealed_pool_def eval_nat_numeral)
qed

text \<open>
  C7. From a set that is non-empty and holds at least 10 commons, 3 uncommons and one
  rare or mythic, \<^verbatim>\<open>generate_sealed_pool\<close> returns 90 cards: six packs, each of ten
  commons and three uncommons sampled without replacement, one rare or mythic, and one
  card of the whole set, at the position the generator's draw selects there (so every
  card of the set can come up in that slot; how likely each is belongs to the generator,
  not to this function). From any other set it raises \<^verbatim>\<open>ValueError\<close>.
\<close>

theorem generate_sealed_pool_packs:
  "(enough_cards cards_in_set \<longrightarrow>
      (\<exists>pool g'. generate_sealed_pool cards_in_set g = Inr (pool, g')
          \<and> length pool = 90
          \<and> (\<forall>i<6. is_booster cards_in_set (take 15 (drop (15 * i) pool))
                  \<and> pool ! (15 * i + 14)
                      = cards_in_set ! (g (15 * i + 14) mod length cards_in_set))))
   \<and> (\<not> enough_cards cards_in_set \<longrightarrow>
        generate_sealed_pool cards_in_set g = Inl ValueError)"
  using generate_sealed_pool_ok [of cards_in_set g] generate_sealed_pool_fails [of cards_in_set g]
  by blast

theorem generate_sealed_pool_packs_witness:
  "enough_cards small_catalog
   \<and> (\<exists>pool g'. generate_sealed_pool small_catalog (\<lambda>i. 7 * i + 3) = Inr (pool, g')
          \<and> length pool = 90
          \<and> (\<forall>i<6. is_booster small_catalog (take 15 (drop (15 * i) pool))
                  \<and> pool ! (15 * i + 14)
                      = small_catalog ! ((7 * (15 * i + 14) + 3) mod length small_catalog)))
   \<and> \<not> enough_cards [goblin, charm, dragon]
   \<and> generate_sealed_pool [goblin, charm, dragon] (\<lambda>i. 7 * i + 3) = Inl ValueError"
proof -
  have h1: "enough_cards small_catalog"
    by (simp add: enough_cards_def small_catalog_def commons_of_def uncommons_of_def
        rares_of_def goblin_def charm_def dragon_def)
  have h2: "\<not> enough_cards [goblin, charm, dragon]"
    by (simp add: enough_cards_def commons_of_def goblin_def charm_def dragon_def)
  note a = generate_sealed_pool_packs [of small_catalog "\<lambda>i. 7 * i + 3"]
  note b = generate_sealed_pool_packs [of "[goblin, charm, dragon]" "\<lambda>i. 7 * i + 3"]
  from a h1 have "\<exists>pool g'. generate_sealed_pool small_catalog (\<lambda>i. 7 * i + 3) = Inr (pool, g')
          \<and> length pool = 90
          \<and> (\<forall>i<6. is_booster small_catalog (take 15 (drop (15 * i) pool))
                  \<and> pool ! (15 * i + 14)
                      = small_catalog ! ((7 * (15 * i + 14) + 3) mod length small_catalog))"
    by blast
  moreover from b h2
  have "generate_sealed_pool [goblin, charm, dragon] (\<lambda>i. 7 * i + 3) = Inl ValueError"
    by blast
  ultimately show ?thesis using h1 h2 by blast
qed

lemma random_sample_subset:
  assumes "random_sample population k g = Inr (xs, g')"
  shows "set xs \<subseteq> set population"
proof -
  have k: "k \<le> length population" and xs: "xs = fst (sample_from population k g)"
    using assms by (auto simp: random_sample_def split: if_splits)
  have "mset xs \<subseteq># mset population"
    unfolding xs using sample_from_props [OF k] by blast
  then show ?thesis
    by (metis set_mset_mono set_mset_mset)
qed

lemma random_choice_member:
  assumes "random_choice xs g = Inr (x, g')"
  shows "x \<in> set xs"
  using assms by (auto simp: random_choice_def draw_def split: if_splits)

lemma booster_subset:
  assumes "booster cards_in_set g = Inr (pack, g')"
  shows "set pack \<subseteq> set cards_in_set"
proof -
  from assms obtain cs g1 us g2 rs g3 l where
    cs: "random_sample (commons_of cards_in_set) 10 g = Inr (cs, g1)" and
    us: "random_sample (uncommons_of cards_in_set) 3 g1 = Inr (us, g2)" and
    rs: "random_sample (rares_of cards_in_set) 1 g2 = Inr (rs, g3)" and
    l: "random_choice cards_in_set g3 = Inr (l, g')" and
    pack: "pack = cs @ us @ rs @ [l]"
    unfolding booster_unfold by (auto split: sum.splits prod.splits)
  have "set cs \<subseteq> set cards_in_set"
    using random_sample_subset [OF cs] by (auto simp: commons_of_def)
  moreover have "set us \<subseteq> set cards_in_set"
    using random_sample_subset [OF us] by (auto simp: uncommons_of_def)
  moreover have "set rs \<subseteq> set cards_in_set"
    using random_sample_subset [OF rs] by (auto simp: rares_of_def)
  moreover have "l \<in> set cards_in_set"
    using l by (rule random_choice_member)
  ultimately show ?thesis by (simp add: pack)
qed

lemma boosters_subset:
  "boosters n cards_in_set sealed_pool g = Inr (pool, g') \<Longrightarrow>
   set sealed_pool \<subseteq> set cards_in_set \<Longrightarrow> set pool \<subseteq> set cards_in_set"
proof (induction n arbitrary: sealed_pool g)
  case 0
  then show ?case by simp
next
  case (Suc n)
  from Suc.prems(1) obtain pack g1 where
    b: "booster cards_in_set g = Inr (pack, g1)" and
    r: "boosters n cards_in_set (sealed_pool @ pack) g1 = Inr (pool, g')"
    by (auto split: sum.splits prod.splits)
  have "set (sealed_pool @ pack) \<subseteq> set cards_in_set"
    using Suc.prems(2) booster_subset [OF b] by simp
  with r show ?case by (rule Suc.IH)
qed

lemma generate_sealed_pool_subset:
  assumes "generate_sealed_pool cards_in_set g = Inr (pool, g')"
  shows "set pool \<subseteq> set cards_in_set"
proof -
  from assms have "boosters 6 cards_in_set [] g = Inr (pool, g')"
    by (auto simp: generate_sealed_pool_def split: if_splits)
  then show ?thesis by (rule boosters_subset) simp
qed

lemma add_counts_succeeds:
  "set ks \<subseteq> set (map fst d) \<Longrightarrow> \<exists>d'. add_counts ks d = Inr d'"
proof (induction ks arbitrary: d)
  case Nil
  show ?case by simp
next
  case (Cons k ks)
  from Cons.prems have "k \<in> set (map fst d)" by simp
  then obtain d1 where a: "add_count k 1 d = Inr d1" and k: "map fst d1 = map fst d"
    by (rule add_count_succeeds)
  have "set ks \<subseteq> set (map fst d1)" using Cons.prems k by simp
  from Cons.IH [OF this] a show ?case by simp
qed

lemma count_card_succeeds:
  assumes "set (colors c) \<subseteq> set five_colors"
    and "map fst d = five_colors @ [''colorless'', ''multicolor'']"
  shows "\<exists>d'. count_card c d = Inr d'"
proof -
  have keys: "set (colors c) \<subseteq> set (map fst d)"
    using assms by auto
  have cl: "''colorless'' \<in> set (map fst d)" and mc: "''multicolor'' \<in> set (map fst d)"
    unfolding assms(2) by simp_all
  show ?thesis
  proof (cases "length (colors c) = 0")
    case True
    from cl obtain d' where "add_count ''colorless'' 1 d = Inr d'"
      by (rule add_count_succeeds)
    with True show ?thesis by (simp add: count_card_def)
  next
    case False
    show ?thesis
    proof (cases "length (colors c) > 1")
      case True
      from mc obtain d1 where a: "add_count ''multicolor'' 1 d = Inr d1"
        and k: "map fst d1 = map fst d"
        by (rule add_count_succeeds)
      have "set (colors c) \<subseteq> set (map fst d1)" using keys k by simp
      from add_counts_succeeds [OF this] obtain d' where
        "add_counts (colors c) d1 = Inr d'" by blast
      with True False a show ?thesis by (simp add: count_card_def)
    next
      case one: False
      with False have "colors c ! 0 \<in> set (colors c)"
        by (cases "colors c") simp_all
      with keys have "colors c ! 0 \<in> set (map fst d)" by blast
      then obtain d' where "add_count (colors c ! 0) 1 d = Inr d'"
        by (rule add_count_succeeds)
      with one False show ?thesis by (simp add: count_card_def)
    qed
  qed
qed

lemma count_colors_succeeds:
  assumes "\<forall>c \<in> set cs. set (colors c) \<subseteq> set five_colors"
    and "map fst d = five_colors @ [''colorless'', ''multicolor'']"
  shows "\<exists>d'. count_colors cs d = Inr d'"
  using assms
proof (induction cs arbitrary: d)
  case Nil
  show ?case by simp
next
  case (Cons c cs)
  from Cons.prems have "set (colors c) \<subseteq> set five_colors" by simp
  from count_card_succeeds [OF this Cons.prems(2)] obtain d1 where
    a: "count_card c d = Inr d1" by blast
  have "map fst d1 = five_colors @ [''colorless'', ''multicolor'']"
    using count_card_keys [OF a] Cons.prems(2) by simp
  moreover have "\<forall>c \<in> set cs. set (colors c) \<subseteq> set five_colors"
    using Cons.prems(1) by simp
  ultimately have "\<exists>d'. count_colors cs d1 = Inr d'"
    by (rule Cons.IH [rotated])
  with a show ?case by simp
qed

lemma primary_colors_subset:
  assumes "map fst d = five_colors @ [''colorless'', ''multicolor'']"
    and "\<not> startswith archetype ''MONO_''"
  shows "set (primary_colors archetype d) \<subseteq> set five_colors"
proof -
  have two: "archetype \<in> set two_color_codes \<Longrightarrow>
      set (map (\<lambda>ch. [ch]) archetype) \<subseteq> set five_colors"
    by (auto simp: two_color_codes_def five_colors_def)
  have three: "archetype \<in> set three_color_codes \<Longrightarrow>
      set (map (\<lambda>ch. [ch]) archetype) \<subseteq> set five_colors"
    by (auto simp: three_color_codes_def five_colors_def)
  have five: "set [''W'', ''U'', ''B'', ''R'', ''G''] \<subseteq> set five_colors"
    by (simp add: five_colors_def)
  show ?thesis
    unfolding primary_colors_def
    using two three five auto_colors_subset [OF assms(1)] assms(2)
    by (simp del: set_map)
qed

lemma pick_archetype_key:
  "pick_archetype r cumulative weights = Some a \<Longrightarrow> a \<in> fst ` set weights"
proof (induction weights arbitrary: cumulative)
  case Nil
  then show ?case by simp
next
  case (Cons kv weights)
  obtain arch prob where kv: "kv = (arch, prob)" by (cases kv)
  show ?case
  proof (cases "r \<le> cumulative + prob")
    case True
    with Cons.prems kv show ?thesis by simp
  next
    case False
    with Cons.prems kv have "pick_archetype r (cumulative + prob) weights = Some a"
      by simp
    from Cons.IH [OF this] show ?thesis by simp
  qed
qed

lemma pick_archetype_beyond:
  "cumulative + sum_list (map snd weights) < r \<Longrightarrow> \<forall>kv \<in> set weights. 0 \<le> snd kv
     \<Longrightarrow> pick_archetype r cumulative weights = None"
proof (induction weights arbitrary: cumulative)
  case Nil
  show ?case by simp
next
  case (Cons kv weights)
  obtain arch prob where kv: "kv = (arch, prob)" by (cases kv)
  have nn: "0 \<le> sum_list (map snd weights)"
    using Cons.prems(2) by (intro sum_list_nonneg) auto
  have "cumulative + prob < r"
    using Cons.prems(1) nn kv by simp
  moreover have "pick_archetype r (cumulative + prob) weights = None"
    using Cons.prems kv by (intro Cons.IH) (simp_all add: add.assoc)
  ultimately show ?case by (simp add: kv)
qed

lemma current_archetype_choice:
  assumes "current_archetype archetype (Some weights) g = (a, g')"
  shows "a = archetype \<or> a \<in> fst ` set weights"
proof (cases "weights = []")
  case True
  with assms show ?thesis by (simp add: current_archetype_def)
next
  case False
  obtain r g1 where r: "random_random g = (r, g1)" by (cases "random_random g")
  show ?thesis
  proof (cases "pick_archetype r 0 weights")
    case None
    with assms False r show ?thesis by (simp add: current_archetype_def)
  next
    case (Some arch)
    with assms False r have "a = arch" by (simp add: current_archetype_def)
    with pick_archetype_key [OF Some] show ?thesis by simp
  qed
qed

lemma normalize_distribution_keys:
  assumes "normalize_distribution (Some weights) = Inr d"
  obtains weights' where "d = Some weights'" "fst ` set weights' = fst ` set weights"
proof -
  have "\<exists>weights'. d = Some weights' \<and> map fst weights' = map fst weights"
    using assms unfolding normalize_distribution_def Let_def
    by (auto split: if_splits simp: case_prod_unfold comp_def)
  then obtain weights' where "d = Some weights'" "map fst weights' = map fst weights"
    by blast
  then show ?thesis
    using that by (metis set_map)
qed

lemma tag_deck_tagged: "a \<in> codes \<Longrightarrow> tagged_from codes (tag_deck a i deck)"
  by (auto simp: tagged_from_def tag_deck_def)

lemma simulate_runs_tags:
  assumes "simulate_runs n i cards_in_set archetype (Some weights) all_decks g
             = Some (Inr (decks, g'))"
    and "\<forall>deck \<in> set all_decks. tagged_from (insert archetype (fst ` set weights)) deck"
  shows "\<forall>deck \<in> set decks. tagged_from (insert archetype (fst ` set weights)) deck"
  using assms
proof (induction n arbitrary: i all_decks g)
  case 0
  then show ?case by simp
next
  case (Suc n)
  from Suc.prems(1) obtain sealed_pool g1 where
    gp: "generate_sealed_pool cards_in_set g = Inr (sealed_pool, g1)"
    by (auto split: sum.splits)
  obtain arch g2 where ca: "current_archetype archetype (Some weights) g1 = (arch, g2)"
    by (cases "current_archetype archetype (Some weights) g1")
  from Suc.prems(1) gp ca obtain deck where
    bd: "build_deck sealed_pool arch = Some (Inr deck)"
    by (auto split: option.splits sum.splits)
  have run: "simulate_runs n (Suc i) cards_in_set archetype (Some weights)
        (all_decks @ [tag_deck arch i deck]) g2 = Some (Inr (decks, g'))"
    using Suc.prems(1) gp ca bd by simp
  have "arch \<in> insert archetype (fst ` set weights)"
    using current_archetype_choice [OF ca] by auto
  then have "tagged_from (insert archetype (fst ` set weights)) (tag_deck arch i deck)"
    by (rule tag_deck_tagged)
  with Suc.prems(2)
  have "\<forall>d \<in> set (all_decks @ [tag_deck arch i deck]).
          tagged_from (insert archetype (fst ` set weights)) d"
    by simp
  with run show ?case by (rule Suc.IH)
qed

lemma simulate_one_run:
  assumes cat: "enough_cards cards_in_set"
    and cols: "\<forall>c \<in> set cards_in_set. set (colors c) \<subseteq> set five_colors"
    and norm: "normalize_distribution (Some weights) = Inr (Some weights')"
    and mono: "\<not> startswith archetype ''MONO_''"
      "\<forall>a \<in> fst ` set weights'. \<not> startswith a ''MONO_''"
  shows "\<exists>arch deck g'. simulate_drafts cards_in_set 1 archetype (Some weights) g
            = Some (Inr ([tag_deck arch 0 deck], g')) \<and> length deck = 40"
proof -
  from generate_sealed_pool_ok [OF cat, of g] obtain pool where
    gp: "generate_sealed_pool cards_in_set g = Inr (pool, \<lambda>j. g (j + 90))"
    by blast
  obtain arch g2 where ca:
    "current_archetype archetype (Some weights') (\<lambda>j. g (j + 90)) = (arch, g2)"
    by (cases "current_archetype archetype (Some weights') (\<lambda>j. g (j + 90))")
  have "arch = archetype \<or> arch \<in> fst ` set weights'"
    using ca by (rule current_archetype_choice)
  with mono have m: "\<not> startswith arch ''MONO_''" by blast
  have "\<forall>c \<in> set pool. set (colors c) \<subseteq> set five_colors"
    using cols generate_sealed_pool_subset [OF gp] by blast
  moreover have "map fst color_counts_init = five_colors @ [''colorless'', ''multicolor'']"
    by (simp add: color_counts_init_def five_colors_def)
  ultimately obtain cc where cc: "count_colors pool color_counts_init = Inr cc"
    using count_colors_succeeds by blast
  have "set (primary_colors arch cc) \<subseteq> set five_colors"
    using color_keys [OF cc] m by (rule primary_colors_subset)
  from build_deck_succeeds [OF cc this] obtain deck where
    bd: "build_deck pool arch = Some (Inr deck)" by blast
  have "simulate_drafts cards_in_set 1 archetype (Some weights) g
          = Some (Inr ([tag_deck arch 0 deck], g2))"
    by (simp add: simulate_drafts_def norm gp ca bd)
  with build_deck_length [OF bd] show ?thesis by blast
qed

text \<open>
  C10. With an \<^verbatim>\<open>archetype_distribution\<close>, every card of every deck that
  \<^verbatim>\<open>simulate_drafts\<close> returns is tagged with a key of the distribution or with the fixed
  \<^verbatim>\<open>archetype\<close> argument. And there are weights summing to a value in \<open>[0.99, 1)\<close>, which
  the validation leaves as they are, and a draw of \<^verbatim>\<open>random.random()\<close> above their sum,
  for which the run uses the fixed argument although it is not a key.
\<close>

theorem simulate_drafts_archetype_choice:
  "(\<forall>decks g' deck card.
      simulate_drafts cards_in_set num_drafts archetype (Some weights) g
        = Some (Inr (decks, g')) \<longrightarrow>
      deck \<in> set decks \<longrightarrow> card \<in> set deck \<longrightarrow>
      (\<exists>a. tag_archetype card = Some a \<and> (a = archetype \<or> a \<in> fst ` set weights)))
   \<and> (\<exists>ws g0 fixed.
        99 / 100 \<le> sum_list (map snd ws) \<and> sum_list (map snd ws) < 1
        \<and> normalize_distribution (Some ws) = Inr (Some ws)
        \<and> sum_list (map snd ws) < fst (random_random g0)
        \<and> fst (random_random g0) < 1
        \<and> fst (current_archetype fixed (Some ws) g0) = fixed
        \<and> fixed \<notin> fst ` set ws)"
proof (intro conjI allI impI)
  fix decks g' deck card
  assume run: "simulate_drafts cards_in_set num_drafts archetype (Some weights) g
        = Some (Inr (decks, g'))"
    and deck: "deck \<in> set decks" and card: "card \<in> set deck"
  from run obtain d where n: "normalize_distribution (Some weights) = Inr d"
    and r: "simulate_runs num_drafts 0 cards_in_set archetype d [] g = Some (Inr (decks, g'))"
    by (auto simp: simulate_drafts_def split: sum.splits)
  from n obtain weights' where d: "d = Some weights'"
    and keys: "fst ` set weights' = fst ` set weights"
    by (rule normalize_distribution_keys)
  have "\<forall>deck \<in> set decks. tagged_from (insert archetype (fst ` set weights')) deck"
    using r unfolding d by (rule simulate_runs_tags) simp
  with deck card show "\<exists>a. tag_archetype card = Some a
      \<and> (a = archetype \<or> a \<in> fst ` set weights)"
    unfolding keys tagged_from_def by blast
next
  have s: "sum_list (map snd short_weights) = 99 / 100"
    by (simp add: short_weights_def)
  have r: "random_random high_draw = ((2 ^ 53 - 1) / 2 ^ 53, high_draw)"
    by (simp add: random_random_def draw_def high_draw_def)
  have n: "normalize_distribution (Some short_weights) = Inr (Some short_weights)"
    by (simp add: normalize_distribution_def s)
  have lt: "sum_list (map snd short_weights) < fst (random_random high_draw)"
    unfolding s r by simp
  have "pick_archetype (fst (random_random high_draw)) 0 short_weights = None"
    using lt by (intro pick_archetype_beyond) (simp_all add: short_weights_def)
  moreover have "short_weights \<noteq> []"
    by (simp add: short_weights_def)
  ultimately
  have c: "fst (current_archetype ''auto'' (Some short_weights) high_draw) = ''auto''"
    by (simp add: current_archetype_def r)
  have k: "''auto'' \<notin> fst ` set short_weights"
    by (simp add: short_weights_def)
  have one: "fst (random_random high_draw) < 1"
    unfolding r by simp
  show "\<exists>ws g0 fixed.
        99 / 100 \<le> sum_list (map snd ws) \<and> sum_list (map snd ws) < 1
        \<and> normalize_distribution (Some ws) = Inr (Some ws)
        \<and> sum_list (map snd ws) < fst (random_random g0)
        \<and> fst (random_random g0) < 1
        \<and> fst (current_archetype fixed (Some ws) g0) = fixed
        \<and> fixed \<notin> fst ` set ws"
    using s n lt one c k by (intro exI [of _ short_weights] exI [of _ high_draw]
      exI [of _ "''auto''"]) simp
qed

theorem simulate_drafts_archetype_choice_witness:
  "\<exists>decks g' deck card.
      simulate_drafts small_catalog 1 ''auto'' (Some short_weights) high_draw
        = Some (Inr (decks, g'))
      \<and> deck \<in> set decks \<and> card \<in> set deck
      \<and> (\<exists>a. tag_archetype card = Some a
            \<and> (a = ''auto'' \<or> a \<in> fst ` set short_weights))"
proof -
  have cat: "enough_cards small_catalog"
    by (simp add: enough_cards_def small_catalog_def commons_of_def uncommons_of_def
        rares_of_def goblin_def charm_def dragon_def)
  have cols: "\<forall>c \<in> set small_catalog. set (colors c) \<subseteq> set five_colors"
    by (simp add: small_catalog_def goblin_def charm_def dragon_def five_colors_def)
  have norm: "normalize_distribution (Some short_weights) = Inr (Some short_weights)"
    by (simp add: normalize_distribution_def short_weights_def)
  have mono: "\<not> startswith ''auto'' ''MONO_''"
    "\<forall>a \<in> fst ` set short_weights. \<not> startswith a ''MONO_''"
    by (simp_all add: startswith_def short_weights_def)
  from simulate_one_run [OF cat cols norm mono, of high_draw]
  obtain arch deck g' where
    run: "simulate_drafts small_catalog 1 ''auto'' (Some short_weights) high_draw
            = Some (Inr ([tag_deck arch 0 deck], g'))"
    and len: "length deck = 40"
    by blast
  from len obtain e es where "deck = e # es" by (cases deck) auto
  then have card: "\<lparr>entry = e, tag_archetype = Some arch, tag_draft_number = Some 0\<rparr>
      \<in> set (tag_deck arch 0 deck)"
    by (simp add: tag_deck_def)
  have deck: "tag_deck arch 0 deck \<in> set [tag_deck arch 0 deck]" by simp
  from simulate_drafts_archetype_choice
    [of small_catalog 1 "''auto''" short_weights high_draw] run deck card
  have "\<exists>a. tag_archetype \<lparr>entry = e, tag_archetype = Some arch,
                tag_draft_number = Some 0\<rparr> = Some a
            \<and> (a = ''auto'' \<or> a \<in> fst ` set short_weights)"
    by blast
  with run deck card show ?thesis by blast
qed

lemma land_name_basic: "entry_name (land color) \<in> set basic_land_names"
  by (simp add: land_def basic_land_name_def basic_land_names_def)

lemma counted_entries:
  assumes "set lands \<subseteq> land ` set primary"
  shows "filter (\<lambda>e. entry_name e \<notin> set basic_land_names) (map Spell sel @ lands)
           = map Spell (filter (\<lambda>c. name c \<notin> set basic_land_names) sel)"
proof -
  have "\<forall>l \<in> set lands. entry_name l \<in> set basic_land_names"
    using assms land_name_basic by auto
  then have "filter (\<lambda>e. entry_name e \<notin> set basic_land_names) lands = []"
    by (simp add: filter_empty_conv)
  moreover have "filter (\<lambda>e. entry_name e \<notin> set basic_land_names) (map Spell sel)
      = map Spell (filter (\<lambda>c. name c \<notin> set basic_land_names) sel)"
    by (induction sel) simp_all
  ultimately show ?thesis by simp
qed

lemma card_records_single:
  "card_records [tag_deck arch i deck]
     = map (\<lambda>e. make_record 0 \<lparr>entry = e, tag_archetype = Some arch,
                                tag_draft_number = Some i\<rparr>)
         (filter (\<lambda>e. entry_name e \<notin> set basic_land_names) deck)"
  by (simp add: card_records_def tag_deck_def filter_map comp_def)

lemma mono_red_primary: "primary_colors ''MONO_R'' cc = [''R'']"
  by (simp add: primary_colors_def startswith_def two_color_codes_def three_color_codes_def)

lemma selection_small_pool:
  assumes "length sealed_pool \<le> 23"
  shows "selection sealed_pool archetype cc
           = playable_cards (primary_colors archetype cc)
               (map (score_entry archetype (primary_colors archetype cc)) sealed_pool)"
proof -
  have "length (playable_cards (primary_colors archetype cc)
      (map (score_entry archetype (primary_colors archetype cc)) sealed_pool))
      \<le> length sealed_pool"
    unfolding playable_cards_def
    by (metis length_filter_le length_map length_sort)
  with assms show ?thesis
    unfolding selection_def Let_def by (intro select_cards_short) simp
qed

lemma counted_playable:
  "filter (\<lambda>c. name c \<notin> set basic_land_names)
       (playable_cards primary (map (score_entry archetype primary') cs))
     = sort_key (\<lambda>c. - score c)
         (filter (playable primary)
            (map (score_entry archetype primary')
               (filter (\<lambda>c. name c \<notin> set basic_land_names) cs)))"
proof -
  have "filter (\<lambda>c. name c \<notin> set basic_land_names)
          (map (score_entry archetype primary') cs)
      = map (score_entry archetype primary')
          (filter (\<lambda>c. name c \<notin> set basic_land_names) cs)"
    by (induction cs) simp_all
  moreover have "filter (\<lambda>c. name c \<notin> set basic_land_names)
       (playable_cards primary (map (score_entry archetype primary') cs))
     = sort_key (\<lambda>c. - score c) (filter (playable primary)
          (filter (\<lambda>c. name c \<notin> set basic_land_names)
             (map (score_entry archetype primary') cs)))"
    unfolding playable_cards_def
    by (simp add: filter_sort) (metis filter_filter conj_commute)
  ultimately show ?thesis by simp
qed

lemma analyze_one_record:
  "analyze_drafts [tag_deck arch i deck] = Inr (df, a)
     \<and> map card_name df = [name c]
     \<and> most_common_cards a = [(name c, 1)]
     \<and> rarity_distribution a = Some [(rarity c, 1)]
     \<and> mana_curve a = Some [(cmc c, 1)]"
  if "filter (\<lambda>e. entry_name e \<notin> set basic_land_names) deck = [Spell c]"
    and "df = card_records [tag_deck arch i deck]" and "a = analyze_records df"
proof -
  have df: "df = [make_record 0 \<lparr>entry = Spell c, tag_archetype = Some arch,
                                tag_draft_number = Some i\<rparr>]"
    unfolding that(2) card_records_single that(1) by simp
  have "analyze_drafts [tag_deck arch i deck] = Inr (df, a)"
    unfolding analyze_drafts_def Let_def that(2) [symmetric] that(3) using df by simp
  moreover have "map card_name df = [name c]"
    unfolding df by (simp add: make_record_def)
  moreover have "most_common_cards a = [(name c, 1)]"
    unfolding that(3) df by (simp add: analyze_records_def make_record_def value_counts_def)
  moreover have "rarity_distribution a = Some [(rarity c, 1)]"
    unfolding that(3) df
    by (simp add: analyze_records_def make_record_def value_counts_def present_def)
  moreover have "mana_curve a = Some [(cmc c, 1)]"
    unfolding that(3) df
    by (simp add: analyze_records_def make_record_def group_sizes_def present_def)
  ultimately show ?thesis by blast
qed

text \<open>
  C8, as stated, fails: a land of the pool is playable, is selected, and is counted
  unless it carries one of the six basic-land names. With \<^verbatim>\<open>"X"\<close> and an
  \<^verbatim>\<open>"Evolving Wilds"\<close> in the pool, the only non-land card is \<^verbatim>\<open>"X"\<close>, and both are
  counted.
\<close>

theorem analyze_pool_land_counterexample:
  "\<not> str_in ''Land'' (type_line card_x) \<and> str_in ''Land'' (type_line wilds)
   \<and> build_deck [card_x, wilds] ''MONO_R''
       = Some (Inr (Spell (score_entry ''MONO_R'' [''R''] card_x)
                    # Spell (score_entry ''MONO_R'' [''R''] wilds)
                    # replicate 38 (Basic_Land ''Mountain'')))
   \<and> map_sum id (\<lambda>(df, a). most_common_cards a)
        (analyze_drafts [tag_deck ''MONO_R'' 0
           (Spell (score_entry ''MONO_R'' [''R''] card_x)
            # Spell (score_entry ''MONO_R'' [''R''] wilds)
            # replicate 38 (Basic_Land ''Mountain''))])
       = Inr [(''X'', 1), (''Evolving Wilds'', 1)]"
  by code_simp

text \<open>
  C8, amended. Take a pool of at most 23 cards in which \<^verbatim>\<open>"X"\<close> (common, mana value 2,
  colour R, not a land) is the only card that is not named like a basic land, and a
  batch of one run with archetype \<^verbatim>\<open>"MONO_R"\<close> built from it. Then \<^verbatim>\<open>analyze_drafts\<close>
  counts \<^verbatim>\<open>"X"\<close> alone: one row, \<^verbatim>\<open>most_common_cards = {"X": 1}\<close>,
  \<^verbatim>\<open>rarity_distribution = {"common": 1}\<close> and \<^verbatim>\<open>mana_curve = {2: 1}\<close>.
\<close>

theorem analyze_single_card:
  assumes "name x = ''X''" "rarity x = ''common''" "cmc x = 2" "colors x = [''R'']"
    and "\<not> str_in ''Land'' (type_line x)"
    and "filter (\<lambda>c. name c \<notin> set basic_land_names) sealed_pool = [x]"
    and "length sealed_pool \<le> 23"
    and "build_deck sealed_pool ''MONO_R'' = Some (Inr deck)"
  shows "\<exists>df a. analyze_drafts [tag_deck ''MONO_R'' 0 deck] = Inr (df, a)
           \<and> map card_name df = [''X'']
           \<and> most_common_cards a = [(''X'', 1)]
           \<and> rarity_distribution a = Some [(''common'', 1)]
           \<and> mana_curve a = Some [(2, 1)]"
proof -
  from assms(8) obtain cc lands where
    mb: "mana_base (selection sealed_pool ''MONO_R'' cc) (primary_colors ''MONO_R'' cc)
       = Some (Inr lands)" and
    deck: "deck = map Spell (selection sealed_pool ''MONO_R'' cc) @ lands"
    by (rule build_deck_returns)
  let ?x = "score_entry ''MONO_R'' [''R''] x"
  have sel: "selection sealed_pool ''MONO_R'' cc
      = playable_cards [''R''] (map (score_entry ''MONO_R'' [''R'']) sealed_pool)"
    using selection_small_pool [OF assms(7), of "''MONO_R''" cc]
    by (simp add: mono_red_primary)
  have px: "playable [''R''] ?x"
    by (simp add: playable_def assms(4))
  have "filter (\<lambda>c. name c \<notin> set basic_land_names) (selection sealed_pool ''MONO_R'' cc)
      = [?x]"
    unfolding sel counted_playable assms(6) using px by simp
  then have "filter (\<lambda>e. entry_name e \<notin> set basic_land_names) deck = [Spell ?x]"
    unfolding deck using counted_entries [OF build_deck_lands(1) [OF mb]] by simp
  from analyze_one_record [OF this refl refl, of "''MONO_R''" 0]
  show ?thesis
    by (simp add: assms(1,2,3))
qed

theorem analyze_single_card_witness:
  "name card_x = ''X'' \<and> rarity card_x = ''common'' \<and> cmc card_x = 2
   \<and> colors card_x = [''R''] \<and> \<not> str_in ''Land'' (type_line card_x)
   \<and> filter (\<lambda>c. name c \<notin> set basic_land_names) [pool_mountain, card_x, pool_mountain]
        = [card_x]
   \<and> build_deck [pool_mountain, card_x, pool_mountain] ''MONO_R''
        = Some (Inr (Spell (score_entry ''MONO_R'' [''R''] card_x)
                     # Spell (score_entry ''MONO_R'' [''R''] pool_mountain)
                     # Spell (score_entry ''MONO_R'' [''R''] pool_mountain)
                     # replicate 37 (Basic_Land ''Mountain'')))
   \<and> (\<exists>df a. analyze_drafts [tag_deck ''MONO_R'' 0
                 (Spell (score_entry ''MONO_R'' [''R''] card_x)
                  # Spell (score_entry ''MONO_R'' [''R''] pool_mountain)
                  # Spell (score_entry ''MONO_R'' [''R''] pool_mountain)
                  # replicate 37 (Basic_Land ''Mountain''))] = Inr (df, a)
           \<and> map card_name df = [''X'']
           \<and> most_common_cards a = [(''X'', 1)]
           \<and> rarity_distribution a = Some [(''common'', 1)]
           \<and> mana_curve a = Some [(2, 1)])"
proof -
  have x: "name card_x = ''X''" "rarity card_x = ''common''" "cmc card_x = 2"
    "colors card_x = [''R'']" "\<not> str_in ''Land'' (type_line card_x)"
    by (simp_all add: card_x_def)
  have f: "filter (\<lambda>c. name c \<notin> set basic_land_names) [pool_mountain, card_x, pool_mountain]
        = [card_x]"
    by (simp add: basic_land_names_def card_x_def pool_mountain_def)
  have l: "length [pool_mountain, card_x, pool_mountain] \<le> 23"
    by simp
  have b: "build_deck [pool_mountain, card_x, pool_mountain] ''MONO_R''
        = Some (Inr (Spell (score_entry ''MONO_R'' [''R''] card_x)
                     # Spell (score_entry ''MONO_R'' [''R''] pool_mountain)
                     # Spell (score_entry ''MONO_R'' [''R''] pool_mountain)
                     # replicate 37 (Basic_Land ''Mountain'')))"
    by code_simp
  from analyze_single_card [OF x f l b] x f b show ?thesis
    by blast
qed

lemma keeps_refl: "keeps n h h"
  by (simp add: keeps_def)

lemma keeps_trans: "keeps n h h1 \<Longrightarrow> keeps n h1 h2 \<Longrightarrow> keeps n h h2"
  by (simp add: keeps_def)

lemma keeps_alloc: "n \<le> length h \<Longrightarrow> keeps n h (fst (alloc h x))"
  by (simp add: keeps_def alloc_def)

lemma keeps_update: "n \<le> p \<Longrightarrow> keeps n h (h[p := x])"
  by (simp add: keeps_def)

lemma keeps_nth: "keeps n h h' \<Longrightarrow> a < n \<Longrightarrow> a < length h \<Longrightarrow> h' ! a = h ! a"
  by (metis keeps_def nth_take)

lemma fresh_grow: "fresh n h ps \<Longrightarrow> length h \<le> length h' \<Longrightarrow> fresh n h' ps"
  by (auto simp: fresh_def)

lemma fresh_subset: "fresh n h ps \<Longrightarrow> set qs \<subseteq> set ps \<Longrightarrow> fresh n h qs"
  by (auto simp: fresh_def)

lemma copy_cards_frame:
  assumes "copy_cards h sealed_pool pool_data = (h1, pd)" "n \<le> length h" "fresh n h pool_data"
  shows "keeps n h h1 \<and> fresh n h1 pd"
  using assms
proof (induction sealed_pool arbitrary: h pool_data)
  case Nil
  then show ?case by (simp add: keeps_refl)
next
  case (Cons a sealed_pool)
  let ?h = "h @ [Card_Dict (read_card (h ! a)) None None None]"
  have run: "copy_cards ?h sealed_pool (pool_data @ [length h]) = (h1, pd)"
    using Cons.prems(1) by (simp add: alloc_def)
  have k: "keeps n h ?h"
    using Cons.prems(2) by (simp add: keeps_def)
  have "fresh n ?h (pool_data @ [length h])"
    using Cons.prems(2,3) by (auto simp: fresh_def)
  moreover have "n \<le> length ?h" using Cons.prems(2) by simp
  ultimately have "keeps n ?h h1 \<and> fresh n h1 pd"
    using run by (intro Cons.IH)
  with k show ?case by (blast intro: keeps_trans)
qed

lemma score_cards_frame:
  assumes "fresh n h pool_data"
  shows "keeps n h (score_cards archetype primary h pool_data)
       \<and> length (score_cards archetype primary h pool_data) = length h"
  using assms
proof (induction pool_data arbitrary: h)
  case Nil
  show ?case by (simp add: keeps_refl)
next
  case (Cons p pool_data)
  let ?h = "h[p := set_score (score_card archetype primary (read_card (h ! p))) (h ! p)]"
  have p: "n \<le> p" using Cons.prems by (simp add: fresh_def)
  have "fresh n ?h pool_data"
    using Cons.prems by (simp add: fresh_def)
  from Cons.IH [OF this] keeps_update [OF p, of h] show ?case
    by (auto intro: keeps_trans)
qed

lemma remove_equal_subset: "set (remove_equal h x ps) \<subseteq> set ps"
  by (induction ps) auto

lemma remove_lowest_at_subset: "set (remove_lowest_at h n ncs ps) \<subseteq> set ps"
proof (induction h n ncs ps rule: remove_lowest_at.induct)
  case (3 h n x ncs ps)
  with remove_equal_subset [of h x ps] show ?case by auto
qed simp_all

lemma select_cards_at_subset: "set (select_cards_at h m ps) \<subseteq> set ps"
proof -
  define cr where "cr = (\<lambda>p. is_creature (read_scored (h ! p)))"
  define pot where "pot = (if length ps > 23 then take 23 ps else ps)"
  define add where "add = take (m - length (filter cr pot)) (filter cr (drop 23 ps))"
  define ncs where
    "ncs = sort_key (\<lambda>p. score (read_scored (h ! p))) (filter (\<lambda>p. \<not> cr p) pot)"
  define pot2 where
    "pot2 = (if length (filter cr pot) < m
             then remove_lowest_at h (min (length add) (length ncs)) ncs pot @ add else pot)"
  have eq: "select_cards_at h m ps = (if length pot2 > 23 then take 23 pot2 else pot2)"
    unfolding select_cards_at_def Let_def pot2_def ncs_def add_def pot_def cr_def ..
  have pot: "set pot \<subseteq> set ps"
    unfolding pot_def using set_take_subset [of 23 ps] by simp
  have add: "set add \<subseteq> set ps"
    unfolding add_def
    using set_take_subset [of "m - length (filter cr pot)" "filter cr (drop 23 ps)"]
      set_drop_subset [of 23 ps]
    by auto
  have "set (remove_lowest_at h (min (length add) (length ncs)) ncs pot) \<subseteq> set ps"
    using remove_lowest_at_subset [of h "min (length add) (length ncs)" ncs pot] pot by blast
  with add pot have pot2: "set pot2 \<subseteq> set ps"
    unfolding pot2_def by simp
  have "set (select_cards_at h m ps) \<subseteq> set pot2"
    unfolding eq using set_take_subset [of 23 pot2] by simp
  with pot2 show ?thesis by blast
qed

lemma playable_cards_at_subset: "set (playable_cards_at h primary pd) \<subseteq> set pd"
  by (auto simp: playable_cards_at_def)

lemma extend_lands_frame:
  assumes "extend_lands h shares lands = (h1, lands1)" "n \<le> length h" "fresh n h lands"
  shows "keeps n h h1 \<and> fresh n h1 lands1"
  using assms
proof (induction shares arbitrary: h lands)
  case Nil
  then show ?case by (simp add: keeps_refl)
next
  case (Cons ck shares)
  obtain color k where ck: "ck = (color, k)" by (cases ck)
  let ?h = "h @ [Land_Dict (basic_land_name color) None None]"
  have run: "extend_lands ?h shares (lands @ replicate k (length h)) = (h1, lands1)"
    using Cons.prems(1) by (simp add: ck alloc_def)
  have k: "keeps n h ?h"
    using Cons.prems(2) by (simp add: keeps_def)
  have "fresh n ?h (lands @ replicate k (length h))"
    using Cons.prems(2,3) by (auto simp: fresh_def)
  moreover have "n \<le> length ?h" using Cons.prems(2) by simp
  ultimately have "keeps n ?h h1 \<and> fresh n h1 lands1"
    using run by (intro Cons.IH)
  with k show ?case by (blast intro: keeps_trans)
qed

lemma distribute_lands_at_frame:
  assumes "distribute_lands_at h primary d t needed = Inr (h1, lands)" "n \<le> length h"
  shows "keeps n h h1 \<and> fresh n h1 lands"
proof -
  have f: "fresh n h []" by (simp add: fresh_def)
  have "\<exists>shares. extend_lands h shares [] = (h1, lands)"
    using assms(1) unfolding distribute_lands_at_def
    by (auto split: if_splits simp del: extend_lands.simps)
  then obtain shares where "extend_lands h shares [] = (h1, lands)" by blast
  then show ?thesis using assms(2) f by (rule extend_lands_frame)
qed

lemma add_lands_at_frame:
  assumes "add_lands_at needed d primary h lands = Inr (h1, lands1)" "n \<le> length h"
    "fresh n h lands"
  shows "keeps n h h1 \<and> fresh n h1 lands1"
  using assms
proof (induction needed d primary h lands rule: add_lands_at.induct)
  case (1 needed d primary h lands)
  show ?case
  proof (cases "length lands < needed")
    case True
    then obtain c where c: "max_by (symbols_of d) primary = Inr c"
      using "1.prems"(1) by (subst (asm) add_lands_at.simps) (auto split: sum.splits)
    let ?h = "h @ [Land_Dict (basic_land_name c) None None]"
    have a: "alloc h (Land_Dict (basic_land_name c) None None) = (?h, length h)"
      by (simp add: alloc_def)
    have run: "add_lands_at needed d primary ?h (lands @ [length h]) = Inr (h1, lands1)"
      using "1.prems"(1) True c by (subst (asm) add_lands_at.simps) (simp add: alloc_def)
    have k: "keeps n h ?h"
      using "1.prems"(2) by (simp add: keeps_def)
    have "fresh n ?h (lands @ [length h])"
      using "1.prems"(2,3) by (auto simp: fresh_def)
    moreover have "n \<le> length ?h" using "1.prems"(2) by simp
    ultimately have "keeps n ?h h1 \<and> fresh n h1 lands1"
      using run by (intro "1.IH" [OF True c a [symmetric]])
    with k show ?thesis by (blast intro: keeps_trans)
  next
    case False
    with "1.prems" show ?thesis
      by (subst (asm) add_lands_at.simps) (simp add: keeps_refl)
  qed
qed

lemma pop_first_named_at_subset: "set (pop_first_named_at h n ls) \<subseteq> set ls"
  by (induction ls) auto

lemma remove_lands_at_subset:
  assumes "remove_lands_at needed d primary h lands = Some r"
  shows "\<forall>lands'. r = Inr lands' \<longrightarrow> set lands' \<subseteq> set lands"
proof (rule remove_lands_at.raw_induct
    [where P = "\<lambda>needed d primary h lands r.
        \<forall>lands'. r = Inr lands' \<longrightarrow> set lands' \<subseteq> set lands", OF _ assms])
  fix rec and needed :: nat and d :: counts and primary :: "string list"
    and h :: store and lands :: "ref list" and r :: "error + ref list"
  assume IH: "\<And>needed d primary h lands r. rec needed d primary h lands = Some r \<Longrightarrow>
      \<forall>lands'. r = Inr lands' \<longrightarrow> set lands' \<subseteq> set lands"
    and eq: "(if needed < length lands
      then case min_by (symbols_of d) primary of Inl e \<Rightarrow> Some (Inl e)
           | Inr least_demanding_color \<Rightarrow>
               rec needed d primary h
                (pop_first_named_at h (basic_land_name least_demanding_color) lands)
      else Some (Inr lands)) = Some r"
  show "\<forall>lands'. r = Inr lands' \<longrightarrow> set lands' \<subseteq> set lands"
  proof (cases "needed < length lands")
    case False
    with eq show ?thesis by auto
  next
    case True
    show ?thesis
    proof (cases "min_by (symbols_of d) primary")
      case (Inl e)
      with True eq show ?thesis by auto
    next
      case (Inr c)
      with True eq have
        "rec needed d primary h (pop_first_named_at h (basic_land_name c) lands) = Some r"
        by simp
      from IH [OF this] pop_first_named_at_subset [of h "basic_land_name c" lands]
      show ?thesis by blast
    qed
  qed
qed

lemma mana_base_at_frame:
  assumes "mana_base_at h sel primary = Some (Inr (h3, lands))" "n \<le> length h"
  shows "keeps n h h3 \<and> fresh n h3 lands"
proof -
  let ?needed = "40 - length sel"
  from assms(1) obtain ms where
    ms: "count_symbols (map (\<lambda>p. read_scored (h ! p)) sel) primary mana_symbols_init = Inr ms"
    unfolding mana_base_at_def Let_def by (auto split: sum.splits)
  from assms(1) ms obtain t where t: "sum_symbols ms primary = Inr t"
    unfolding mana_base_at_def Let_def by (auto split: sum.splits)
  from assms(1) ms t obtain h1 lands0 where
    l0: "distribute_lands_at h primary ms t ?needed = Inr (h1, lands0)"
    unfolding mana_base_at_def Let_def by (auto split: sum.splits)
  from assms(1) ms t l0 obtain h2 lands1 where
    l1: "add_lands_at ?needed ms primary h1 lands0 = Inr (h2, lands1)"
    unfolding mana_base_at_def Let_def by (auto split: sum.splits)
  from assms(1) ms t l0 l1 have
    l2: "remove_lands_at ?needed ms primary h2 lands1 = Some (Inr lands)" and h3: "h3 = h2"
    unfolding mana_base_at_def Let_def by (auto split: sum.splits option.splits)
  have a: "keeps n h h1" "fresh n h1 lands0"
    using distribute_lands_at_frame [OF l0 assms(2)] by simp_all
  have "n \<le> length h1" using a(1) assms(2) by (simp add: keeps_def)
  from add_lands_at_frame [OF l1 this a(2)]
  have b: "keeps n h1 h2" "fresh n h2 lands1" by simp_all
  have "set lands \<subseteq> set lands1"
    using remove_lands_at_subset [OF l2] by simp
  with b(2) have "fresh n h2 lands" by (rule fresh_subset)
  with a(1) b(1) show ?thesis
    unfolding h3 by (blast intro: keeps_trans)
qed

lemma build_deck_at_frame:
  assumes "build_deck_at h sealed_pool archetype = Some (Inr (h', deck))"
  shows "keeps (length h) h h' \<and> fresh (length h) h' deck"
proof -
  let ?n = "length h"
  obtain h1 pd where cp: "copy_cards h sealed_pool [] = (h1, pd)"
    by (cases "copy_cards h sealed_pool []")
  have "fresh ?n h []" by (simp add: fresh_def)
  with copy_cards_frame [OF cp] have a: "keeps ?n h h1" "fresh ?n h1 pd"
    by simp_all
  from assms cp obtain cc where
    cc: "count_colors (map (\<lambda>p. read_card (h1 ! p)) pd) color_counts_init = Inr cc"
    unfolding build_deck_at_def by (auto split: sum.splits)
  let ?primary = "primary_colors archetype cc"
  let ?h2 = "score_cards archetype ?primary h1 pd"
  let ?sel = "select_cards_at ?h2 (min_creatures_for archetype)
                (playable_cards_at ?h2 ?primary pd)"
  from assms cp cc obtain lands where
    mb: "mana_base_at ?h2 ?sel ?primary = Some (Inr (h', lands))" and
    deck: "deck = ?sel @ lands"
    unfolding build_deck_at_def Let_def by (auto split: sum.splits option.splits)
  have b: "keeps ?n h1 ?h2" "length ?h2 = length h1"
    using score_cards_frame [OF a(2)] by simp_all
  have n2: "?n \<le> length ?h2"
    using a(1) b(2) by (simp add: keeps_def)
  from mana_base_at_frame [OF mb n2] have c: "keeps ?n ?h2 h'" "fresh ?n h' lands"
    by simp_all
  have "set ?sel \<subseteq> set pd"
    using select_cards_at_subset playable_cards_at_subset by blast
  with a(2) have "fresh ?n h1 ?sel" by (rule fresh_subset)
  moreover have "length h1 \<le> length h'"
    using b(2) c(1) unfolding keeps_def by linarith
  ultimately have s: "fresh ?n h' ?sel"
    by (rule fresh_grow)
  have "fresh ?n h' (?sel @ lands)"
    using s c(2) unfolding fresh_def set_append by blast
  then have "fresh ?n h' deck"
    unfolding deck .
  moreover have "keeps ?n h h'"
    using keeps_trans [OF keeps_trans [OF a(1) b(1)] c(1)] .
  ultimately show ?thesis by blast
qed

lemma tag_deck_at_frame:
  assumes "fresh n h deck"
  shows "keeps n h (tag_deck_at arch i h deck)"
  using assms
proof (induction deck arbitrary: h)
  case Nil
  show ?case by (simp add: keeps_refl)
next
  case (Cons p deck)
  have p: "n \<le> p" using Cons.prems by (simp add: fresh_def)
  have "fresh n (h[p := set_tags arch i (h ! p)]) deck"
    using Cons.prems by (simp add: fresh_def)
  from Cons.IH [OF this] keeps_update [OF p, of h] show ?case
    by (auto intro: keeps_trans)
qed

text \<open>
  C9. \<^verbatim>\<open>build_deck\<close> leaves every dictionary that existed before the call as it was, so
  the catalog records that the sealed pool refers to keep every key and value and gain
  no \<^verbatim>\<open>"score"\<close>: scores are assigned to the new dictionaries of \<^verbatim>\<open>pool_data\<close> only. The
  deck consists of dictionaries created during the call, so the metadata that
  \<^verbatim>\<open>simulate_drafts\<close> then assigns to the deck's cards does not reach the catalog either.
\<close>

theorem build_deck_leaves_records_unchanged:
  assumes "build_deck_at h sealed_pool archetype = Some (Inr (h', deck))"
  shows "length h \<le> length h'
       \<and> (\<forall>a < length h. h' ! a = h ! a)
       \<and> (\<forall>p \<in> set deck. length h \<le> p \<and> p < length h')
       \<and> (\<forall>a < length h. tag_deck_at arch i h' deck ! a = h ! a)"
proof -
  from build_deck_at_frame [OF assms]
  have k: "keeps (length h) h h'" and f: "fresh (length h) h' deck"
    by simp_all
  from tag_deck_at_frame [OF f] have "keeps (length h) h' (tag_deck_at arch i h' deck)" .
  with k have k2: "keeps (length h) h (tag_deck_at arch i h' deck)"
    by (rule keeps_trans)
  have "length h \<le> length h'"
    using k by (simp add: keeps_def)
  moreover have "\<forall>a < length h. h' ! a = h ! a"
    using keeps_nth [OF k] by simp
  moreover have "\<forall>p \<in> set deck. length h \<le> p \<and> p < length h'"
    using f by (simp add: fresh_def)
  moreover have "\<forall>a < length h. tag_deck_at arch i h' deck ! a = h ! a"
    using keeps_nth [OF k2] by simp
  ultimately show ?thesis by blast
qed

theorem build_deck_leaves_records_unchanged_witness:
  "build_deck_at two_card_store [0, 1, 0] ''MONO_R'' = Some (Inr (built_store, built_deck))
   \<and> length two_card_store = 2 \<and> length built_store = 6
   \<and> built_store ! 0 = two_card_store ! 0 \<and> built_store ! 1 = two_card_store ! 1
   \<and> list_all (\<lambda>p. length two_card_store \<le> p \<and> p < length built_store) built_deck
   \<and> tag_deck_at ''MONO_R'' 0 built_store built_deck ! 0 = two_card_store ! 0
   \<and> tag_deck_at ''MONO_R'' 0 built_store built_deck ! 1 = two_card_store ! 1"
proof -
  have h: "build_deck_at two_card_store [0, 1, 0] ''MONO_R''
      = Some (Inr (built_store, built_deck))"
    by code_simp
  have l: "length two_card_store = 2" "length built_store = 6"
    by (simp_all add: two_card_store_def built_store_def)
  from build_deck_leaves_records_unchanged [OF h, of "''MONO_R''" 0]
  have a: "\<forall>a < length two_card_store. built_store ! a = two_card_store ! a"
    and b: "\<forall>p \<in> set built_deck. length two_card_store \<le> p \<and> p < length built_store"
    and c: "\<forall>a < length two_card_store.
         tag_deck_at ''MONO_R'' 0 built_store built_deck ! a = two_card_store ! a"
    by blast+
  have d: "list_all (\<lambda>p. length two_card_store \<le> p \<and> p < length built_store) built_deck"
    using b by (simp only: list_all_iff)
  have e: "built_store ! 0 = two_card_store ! 0" "built_store ! 1 = two_card_store ! 1"
    using a l(1) by simp_all
  have f: "tag_deck_at ''MONO_R'' 0 built_store built_deck ! 0 = two_card_store ! 0"
    "tag_deck_at ''MONO_R'' 0 built_store built_deck ! 1 = two_card_store ! 1"
    using c l(1) by simp_all
  show ?thesis
    using h l d e f by blast
qed

lemma appended_land_basic: "basic_land_entry (land color)"
proof -
  have "str_in ''Land'' ''Basic Land''" by code_simp
  then show ?thesis
    using land_name_basic [of color] by (simp add: basic_land_entry_def land_def)
qed

lemma appended_lands_basic:
  assumes "set lands \<subseteq> land ` set primary"
  shows "\<forall>l \<in> set lands. basic_land_entry l"
  using assms appended_land_basic by auto

lemma non_land_entries_selected:
  assumes "\<forall>l \<in> set lands. basic_land_entry l"
  shows "filter non_land_entry (map Spell sel @ lands)
           = map Spell (filter (\<lambda>c. \<not> str_in ''Land'' (type_line c)) sel)"
proof -
  have a: "filter non_land_entry (map Spell sel)
             = map Spell (filter (\<lambda>c. \<not> str_in ''Land'' (type_line c)) sel)"
    by (induction sel) (simp_all add: non_land_entry_def)
  have "\<forall>l \<in> set lands. \<not> non_land_entry l"
    using assms by (simp add: basic_land_entry_def non_land_entry_def)
  then have "filter non_land_entry lands = []"
    by (simp add: filter_empty_conv)
  with a show ?thesis by simp
qed

lemma basic_complement:
  assumes "\<forall>e \<in> set deck. basic_land_entry e \<longleftrightarrow> \<not> non_land_entry e"
  shows "length (filter basic_land_entry deck) = length deck - length (filter non_land_entry deck)"
proof -
  have "filter basic_land_entry deck = filter (\<lambda>e. \<not> non_land_entry e) deck"
    using assms by (intro filter_cong) simp_all
  moreover have "length (filter non_land_entry deck)
      + length (filter (\<lambda>e. \<not> non_land_entry e) deck) = length deck"
    by (rule sum_length_filter_compl)
  ultimately show ?thesis by simp
qed

text \<open>
  C1, as stated, fails: \<^verbatim>\<open>build_deck\<close> keeps every land of the pool as a playable card,
  so a land can be among the selected cards. From the pool of \<^verbatim>\<open>"X"\<close> and an
  \<^verbatim>\<open>"Evolving Wilds"\<close> it returns both and 38 Mountains: one non-land entry, and 38
  basic lands instead of 39.
\<close>

theorem build_deck_pool_land_counterexample:
  "build_deck [card_x, wilds] ''MONO_R'' = Some (Inr mixed_deck)
   \<and> length mixed_deck = 40
   \<and> length (filter non_land_entry mixed_deck) = 1
   \<and> length (filter basic_land_entry mixed_deck) = 38
   \<and> length (filter basic_land_entry mixed_deck)
        \<noteq> 40 - length (filter non_land_entry mixed_deck)"
  by code_simp

text \<open>
  C1, amended. A deck that \<^verbatim>\<open>build_deck\<close> returns has exactly 40 entries and at most 23
  non-land entries. It is made of at most 23 cards selected from the pool, lands of the
  pool among them when they were selected, followed by exactly 40 minus that many
  appended basic lands. When every land card of the pool carries a basic-land name, its
  basic-land entries number exactly 40 minus its non-land entries.
\<close>

theorem build_deck_entry_counts:
  assumes "build_deck sealed_pool archetype = Some (Inr deck)"
  shows "length deck = 40
       \<and> length (filter non_land_entry deck) \<le> 23
       \<and> (\<exists>selected lands. deck = map Spell selected @ lands
             \<and> length selected \<le> 23
             \<and> length lands = 40 - length selected
             \<and> card.truncate ` set selected \<subseteq> set sealed_pool
             \<and> (\<forall>l \<in> set lands. is_basic_land l \<and> basic_land_entry l))
       \<and> ((\<forall>c \<in> set sealed_pool.
              str_in ''Land'' (type_line c) \<longrightarrow> name c \<in> set basic_land_names) \<longrightarrow>
            length (filter basic_land_entry deck)
              = 40 - length (filter non_land_entry deck))"
proof -
  from assms obtain cc lands where
    mb: "mana_base (selection sealed_pool archetype cc) (primary_colors archetype cc)
       = Some (Inr lands)" and
    deck: "deck = map Spell (selection sealed_pool archetype cc) @ lands"
    by (rule build_deck_returns)
  let ?sel = "selection sealed_pool archetype cc"
  let ?p = "primary_colors archetype cc"
  have sel: "length ?sel \<le> 23" by (rule selection_length)
  have lands_set: "set lands \<subseteq> land ` set ?p" and lands_len: "length lands = 40 - length ?sel"
    using build_deck_lands [OF mb] by simp_all
  have basic: "\<forall>l \<in> set lands. basic_land_entry l"
    using lands_set by (rule appended_lands_basic)
  have appended: "\<forall>l \<in> set lands. is_basic_land l"
    using lands_set by (auto simp: land_def)
  have len: "length deck = 40"
    using assms by (rule build_deck_length)
  have nl: "filter non_land_entry deck
      = map Spell (filter (\<lambda>c. \<not> str_in ''Land'' (type_line c)) ?sel)"
    unfolding deck using basic by (rule non_land_entries_selected)
  have "length (filter (\<lambda>c. \<not> str_in ''Land'' (type_line c)) ?sel) \<le> length ?sel"
    by (rule length_filter_le)
  then have "length (filter (\<lambda>c. \<not> str_in ''Land'' (type_line c)) ?sel) \<le> 23"
    using sel by (rule order_trans)
  then have few: "length (filter non_land_entry deck) \<le> 23"
    unfolding nl by simp
  have from_pool: "card.truncate ` set ?sel \<subseteq> set sealed_pool"
  proof
    fix c assume "c \<in> card.truncate ` set ?sel"
    then obtain sc where sc: "sc \<in> set ?sel" "c = card.truncate sc" by blast
    with selection_set [of sealed_pool archetype cc] obtain c' where
      "c' \<in> set sealed_pool" "sc = score_entry archetype ?p c'" by blast
    with sc(2) show "c \<in> set sealed_pool" by simp
  qed
  have shape: "\<exists>selected lands'. deck = map Spell selected @ lands'
             \<and> length selected \<le> 23
             \<and> length lands' = 40 - length selected
             \<and> card.truncate ` set selected \<subseteq> set sealed_pool
             \<and> (\<forall>l \<in> set lands'. is_basic_land l \<and> basic_land_entry l)"
    using deck sel lands_len from_pool basic appended by blast
  have eq: "length (filter basic_land_entry deck) = 40 - length (filter non_land_entry deck)"
    if pool: "\<forall>c \<in> set sealed_pool.
              str_in ''Land'' (type_line c) \<longrightarrow> name c \<in> set basic_land_names"
  proof -
    have "basic_land_entry e \<longleftrightarrow> \<not> non_land_entry e" if e: "e \<in> set deck" for e
    proof (cases "e \<in> set lands")
      case True
      with basic show ?thesis by (simp add: basic_land_entry_def non_land_entry_def)
    next
      case False
      with e obtain sc where sc: "sc \<in> set ?sel" "e = Spell sc"
        unfolding deck by auto
      with selection_set [of sealed_pool archetype cc] obtain c where
        c: "c \<in> set sealed_pool" "sc = score_entry archetype ?p c" by blast
      from pool c(1) have "str_in ''Land'' (type_line c) \<longrightarrow> name c \<in> set basic_land_names"
        by blast
      then show ?thesis
        unfolding sc(2) c(2) by (auto simp: basic_land_entry_def non_land_entry_def)
    qed
    then have "length (filter basic_land_entry deck)
        = length deck - length (filter non_land_entry deck)"
      by (intro basic_complement) blast
    then show ?thesis by (simp add: len)
  qed
  from len few shape eq show ?thesis by blast
qed

theorem build_deck_entry_counts_witness:
  "build_deck mountain_pool ''MONO_R'' = Some (Inr mountain_deck)
   \<and> filter (\<lambda>c. str_in ''Land'' (type_line c) \<and> name c \<notin> set basic_land_names)
        mountain_pool = []
   \<and> length mountain_deck = 40
   \<and> length (filter non_land_entry mountain_deck) = 1
   \<and> length (filter basic_land_entry mountain_deck) = 39
   \<and> length (filter basic_land_entry mountain_deck)
        = 40 - length (filter non_land_entry mountain_deck)"
proof -
  have h: "build_deck mountain_pool ''MONO_R'' = Some (Inr mountain_deck)"
    by code_simp
  have f: "filter (\<lambda>c. str_in ''Land'' (type_line c) \<and> name c \<notin> set basic_land_names)
        mountain_pool = []"
    by code_simp
  then have p: "\<forall>c \<in> set mountain_pool.
      str_in ''Land'' (type_line c) \<longrightarrow> name c \<in> set basic_land_names"
    by (simp add: filter_empty_conv)
  have n: "length (filter non_land_entry mountain_deck) = 1"
    by code_simp
  from build_deck_entry_counts [OF h] p
  have "length mountain_deck = 40"
    and "length (filter basic_land_entry mountain_deck)
        = 40 - length (filter non_land_entry mountain_deck)"
    by blast+
  with h f n show ?thesis by simp
qed

end
